theory Spec2Isabelle
  imports Complex_Main "HOL-Library.Word"
begin

unbundle bit_operations_syntax

section \<open>Build configuration and machine types\<close>

text \<open>
  The development follows \<^verbatim>\<open>src/file_export.c\<close> in the configuration in which every
  exported format is compiled: \<^verbatim>\<open>SOUND\<close> and \<^verbatim>\<open>AVI_VIDEO_RECORDING\<close> are defined,
  \<^verbatim>\<open>WORDS_BIGENDIAN\<close>, \<^verbatim>\<open>BASIC\<close>, \<^verbatim>\<open>CURSES_BASIC\<close> and
  \<^verbatim>\<open>SUPPORTS_CHANGE_VIDEOMODE\<close> are not. \<^verbatim>\<open>UBYTE\<close>, \<^verbatim>\<open>UWORD\<close> and \<^verbatim>\<open>ULONG\<close> are the
  unsigned 8, 16 and 32 bit integers of \<^verbatim>\<open>atari.h\<close>; arithmetic on them wraps. A C \<^verbatim>\<open>int\<close> is
  modelled by \<^typ>\<open>int\<close>: signed overflow is undefined behaviour in C and no function below
  relies on it; every conversion of an \<^verbatim>\<open>int\<close> to an unsigned type is written out with
  \<^const>\<open>word_of_int\<close>, which reduces modulo the width as the C conversion does.
\<close>

type_synonym UBYTE = "8 word"
type_synonym UWORD = "16 word"
type_synonym ULONG = "32 word"

definition TRUE :: int where "TRUE = 1"
definition FALSE :: int where "FALSE = 0"
definition EOF :: int where "EOF = - 1"

text \<open>The remainder operator \<^verbatim>\<open>%\<close> of C truncates towards zero; its sign follows the dividend.\<close>

definition c_rem :: "int \<Rightarrow> int \<Rightarrow> int" where
  "c_rem a b = sgn a * (\<bar>a\<bar> mod \<bar>b\<bar>)"

text \<open>
  The product of two \<^verbatim>\<open>int\<close> values is an \<^verbatim>\<open>int\<close> of 32 bits: the exact product when it lies
  between \<open>INT_MIN\<close> and \<open>INT_MAX\<close>, and wrapped around otherwise.
\<close>

definition INT_MAX :: int where "INT_MAX = 2147483647"
definition INT_MIN :: int where "INT_MIN = - 2147483648"

definition int_mul :: "int \<Rightarrow> int \<Rightarrow> int" where
  "int_mul a b = sint (word_of_int (a * b) :: 32 word)"

text \<open>\<^verbatim>\<open>#define MAX_RECORDING_SIZE (0xfff00000)\<close>\<close>

definition MAX_RECORDING_SIZE :: ULONG where
  "MAX_RECORDING_SIZE = 0xfff00000"

subsection \<open>The packed per-frame index word\<close>

text \<open>
  \<^verbatim>\<open>#define FRAME_INDEX_ALLOC_SIZE 1000\<close>, \<^verbatim>\<open>#define VIDEO_BITMASK 0x0003ffff\<close>,
  \<^verbatim>\<open>#define AUDIO_BITSHIFT 0x00040000\<close>, \<^verbatim>\<open>#define AUDIO_BITMASK 0x7ffc0000\<close>,
  \<^verbatim>\<open>#define KEYFRAME_BITMASK 0x80000000\<close>.
\<close>

definition FRAME_INDEX_ALLOC_SIZE :: int where "FRAME_INDEX_ALLOC_SIZE = 1000"
definition VIDEO_BITMASK :: ULONG where "VIDEO_BITMASK = 0x0003ffff"
definition AUDIO_BITSHIFT :: ULONG where "AUDIO_BITSHIFT = 0x00040000"
definition AUDIO_BITMASK :: ULONG where "AUDIO_BITMASK = 0x7ffc0000"
definition KEYFRAME_BITMASK :: ULONG where "KEYFRAME_BITMASK = 0x80000000"

text \<open>
  The value \<^verbatim>\<open>AVI_WriteFrame\<close> stores in \<^verbatim>\<open>frame_indexes[frames_written]\<close>:
  \<^verbatim>\<open>current_screen_size + AUDIO_BITSHIFT * audio_size\<close>, computed on \<^verbatim>\<open>int\<close> and converted
  to \<^verbatim>\<open>ULONG\<close> by the assignment, then \<^verbatim>\<open>|= KEYFRAME_BITMASK\<close> when \<^verbatim>\<open>current_is_keyframe\<close>.
\<close>

definition pack_frame_index :: "int \<Rightarrow> int \<Rightarrow> bool \<Rightarrow> ULONG" where
  "pack_frame_index screen_size audio_size is_keyframe =
     (let index = word_of_int (screen_size + uint AUDIO_BITSHIFT * audio_size) :: ULONG
      in if is_keyframe then index OR KEYFRAME_BITMASK else index)"

text \<open>
  The three reads of \<^verbatim>\<open>AVI_WriteIndex\<close>:
  \<^verbatim>\<open>is_keyframe = index & KEYFRAME_BITMASK ? 0x10 : 0\<close>,
  \<^verbatim>\<open>size = index & VIDEO_BITMASK\<close> and
  \<^verbatim>\<open>size = (index & AUDIO_BITMASK) / AUDIO_BITSHIFT\<close>.
\<close>

definition index_is_keyframe :: "ULONG \<Rightarrow> int" where
  "index_is_keyframe index = (if index AND KEYFRAME_BITMASK \<noteq> 0 then 0x10 else 0)"

definition index_video_size :: "ULONG \<Rightarrow> int" where
  "index_video_size index = uint (index AND VIDEO_BITMASK)"

definition index_audio_size :: "ULONG \<Rightarrow> int" where
  "index_audio_size index = uint ((index AND AUDIO_BITMASK) div AUDIO_BITSHIFT)"


section \<open>The byte sink: stdio files\<close>

text \<open>
  A \<^verbatim>\<open>FILE *\<close> opened with mode \<^verbatim>\<open>"wb"\<close> is a sequence of bytes with a position indicator.
  Its failures are those of the medium behind it: a write at or beyond the medium's
  capacity stores nothing and reports an error, and a medium that is not seekable rejects
  \<^verbatim>\<open>fseek\<close>. A null \<^verbatim>\<open>FILE *\<close> is \<^const>\<open>None\<close>.
\<close>

record FILE =
  contents :: "UBYTE list"
  fpos :: nat
  capacity :: nat
  seekable :: bool
  is_open :: bool

text \<open>What \<^verbatim>\<open>fopen(name, "wb")\<close> finds behind a file name: nothing, or an empty medium.\<close>

type_synonym filesystem = "string \<Rightarrow> (nat \<times> bool) option"

definition fopen_wb :: "filesystem \<Rightarrow> string \<Rightarrow> FILE option" where
  "fopen_wb fs szFileName =
     (case fs szFileName of
        None \<Rightarrow> None
      | Some (cap, sk) \<Rightarrow>
          Some \<lparr>contents = [], fpos = 0, capacity = cap, seekable = sk, is_open = True\<rparr>)"

definition fclose :: "FILE \<Rightarrow> FILE" where
  "fclose fp = fp\<lparr>is_open := False\<rparr>"

text \<open>\<^verbatim>\<open>ftell(fp)\<close>: the position, or \<open>-1\<close> on a medium that cannot seek.\<close>

definition ftell :: "FILE \<Rightarrow> int" where
  "ftell fp = (if seekable fp then int (fpos fp) else - 1)"

text \<open>\<^verbatim>\<open>fseek(fp, offset, SEEK_SET)\<close>: the result is 0 on success.\<close>

definition fseek_set :: "FILE \<Rightarrow> nat \<Rightarrow> int \<times> FILE" where
  "fseek_set fp offset = (if seekable fp then (0, fp\<lparr>fpos := offset\<rparr>) else (- 1, fp))"

text \<open>Storing one byte at a position: inside the data it overwrites, at the end it appends.\<close>

definition store_byte :: "UBYTE list \<Rightarrow> nat \<Rightarrow> UBYTE \<Rightarrow> UBYTE list" where
  "store_byte bs p b =
     (if p < length bs then bs[p := b] else bs @ replicate (p - length bs) 0 @ [b])"

text \<open>\<^verbatim>\<open>putc(c, fp)\<close> with its result (\<^const>\<open>EOF\<close> on failure), and \<^verbatim>\<open>fputc\<close> where the source
  discards the result.\<close>

definition putc :: "UBYTE \<Rightarrow> FILE \<Rightarrow> int \<times> FILE" where
  "putc c fp =
     (if fpos fp < capacity fp
      then (uint c, fp\<lparr>contents := store_byte (contents fp) (fpos fp) c, fpos := fpos fp + 1\<rparr>)
      else (EOF, fp))"

definition fputc :: "UBYTE \<Rightarrow> FILE \<Rightarrow> FILE" where
  "fputc c fp = snd (putc c fp)"

text \<open>\<^verbatim>\<open>fputs\<close> on the bytes of a string, and the characters of a C string literal as bytes.\<close>

definition fputs :: "UBYTE list \<Rightarrow> FILE \<Rightarrow> FILE" where
  "fputs s fp = fold fputc s fp"

definition cstr :: "string \<Rightarrow> UBYTE list" where
  "cstr s = map of_char s"

text \<open>
  \<^verbatim>\<open>fwrite(ptr, size, nmemb, fp)\<close>: the memory at \<^verbatim>\<open>ptr\<close> is a list of bytes, of which the first
  \<^verbatim>\<open>size * nmemb\<close> are written one after the other; the result is the number of whole elements
  that reached the file. Memory that holds fewer bytes than requested (undefined behaviour
  in C) shows as a short count. With \<^verbatim>\<open>WORDS_BIGENDIAN\<close> undefined, \<^verbatim>\<open>fwritele\<close> is \<^verbatim>\<open>fwrite\<close>.
\<close>

definition fwrite :: "UBYTE list \<Rightarrow> nat \<Rightarrow> nat \<Rightarrow> FILE \<Rightarrow> nat \<times> FILE" where
  "fwrite ptr sz nmemb fp =
     (let fp' = fold fputc (take (sz * nmemb) ptr) fp
      in (if sz = 0 then 0 else (fpos fp' - fpos fp) div sz, fp'))"

definition fwritele :: "UBYTE list \<Rightarrow> nat \<Rightarrow> nat \<Rightarrow> FILE \<Rightarrow> nat \<times> FILE" where
  "fwritele ptr sz nmemb fp = fwrite ptr sz nmemb fp"

text \<open>
  \<^verbatim>\<open>void fputw(UWORD x, FILE *fp)\<close> and \<^verbatim>\<open>void fputl(ULONG x, FILE *fp)\<close>: low byte first.
\<close>

definition fputw :: "UWORD \<Rightarrow> FILE \<Rightarrow> FILE" where
  "fputw x fp =
     (let fp = fputc (ucast (x AND 0xff)) fp;
          fp = fputc (ucast (drop_bit 8 x AND 0xff)) fp
      in fp)"

definition fputl :: "ULONG \<Rightarrow> FILE \<Rightarrow> FILE" where
  "fputl x fp =
     (let fp = fputc (ucast (x AND 0xff)) fp;
          fp = fputc (ucast (drop_bit 8 x AND 0xff)) fp;
          fp = fputc (ucast (drop_bit 16 x AND 0xff)) fp;
          fp = fputc (ucast (drop_bit 24 x AND 0xff)) fp
      in fp)"

text \<open>Reading a little-endian 32-bit value back from four bytes of a file image.\<close>

definition read_le32 :: "UBYTE list \<Rightarrow> nat \<Rightarrow> ULONG" where
  "read_le32 bs p =
     ucast (bs ! p) OR push_bit 8 (ucast (bs ! (p + 1)))
       OR push_bit 16 (ucast (bs ! (p + 2))) OR push_bit 24 (ucast (bs ! (p + 3)))"

text \<open>The four bytes \<^verbatim>\<open>fputl\<close> emits and the two bytes \<^verbatim>\<open>fputw\<close> emits, as lists.\<close>

definition le32 :: "ULONG \<Rightarrow> UBYTE list" where
  "le32 x = [ucast (x AND 0xff), ucast (drop_bit 8 x AND 0xff),
             ucast (drop_bit 16 x AND 0xff), ucast (drop_bit 24 x AND 0xff)]"

definition le16 :: "UWORD \<Rightarrow> UBYTE list" where
  "le16 x = [ucast (x AND 0xff), ucast (drop_bit 8 x AND 0xff)]"


section \<open>Collaborators and the static variables of the module\<close>

text \<open>
  The emulator around \<^verbatim>\<open>file_export.c\<close> is a parameter. \<^verbatim>\<open>snd_16bit\<close> is the test
  \<^verbatim>\<open>POKEYSND_snd_flags & POKEYSND_BIT16\<close>, \<^verbatim>\<open>tv_mode_PAL\<close> the test
  \<^verbatim>\<open>Atari800_tv_mode == Atari800_TV_PAL\<close>. The palette macros \<^verbatim>\<open>Colours_GetR\<close>,
  \<^verbatim>\<open>Colours_GetG\<close>, \<^verbatim>\<open>Colours_GetB\<close> and the table \<^verbatim>\<open>Colours_table\<close> come from
  \<^verbatim>\<open>colours.h\<close>, the visible window and \<^verbatim>\<open>Screen_WIDTH\<close> from \<^verbatim>\<open>screen.h\<close>. The frame rates
  are floating-point constants in the source; here they are exact rationals, and so is
  every quantity computed from them. \<^verbatim>\<open>files\<close> is what \<^verbatim>\<open>fopen\<close> finds.
\<close>

record environment =
  snd_16bit :: bool
  POKEYSND_num_pokeys :: int
  POKEYSND_playback_freq :: int
  tv_mode_PAL :: bool
  Atari800_FPS_PAL :: rat
  Atari800_FPS_NTSC :: rat
  Sound_enabled :: bool
  Screen_WIDTH :: int
  Screen_visible_x1 :: int
  Screen_visible_x2 :: int
  Screen_visible_y1 :: int
  Screen_visible_y2 :: int
  Colours_table :: "nat \<Rightarrow> int"
  Colours_GetR :: "nat \<Rightarrow> UBYTE"
  Colours_GetG :: "nat \<Rightarrow> UBYTE"
  Colours_GetB :: "nat \<Rightarrow> UBYTE"
  files :: filesystem

text \<open>
  \<^verbatim>\<open>VIDEO_CODEC_t\<close> of \<^verbatim>\<open>file_export.h\<close>. A codec keeps private data between calls (the
  previous frame, a compressor); it is the type parameter \<open>'c\<close>, threaded through the
  three hooks. \<^verbatim>\<open>frame\<close> receives the screen, the keyframe request, the buffer and its
  size, and returns the frame size (negative on error) and the buffer it has filled.
\<close>

record 'c VIDEO_CODEC_t =
  codec_id :: string
  codec_description :: string
  fourcc :: "UBYTE list"
  avi_compression :: "UBYTE list"
  uses_interframes :: bool
  codec_init :: "int \<Rightarrow> int \<Rightarrow> int \<Rightarrow> int \<Rightarrow> 'c \<Rightarrow> int \<times> 'c"
  codec_frame :: "UBYTE list \<Rightarrow> bool \<Rightarrow> UBYTE list \<Rightarrow> int \<Rightarrow> 'c \<Rightarrow> int \<times> UBYTE list \<times> 'c"
  codec_end :: "'c \<Rightarrow> int \<times> 'c"

text \<open>
  The file-scope variables, under their names in the source. A pointer to allocated
  memory is \<^const>\<open>Some\<close> of its contents and \<^verbatim>\<open>NULL\<close> is \<^const>\<open>None\<close>; memory obtained from
  \<^verbatim>\<open>Util_malloc\<close> or added by \<^verbatim>\<open>Util_realloc\<close> has unspecified contents in C and holds
  zeros here. \<^verbatim>\<open>frames_written\<close> is a \<^verbatim>\<open>ULONG\<close> counter in the source and a natural number
  here (it indexes \<^verbatim>\<open>frame_indexes\<close>); the two agree below \<open>2^32\<close> frames.
  \<^verbatim>\<open>codec_data\<close> is the private data of the codec module.
\<close>

record 'c statics =
  byteswritten :: ULONG
  frames_written :: nat
  fps :: rat
  description :: string
  sample_size :: int
  video_left_margin :: int
  video_top_margin :: int
  video_width :: int
  video_height :: int
  size_riff :: ULONG
  size_movi :: ULONG
  total_video_size :: ULONG
  smallest_video_frame :: ULONG
  largest_video_frame :: ULONG
  num_frames_allocated :: int
  frame_indexes :: "ULONG list option"
  video_buffer_size :: int
  video_buffer :: "UBYTE list option"
  current_screen_size :: int
  video_codec :: "'c VIDEO_CODEC_t option"
  requested_video_codec :: "'c VIDEO_CODEC_t option"
  keyframe_interval :: int
  keyframe_residual :: rat
  current_is_keyframe :: bool
  samples_written :: ULONG
  audio_buffer_size :: int
  audio_buffer :: "UBYTE list option"
  current_audio_samples :: int
  num_streams :: int
  codec_data :: 'c

text \<open>The bytes behind a buffer pointer; nothing can be read through \<^verbatim>\<open>NULL\<close>.\<close>

definition mem :: "UBYTE list option \<Rightarrow> UBYTE list" where
  "mem p = (case p of None \<Rightarrow> [] | Some bs \<Rightarrow> bs)"

definition mem_idx :: "ULONG list option \<Rightarrow> ULONG list" where
  "mem_idx p = (case p of None \<Rightarrow> [] | Some ws \<Rightarrow> ws)"

text \<open>\<^verbatim>\<open>static void set_video_margins(void)\<close>, without \<^verbatim>\<open>SUPPORTS_CHANGE_VIDEOMODE\<close>.\<close>

definition set_video_margins :: "environment \<Rightarrow> 'c statics \<Rightarrow> 'c statics" where
  "set_video_margins env s =
     (let s = s\<lparr>video_left_margin := Screen_visible_x1 env\<rparr>;
          s = s\<lparr>video_width := Screen_visible_x2 env - video_left_margin s\<rparr>;
          s = s\<lparr>video_top_margin := Screen_visible_y1 env\<rparr>;
          s = s\<lparr>video_height := Screen_visible_y2 env - video_top_margin s\<rparr>
      in s)"

text \<open>
  The statics as the C runtime initialises them before \<^verbatim>\<open>main\<close>: the initialisers written
  in the source (\<^verbatim>\<open>current_screen_size = -1\<close>, \<^verbatim>\<open>keyframe_interval = 1000\<close>,
  \<^verbatim>\<open>current_audio_samples = -1\<close>, null pointers, zero sizes) and zero everywhere else.
\<close>

definition initial_statics :: "'c \<Rightarrow> 'c statics" where
  "initial_statics cd =
     \<lparr>byteswritten = 0, frames_written = 0, fps = 0, description = [],
      sample_size = 0, video_left_margin = 0, video_top_margin = 0,
      video_width = 0, video_height = 0, size_riff = 0, size_movi = 0,
      total_video_size = 0, smallest_video_frame = 0, largest_video_frame = 0,
      num_frames_allocated = 0, frame_indexes = None,
      video_buffer_size = 0, video_buffer = None, current_screen_size = - 1,
      video_codec = None, requested_video_codec = None,
      keyframe_interval = 1000, keyframe_residual = 0, current_is_keyframe = False,
      samples_written = 0, audio_buffer_size = 0, audio_buffer = None,
      current_audio_samples = - 1, num_streams = 0, codec_data = cd\<rparr>"


section \<open>The WAV writer\<close>

text \<open>
  \<^verbatim>\<open>FILE *WAV_OpenFile(const char *szFileName)\<close>. The result is the file pointer (or
  \<^verbatim>\<open>NULL\<close>) and the updated statics.
\<close>

definition WAV_OpenFile ::
  "environment \<Rightarrow> string \<Rightarrow> 'c statics \<Rightarrow> FILE option \<times> 'c statics" where
  "WAV_OpenFile env szFileName s =
     (case fopen_wb (files env) szFileName of
        None \<Rightarrow> (None, s)
      | Some fp \<Rightarrow>
         (let s = s\<lparr>sample_size := (if snd_16bit env then 2 else 1)\<rparr>;
              s = s\<lparr>frames_written := 0\<rparr>;
              s = s\<lparr>fps := (if tv_mode_PAL env then Atari800_FPS_PAL env
                               else Atari800_FPS_NTSC env)\<rparr>;
              s = s\<lparr>description := ''WAV''\<rparr>;
              fp = fputs (cstr ''RIFF'') fp;
              fp = fputl 0 fp;
              fp = fputs (cstr ''WAVE'') fp;
              fp = fputs (cstr ''fmt '') fp;
              fp = fputl 16 fp;
              fp = fputw 1 fp;
              fp = fputw (word_of_int (POKEYSND_num_pokeys env)) fp;
              fp = fputl (word_of_int (POKEYSND_playback_freq env)) fp;
              fp = fputl (word_of_int (POKEYSND_playback_freq env * sample_size s)) fp;
              fp = fputw (word_of_int (POKEYSND_num_pokeys env * sample_size s)) fp;
              fp = fputw (word_of_int (sample_size s * 8)) fp;
              fp = fputs (cstr ''data'') fp;
              fp = fputl 0 fp
          in if ftell fp \<noteq> 44 then (None, s)
             else (Some fp, s\<lparr>byteswritten := 0\<rparr>)))"

text \<open>
  \<^verbatim>\<open>int WAV_WriteSamples(const unsigned char *buf, unsigned int num_samples, FILE *fp)\<close>.
  The result is the returned \<^verbatim>\<open>int\<close>, the file and the statics.
\<close>

definition WAV_WriteSamples ::
  "UBYTE list option \<Rightarrow> nat \<Rightarrow> FILE option \<Rightarrow> 'c statics \<Rightarrow> int \<times> FILE option \<times> 'c statics" where
  "WAV_WriteSamples buf num_samples fp s =
     (case (fp, buf) of
        (Some f, Some b) \<Rightarrow>
          if num_samples \<noteq> 0 then
            (let (written, f) = fwritele b (nat (sample_size s)) num_samples f;
                 result = (if written \<noteq> num_samples then 0
                           else int written * sample_size s);
                 s = s\<lparr>byteswritten := byteswritten s + word_of_int result\<rparr>;
                 s = s\<lparr>frames_written := frames_written s + 1\<rparr>
             in if byteswritten s > MAX_RECORDING_SIZE then (0, Some f, s)
                else (result, Some f, s))
          else (0, fp, s)
      | _ \<Rightarrow> (0, fp, s))"

text \<open>
  \<^verbatim>\<open>int WAV_CloseFile(FILE *fp)\<close>. The result is \<^verbatim>\<open>bSuccess\<close> and the file as it is left
  (closed, when there was one).
\<close>

definition WAV_CloseFile :: "FILE option \<Rightarrow> 'c statics \<Rightarrow> int \<times> FILE option" where
  "WAV_CloseFile fp s =
     (case fp of
        None \<Rightarrow> (TRUE, None)
      | Some f \<Rightarrow>
         (let (bSuccess, aligned, f) =
                (if byteswritten s AND 1 \<noteq> 0 then
                   (let (r, f') = putc 0 f
                    in if r = EOF then (FALSE, 0 :: ULONG, f') else (TRUE, 1, f'))
                 else (TRUE, 0, f));
              (bSuccess, f) =
                (if bSuccess \<noteq> 0 then
                   (let (r, f) = fseek_set f 4
                    in if r \<noteq> 0 then (FALSE, f)
                       else
                        (let f = fputl (byteswritten s + 36 + aligned) f;
                             (r, f) = fseek_set f 40
                         in if r \<noteq> 0 then (FALSE, f)
                            else (bSuccess, fputl (byteswritten s) f)))
                 else (bSuccess, f))
          in (bSuccess, Some (fclose f))))"

text \<open>
  A WAV recording as the host drives it: after \<^verbatim>\<open>WAV_OpenFile\<close>, one
  \<^verbatim>\<open>WAV_WriteSamples\<close> call per pair of a buffer and a sample count.
  \<open>pcm_bytes\<close> is the amount of PCM data those calls hand over.
\<close>

fun WAV_WriteSamples_calls ::
  "(UBYTE list option \<times> nat) list \<Rightarrow> FILE option \<Rightarrow> 'c statics \<Rightarrow> FILE option \<times> 'c statics" where
  "WAV_WriteSamples_calls [] fp s = (fp, s)"
| "WAV_WriteSamples_calls ((buf, num_samples) # calls) fp s =
     (case WAV_WriteSamples buf num_samples fp s of
        (result, fp', s') \<Rightarrow> WAV_WriteSamples_calls calls fp' s')"

fun pcm_bytes :: "int \<Rightarrow> (UBYTE list option \<times> nat) list \<Rightarrow> nat" where
  "pcm_bytes ssize [] = 0"
| "pcm_bytes ssize ((buf, num_samples) # calls) =
     (case buf of None \<Rightarrow> 0 | Some b \<Rightarrow> num_samples * nat ssize) + pcm_bytes ssize calls"

text \<open>Every buffer handed over holds the samples announced for it.\<close>

fun buffers_hold :: "int \<Rightarrow> (UBYTE list option \<times> nat) list \<Rightarrow> bool" where
  "buffers_hold ssize [] = True"
| "buffers_hold ssize ((buf, num_samples) # calls) =
     ((case buf of None \<Rightarrow> True | Some b \<Rightarrow> num_samples * nat ssize \<le> length b)
      \<and> buffers_hold ssize calls)"

text \<open>The bytes \<^verbatim>\<open>WAV_OpenFile\<close> emits, in the order of its \<^verbatim>\<open>fputs\<close>, \<^verbatim>\<open>fputl\<close> and
  \<^verbatim>\<open>fputw\<close> calls.\<close>

definition WAV_header :: "environment \<Rightarrow> UBYTE list" where
  "WAV_header env =
     (let ssize = (if snd_16bit env then 2 else 1)
      in cstr ''RIFF'' @ le32 0 @ cstr ''WAVE'' @ cstr ''fmt '' @ le32 16 @ le16 1
         @ le16 (word_of_int (POKEYSND_num_pokeys env))
         @ le32 (word_of_int (POKEYSND_playback_freq env))
         @ le32 (word_of_int (POKEYSND_playback_freq env * ssize))
         @ le16 (word_of_int (POKEYSND_num_pokeys env * ssize))
         @ le16 (word_of_int (ssize * 8)) @ cstr ''data'' @ le32 0)"


section \<open>The AVI writer\<close>

text \<open>Conversion of a floating-point value to an integer type truncates towards zero.\<close>

definition c_trunc :: "rat \<Rightarrow> int" where
  "c_trunc x = (if 0 \<le> x then \<lfloor>x\<rfloor> else \<lceil>x\<rceil>)"

text \<open>Reading the fields and calling the hooks of \<^verbatim>\<open>video_codec\<close>; a null \<^verbatim>\<open>video_codec\<close>
  offers nothing to read or to call.\<close>

definition codec_bytes :: "('c VIDEO_CODEC_t \<Rightarrow> UBYTE list) \<Rightarrow> 'c statics \<Rightarrow> UBYTE list" where
  "codec_bytes field s = (case video_codec s of None \<Rightarrow> [] | Some c \<Rightarrow> field c)"

definition call_codec_end :: "'c statics \<Rightarrow> 'c statics" where
  "call_codec_end s =
     (case video_codec s of
        None \<Rightarrow> s
      | Some c \<Rightarrow> s\<lparr>codec_data := snd (codec_end c (codec_data s))\<rparr>)"

subsection \<open>\<^verbatim>\<open>AVI_WriteHeader\<close>\<close>

text \<open>The palette loop of the stream format: blue, green, red and a zero byte per colour.\<close>

definition put_palette :: "environment \<Rightarrow> FILE \<Rightarrow> FILE" where
  "put_palette env fp =
     fold (\<lambda>i fp. fputc 0 (fputc (Colours_GetR env i)
                     (fputc (Colours_GetG env i) (fputc (Colours_GetB env i) fp))))
          [0 ..< 256] fp"

text \<open>The audio stream list, written when \<^verbatim>\<open>num_streams == 2\<close>.\<close>

definition put_audio_strl :: "environment \<Rightarrow> 'c statics \<Rightarrow> FILE \<Rightarrow> FILE" where
  "put_audio_strl env s fp =
     (let fp = fputs (cstr ''LIST'') fp;
          fp = fputl (4 + 8 + 56 + 8 + 18 + 8 + 12) fp;
          fp = fputs (cstr ''strl'') fp;
          fp = fputs (cstr ''strh'') fp;
          fp = fputl 56 fp;
          fp = fputs (cstr ''auds'') fp;
          fp = fputl 1 fp;
          fp = fputl 0 fp;
          fp = fputw 0 fp;
          fp = fputw 0 fp;
          fp = fputl 0 fp;
          fp = fputl 1 fp;
          fp = fputl (word_of_int (POKEYSND_playback_freq env)) fp;
          fp = fputl 0 fp;
          fp = fputl (samples_written s) fp;
          fp = fputl (word_of_int (POKEYSND_playback_freq env * POKEYSND_num_pokeys env
                                     * sample_size s)) fp;
          fp = fputl 0 fp;
          fp = fputl (word_of_int (POKEYSND_num_pokeys env * sample_size s)) fp;
          fp = fputl 0 fp;
          fp = fputl 0 fp;
          fp = fputs (cstr ''strf'') fp;
          fp = fputl 18 fp;
          fp = fputw 1 fp;
          fp = fputw (word_of_int (POKEYSND_num_pokeys env)) fp;
          fp = fputl (word_of_int (POKEYSND_playback_freq env)) fp;
          fp = fputl (word_of_int (POKEYSND_playback_freq env * POKEYSND_num_pokeys env
                                     * sample_size s)) fp;
          fp = fputw (word_of_int (POKEYSND_num_pokeys env * sample_size s)) fp;
          fp = fputw (word_of_int (sample_size s * 8)) fp;
          fp = fputw 0 fp;
          fp = fputs (cstr ''strn'') fp;
          fp = fputl 12 fp;
          fp = fputs (cstr ''POKEY audio'') fp;
          fp = fputc 0 fp
      in fp)"

text \<open>
  \<^verbatim>\<open>static int AVI_WriteHeader(FILE *fp)\<close>. The result of the initial \<^verbatim>\<open>fseek\<close> is
  discarded, as in the source. The function stores the position of the \<^verbatim>\<open>movi\<close> tag in
  \<^verbatim>\<open>size_movi\<close>.
\<close>

definition AVI_WriteHeader ::
  "environment \<Rightarrow> FILE \<Rightarrow> 'c statics \<Rightarrow> int \<times> FILE \<times> 'c statics" where
  "AVI_WriteHeader env fp s =
     (let fp = snd (fseek_set fp 0);
          fp = fputs (cstr ''RIFF'') fp;
          fp = fputl (size_riff s) fp;
          fp = fputs (cstr ''AVI '') fp;
          fp = fputs (cstr ''LIST'') fp;
          list_size = 4 + 8 + 56 + (12 + (8 + 56 + 8 + 40 + 256 * 4 + 8 + 16));
          list_size = (if num_streams s = 2 then list_size + (12 + (8 + 56 + 8 + 18 + 8 + 12))
                       else list_size);
          fp = fputl (word_of_int list_size) fp;
          fp = fputs (cstr ''hdrl'') fp;
          fp = fputs (cstr ''avih'') fp;
          fp = fputl 56 fp;
          fp = fputl (word_of_int (c_trunc (1000000 / fps s))) fp;
          fp = fputl (word_of_int (video_width s * video_height s * 3)) fp;
          fp = fputl 0 fp;
          fp = fputl 0x10 fp;
          fp = fputl (of_nat (frames_written s)) fp;
          fp = fputl 0 fp;
          fp = fputl (word_of_int (num_streams s)) fp;
          fp = fputl (word_of_int (video_width s * video_height s * 3)) fp;
          fp = fputl (word_of_int (video_width s)) fp;
          fp = fputl (word_of_int (video_height s)) fp;
          fp = fputl 0 fp;
          fp = fputl 0 fp;
          fp = fputl 0 fp;
          fp = fputl 0 fp;
          fp = fputs (cstr ''LIST'') fp;
          fp = fputl (4 + 8 + 56 + 8 + 40 + 256 * 4 + 8 + 16) fp;
          fp = fputs (cstr ''strl'') fp;
          fp = fputs (cstr ''strh'') fp;
          fp = fputl 56 fp;
          fp = fputs (cstr ''vids'') fp;
          fp = snd (fwrite (codec_bytes fourcc s) 4 1 fp);
          fp = fputl 0 fp;
          fp = fputw 0 fp;
          fp = fputw 0 fp;
          fp = fputl 0 fp;
          fp = fputl 1000000 fp;
          fp = fputl (word_of_int (c_trunc (fps s * 1000000))) fp;
          fp = fputl 0 fp;
          fp = fputl (of_nat (frames_written s)) fp;
          fp = fputl (word_of_int (video_width s * video_height s * 3)) fp;
          fp = fputl 0 fp;
          fp = fputl 0 fp;
          fp = fputl 0 fp;
          fp = fputl 0 fp;
          fp = fputs (cstr ''strf'') fp;
          fp = fputl (40 + 256 * 4) fp;
          fp = fputl 40 fp;
          fp = fputl (word_of_int (video_width s)) fp;
          fp = fputl (word_of_int (video_height s)) fp;
          fp = fputw 1 fp;
          fp = fputw 8 fp;
          fp = snd (fwrite (codec_bytes avi_compression s) 4 1 fp);
          fp = fputl (word_of_int (video_width s * video_height s * 3)) fp;
          fp = fputl 0 fp;
          fp = fputl 0 fp;
          fp = fputl 256 fp;
          fp = fputl 0 fp;
          fp = put_palette env fp;
          fp = fputs (cstr ''strn'') fp;
          fp = fputl 16 fp;
          fp = fputs (cstr ''atari800 video'') fp;
          fp = fputc 0 fp;
          fp = fputc 0 fp;
          fp = (if num_streams s = 2 then put_audio_strl env s fp else fp);
          fp = fputs (cstr ''LIST'') fp;
          fp = fputl (size_movi s) fp;
          s = s\<lparr>size_movi := word_of_int (ftell fp)\<rparr>;
          fp = fputs (cstr ''movi'') fp
      in (if ftell fp = 12 + 8 + list_size + 12 then 1 else 0, fp, s))"

subsection \<open>\<^verbatim>\<open>AVI_OpenFile\<close>\<close>

text \<open>
  \<^verbatim>\<open>FILE *AVI_OpenFile(const char *szFileName)\<close>, block by block in the order of the source.
  First the assignments from \<^verbatim>\<open>size_riff = 0\<close> to the \<^verbatim>\<open>memset\<close> of \<^verbatim>\<open>frame_indexes\<close>.
\<close>

definition reset_session :: "environment \<Rightarrow> 'c statics \<Rightarrow> 'c statics" where
  "reset_session env s =
     (let s = s\<lparr>size_riff := 0\<rparr>;
          s = s\<lparr>size_movi := 0\<rparr>;
          s = s\<lparr>frames_written := 0\<rparr>;
          s = s\<lparr>keyframe_residual := 0\<rparr>;
          s = s\<lparr>current_is_keyframe := True\<rparr>;
          s = s\<lparr>current_screen_size := - 1\<rparr>;
          s = s\<lparr>fps := (if tv_mode_PAL env then Atari800_FPS_PAL env
                           else Atari800_FPS_NTSC env)\<rparr>;
          s = set_video_margins env s;
          s = s\<lparr>num_frames_allocated := FRAME_INDEX_ALLOC_SIZE\<rparr>;
          s = s\<lparr>frame_indexes := Some (replicate (nat (num_frames_allocated s)) 0)\<rparr>
      in s)"

text \<open>
  The choice of the codec. \<open>best\<close> is the codec \<^verbatim>\<open>get_best_video_codec()\<close> returns
  (\<^verbatim>\<open>Video_Codec_ZMBV\<close> or \<^verbatim>\<open>Video_Codec_MRLE\<close>, objects of other modules).
\<close>

definition select_codec :: "'c VIDEO_CODEC_t \<Rightarrow> 'c statics \<Rightarrow> 'c statics" where
  "select_codec best s =
     (if video_codec s = None then
        (if requested_video_codec s = None then s\<lparr>video_codec := Some best\<rparr>
         else s\<lparr>video_codec := requested_video_codec s\<rparr>)
      else s)"

text \<open>The \<^verbatim>\<open>SOUND\<close> block: the sentinel, the sample counter and the audio buffer.\<close>

definition setup_audio :: "environment \<Rightarrow> 'c statics \<Rightarrow> 'c statics" where
  "setup_audio env s =
     (let s = s\<lparr>current_audio_samples := - 1\<rparr>;
          s = s\<lparr>samples_written := 0\<rparr>
      in if Sound_enabled env then
           (let s = s\<lparr>num_streams := 2\<rparr>;
                s = s\<lparr>sample_size := (if snd_16bit env then 2 else 1)\<rparr>;
                s = s\<lparr>audio_buffer_size :=
                         c_trunc (of_int (POKEYSND_playback_freq env
                                    * POKEYSND_num_pokeys env * sample_size s)
                                  / fps s) + 1024\<rparr>;
                s = s\<lparr>audio_buffer := Some (replicate (nat (audio_buffer_size s)) 0)\<rparr>
            in s)
         else
           (let s = s\<lparr>num_streams := 1\<rparr>;
                s = s\<lparr>sample_size := 0\<rparr>;
                s = s\<lparr>audio_buffer_size := 0\<rparr>;
                s = s\<lparr>audio_buffer := None\<rparr>
            in s))"

text \<open>The description string and the call of the codec's \<^verbatim>\<open>init\<close> hook, whose result is
  \<^verbatim>\<open>video_buffer_size\<close>.\<close>

definition init_codec :: "'c statics \<Rightarrow> 'c statics" where
  "init_codec s =
     (let codec = the (video_codec s);
          s = s\<lparr>description := ''AVI '' @ codec_id codec\<rparr>;
          (size, cd) = codec_init codec (video_width s) (video_height s)
                         (video_left_margin s) (video_top_margin s) (codec_data s)
      in s\<lparr>video_buffer_size := size, codec_data := cd\<rparr>)"

definition AVI_OpenFile ::
  "environment \<Rightarrow> 'c VIDEO_CODEC_t \<Rightarrow> string \<Rightarrow> 'c statics \<Rightarrow> FILE option \<times> 'c statics" where
  "AVI_OpenFile env best szFileName s =
     (case fopen_wb (files env) szFileName of
        None \<Rightarrow> (None, s)
      | Some fp \<Rightarrow>
         (let s = reset_session env s;
              s = select_codec best s;
              s = init_codec s
          in if video_buffer_size s < 0 then (None, s)
             else
              (let s = s\<lparr>video_buffer := Some (replicate (nat (video_buffer_size s)) 0)\<rparr>;
                   s = setup_audio env s;
                   (ok, fp, s) = AVI_WriteHeader env fp s
               in if ok = 0 then (None, call_codec_end s)
                  else
                   (let s = s\<lparr>byteswritten := word_of_int (ftell fp + 8)\<rparr>;
                        s = s\<lparr>total_video_size := 0\<rparr>;
                        s = s\<lparr>smallest_video_frame := 0xffffffff\<rparr>;
                        s = s\<lparr>largest_video_frame := 0\<rparr>
                    in (Some fp, s)))))"


text \<open>
  The bytes \<^verbatim>\<open>AVI_WriteHeader\<close> emits, call by call in the order of the source: the palette,
  the audio stream list, and everything up to and including the \<^verbatim>\<open>movi\<close> size field.
\<close>

definition palette_bytes :: "environment \<Rightarrow> UBYTE list" where
  "palette_bytes env =
     concat (map (\<lambda>i. [Colours_GetB env i, Colours_GetG env i, Colours_GetR env i, 0])
               [0 ..< 256])"

definition audio_strl_bytes :: "environment \<Rightarrow> 'c statics \<Rightarrow> UBYTE list" where
  "audio_strl_bytes env s =
     (cstr ''LIST'') @ le32 (4 + 8 + 56 + 8 + 18 + 8 + 12) @ (cstr ''strl'')
     @ (cstr ''strh'') @ le32 56 @ (cstr ''auds'') @ le32 1 @ le32 0 @ le16 0 @ le16 0
     @ le32 0 @ le32 1 @ le32 (word_of_int (POKEYSND_playback_freq env)) @ le32 0
     @ le32 (samples_written s)
     @ le32 (word_of_int (POKEYSND_playback_freq env * POKEYSND_num_pokeys env * sample_size s))
     @ le32 0 @ le32 (word_of_int (POKEYSND_num_pokeys env * sample_size s)) @ le32 0
     @ le32 0 @ (cstr ''strf'') @ le32 18 @ le16 1
     @ le16 (word_of_int (POKEYSND_num_pokeys env))
     @ le32 (word_of_int (POKEYSND_playback_freq env))
     @ le32 (word_of_int (POKEYSND_playback_freq env * POKEYSND_num_pokeys env * sample_size s))
     @ le16 (word_of_int (POKEYSND_num_pokeys env * sample_size s))
     @ le16 (word_of_int (sample_size s * 8)) @ le16 0 @ (cstr ''strn'') @ le32 12
     @ (cstr ''POKEY audio'') @ [0]"

definition AVI_header_prefix :: "environment \<Rightarrow> 'c statics \<Rightarrow> UBYTE list" where
  "AVI_header_prefix env s =
     (let list_size = 4 + 8 + 56 + (12 + (8 + 56 + 8 + 40 + 256 * 4 + 8 + 16));
          list_size = (if num_streams s = 2 then list_size + (12 + (8 + 56 + 8 + 18 + 8 + 12))
                       else list_size)
      in
     (cstr ''RIFF'') @ le32 (size_riff s) @ (cstr ''AVI '') @ (cstr ''LIST'')
     @ le32 (word_of_int list_size) @ (cstr ''hdrl'') @ (cstr ''avih'') @ le32 56
     @ le32 (word_of_int (c_trunc (1000000 / fps s)))
     @ le32 (word_of_int (video_width s * video_height s * 3)) @ le32 0 @ le32 0x10
     @ le32 (of_nat (frames_written s)) @ le32 0 @ le32 (word_of_int (num_streams s))
     @ le32 (word_of_int (video_width s * video_height s * 3))
     @ le32 (word_of_int (video_width s)) @ le32 (word_of_int (video_height s)) @ le32 0
     @ le32 0 @ le32 0 @ le32 0 @ (cstr ''LIST'')
     @ le32 (4 + 8 + 56 + 8 + 40 + 256 * 4 + 8 + 16) @ (cstr ''strl'') @ (cstr ''strh'')
     @ le32 56 @ (cstr ''vids'') @ take (4 * 1) (codec_bytes fourcc s) @ le32 0 @ le16 0
     @ le16 0 @ le32 0 @ le32 1000000 @ le32 (word_of_int (c_trunc (fps s * 1000000)))
     @ le32 0 @ le32 (of_nat (frames_written s))
     @ le32 (word_of_int (video_width s * video_height s * 3)) @ le32 0 @ le32 0 @ le32 0
     @ le32 0 @ (cstr ''strf'') @ le32 (40 + 256 * 4) @ le32 40
     @ le32 (word_of_int (video_width s)) @ le32 (word_of_int (video_height s)) @ le16 1
     @ le16 8 @ take (4 * 1) (codec_bytes avi_compression s)
     @ le32 (word_of_int (video_width s * video_height s * 3)) @ le32 0 @ le32 0 @ le32 256
     @ le32 0 @ palette_bytes env @ (cstr ''strn'') @ le32 16 @ (cstr ''atari800 video'')
     @ [0] @ [0] @ (if num_streams s = 2 then audio_strl_bytes env s else [])
     @ (cstr ''LIST'') @ le32 (size_movi s))"

text \<open>\<^verbatim>\<open>list_size\<close> of \<^verbatim>\<open>AVI_WriteHeader\<close>, and the file position it checks for.\<close>

definition AVI_list_size :: "'c statics \<Rightarrow> int" where
  "AVI_list_size s =
     4 + 8 + 56 + (12 + (8 + 56 + 8 + 40 + 256 * 4 + 8 + 16))
       + (if num_streams s = 2 then 12 + (8 + 56 + 8 + 18 + 8 + 12) else 0)"

definition AVI_header_size :: "'c statics \<Rightarrow> nat" where
  "AVI_header_size s = nat (12 + 8 + AVI_list_size s + 12)"

text \<open>The statics as \<^verbatim>\<open>AVI_OpenFile\<close> has set them up when it calls \<^verbatim>\<open>AVI_WriteHeader\<close>.\<close>

definition AVI_prepare :: "environment \<Rightarrow> 'c VIDEO_CODEC_t \<Rightarrow> 'c statics \<Rightarrow> 'c statics" where
  "AVI_prepare env best s0 =
     (let s = init_codec (select_codec best (reset_session env s0))
      in setup_audio env (s\<lparr>video_buffer := Some (replicate (nat (video_buffer_size s)) 0)\<rparr>))"


subsection \<open>\<^verbatim>\<open>AVI_WriteFrame\<close>\<close>

text \<open>
  \<^verbatim>\<open>static int AVI_WriteFrame(FILE *fp)\<close> is translated block by block, in the order of
  the source. The first block writes the chunks: the \<^verbatim>\<open>00dc\<close> chunk and, when
  \<^verbatim>\<open>num_streams == 2\<close>, the \<^verbatim>\<open>01wb\<close> chunk; it yields \<^verbatim>\<open>audio_size\<close> and
  \<^verbatim>\<open>expected_frame_size\<close>. A negative count handed to \<^verbatim>\<open>fwrite\<close> (never the case at the three
  call sites) writes nothing here.
\<close>

definition write_frame_chunks :: "FILE \<Rightarrow> 'c statics \<Rightarrow> int \<times> int \<times> FILE \<times> 'c statics" where
  "write_frame_chunks fp s =
     (let video_padding = c_rem (current_screen_size s) 2;
          fp = fputs (cstr ''00dc'') fp;
          fp = fputl (word_of_int (current_screen_size s)) fp;
          fp = snd (fwrite (mem (video_buffer s)) 1 (nat (current_screen_size s)) fp);
          fp = (if video_padding \<noteq> 0 then fputc 0 fp else fp);
          expected_frame_size = 8 + current_screen_size s + video_padding
      in if num_streams s = 2 then
           (let audio_size = current_audio_samples s * sample_size s;
                audio_padding = c_rem audio_size 2;
                fp = fputs (cstr ''01wb'') fp;
                fp = fputl (word_of_int audio_size) fp;
                fp = snd (fwritele (mem (audio_buffer s)) (nat (sample_size s))
                            (nat (current_audio_samples s)) fp);
                fp = (if audio_padding \<noteq> 0 then fputc 0 fp else fp);
                s = s\<lparr>samples_written :=
                         samples_written s + word_of_int (current_audio_samples s)\<rparr>
            in (audio_size, expected_frame_size + (8 + audio_size + audio_padding), fp, s))
         else (0, expected_frame_size, fp, s))"

text \<open>
  The second block stores the packed word in \<^verbatim>\<open>frame_indexes[frames_written]\<close>, counts the
  frame and grows the array: \<^verbatim>\<open>Util_realloc\<close> keeps the old entries and adds
  \<^verbatim>\<open>FRAME_INDEX_ALLOC_SIZE\<close> new ones.
\<close>

definition store_frame_index :: "int \<Rightarrow> 'c statics \<Rightarrow> 'c statics" where
  "store_frame_index audio_size s =
     (let s = s\<lparr>frame_indexes :=
                   map_option
                     (\<lambda>fi. fi[frames_written s :=
                             pack_frame_index (current_screen_size s) audio_size
                               (current_is_keyframe s)])
                     (frame_indexes s)\<rparr>;
          s = s\<lparr>frames_written := frames_written s + 1\<rparr>
      in if int (frames_written s) \<ge> num_frames_allocated s then
           (let s = s\<lparr>num_frames_allocated := num_frames_allocated s + FRAME_INDEX_ALLOC_SIZE\<rparr>
            in s\<lparr>frame_indexes :=
                   map_option (\<lambda>fi. fi @ replicate (nat FRAME_INDEX_ALLOC_SIZE) 0)
                     (frame_indexes s)\<rparr>)
         else s)"

text \<open>The statistics block; the comparisons are between an \<^verbatim>\<open>int\<close> and a \<^verbatim>\<open>ULONG\<close>, hence
  unsigned.\<close>

definition update_statistics :: "'c statics \<Rightarrow> 'c statics" where
  "update_statistics s =
     (let s = s\<lparr>total_video_size := total_video_size s + word_of_int (current_screen_size s)\<rparr>;
          s = (if word_of_int (current_screen_size s) < smallest_video_frame s
               then s\<lparr>smallest_video_frame := word_of_int (current_screen_size s)\<rparr> else s);
          s = (if word_of_int (current_screen_size s) > largest_video_frame s
               then s\<lparr>largest_video_frame := word_of_int (current_screen_size s)\<rparr> else s)
      in s)"

text \<open>The keyframe block: \<^verbatim>\<open>if (video_codec->uses_interframes) ... else current_is_keyframe =
  TRUE\<close>.\<close>

definition next_keyframe :: "'c statics \<Rightarrow> 'c statics" where
  "next_keyframe s =
     (if (case video_codec s of None \<Rightarrow> False | Some c \<Rightarrow> uses_interframes c) then
        (let s = s\<lparr>keyframe_residual := keyframe_residual s + 1000 / fps s\<rparr>
         in if keyframe_residual s > of_int (keyframe_interval s) then
              (let s = s\<lparr>current_is_keyframe := True\<rparr>
               in s\<lparr>keyframe_residual :=
                      keyframe_residual s
                      - of_int (c_trunc (keyframe_residual s / of_int (keyframe_interval s))
                                * keyframe_interval s)\<rparr>)
            else s\<lparr>current_is_keyframe := False\<rparr>)
      else s\<lparr>current_is_keyframe := True\<rparr>)"

definition AVI_WriteFrame :: "FILE \<Rightarrow> 'c statics \<Rightarrow> int \<times> FILE \<times> 'c statics" where
  "AVI_WriteFrame fp0 s =
     (let frame_size = ftell fp0;
          (audio_size, expected_frame_size, fp, s) = write_frame_chunks fp0 s;
          s = store_frame_index audio_size s;
          frame_size = ftell fp - frame_size;
          result = (if frame_size = expected_frame_size then 1 else 0);
          s = s\<lparr>byteswritten := byteswritten s + word_of_int (frame_size + 32)\<rparr>;
          s = update_statistics s;
          s = next_keyframe s;
          s = s\<lparr>current_screen_size := - 1\<rparr>;
          s = s\<lparr>current_audio_samples := - 1\<rparr>
      in if byteswritten s > MAX_RECORDING_SIZE then (0, fp, s) else (result, fp, s))"

subsection \<open>\<^verbatim>\<open>AVI_AddVideoFrame\<close> and \<^verbatim>\<open>AVI_AddAudioSamples\<close>\<close>

text \<open>
  \<^verbatim>\<open>int AVI_AddVideoFrame(FILE *fp)\<close>. \<open>Screen_atari\<close> is the emulator's screen at the time of
  the call. \<^verbatim>\<open>Log_print\<close> has no effect on the statics or the file.
\<close>

definition encode_frame :: "UBYTE list \<Rightarrow> FILE \<Rightarrow> 'c statics \<Rightarrow> int \<times> FILE \<times> 'c statics" where
  "encode_frame Screen_atari fp s =
     (case video_codec s of
        None \<Rightarrow> (0, fp, s)
      | Some codec \<Rightarrow>
          (let (size, buf, cd) = codec_frame codec Screen_atari (current_is_keyframe s)
                                   (mem (video_buffer s)) (video_buffer_size s) (codec_data s);
               s = s\<lparr>video_buffer := map_option (\<lambda>_. buf) (video_buffer s), codec_data := cd\<rparr>;
               s = s\<lparr>current_screen_size := size\<rparr>
           in (if current_screen_size s \<ge> 0 then 1 else 0, fp, s)))"

definition AVI_AddVideoFrame ::
  "UBYTE list \<Rightarrow> FILE \<Rightarrow> 'c statics \<Rightarrow> int \<times> FILE \<times> 'c statics" where
  "AVI_AddVideoFrame Screen_atari fp s =
     (if current_screen_size s \<ge> 0 then
        (if num_streams s = 1 \<or> current_audio_samples s > 0 then
           (let (r, fp, s) = AVI_WriteFrame fp s
            in if r = 0 then (0, fp, s) else encode_frame Screen_atari fp s)
         else (0, fp, s))
      else if current_screen_size s < - 1 \<or> current_audio_samples s < - 1 then (0, fp, s)
      else encode_frame Screen_atari fp s)"

text \<open>
  \<^verbatim>\<open>int AVI_AddAudioSamples(const UBYTE *buf, int num_samples, FILE *fp)\<close>. Its last
  block, from \<^verbatim>\<open>size = num_samples * sample_size\<close> to the end, is \<open>copy_samples\<close>. The
  product is an \<^verbatim>\<open>int\<close> product, so a count whose product with the sample size does not fit
  32 bits gives a wrapped \<^verbatim>\<open>size\<close>, which the size check then lets through when it is
  negative. \<^verbatim>\<open>memcpy\<close> replaces the first \<^verbatim>\<open>size\<close> bytes of the audio buffer; with a negative
  \<^verbatim>\<open>size\<close> the call of the source runs past the buffer, and nothing is copied here.
\<close>

definition copy_samples ::
  "UBYTE list \<Rightarrow> int \<Rightarrow> FILE \<Rightarrow> 'c statics \<Rightarrow> int \<times> FILE \<times> 'c statics" where
  "copy_samples buf num_samples fp s =
     (let size = int_mul num_samples (sample_size s)
      in if size > audio_buffer_size s
         then (0, fp, s\<lparr>current_audio_samples := - 2\<rparr>)
         else
          (let s = s\<lparr>current_audio_samples := num_samples\<rparr>;
               s = s\<lparr>audio_buffer :=
                        map_option (\<lambda>ab. take (nat size) buf @ drop (nat size) ab)
                          (audio_buffer s)\<rparr>
           in (1, fp, s)))"

definition AVI_AddAudioSamples ::
  "UBYTE list \<Rightarrow> int \<Rightarrow> FILE \<Rightarrow> 'c statics \<Rightarrow> int \<times> FILE \<times> 'c statics" where
  "AVI_AddAudioSamples buf num_samples fp s =
     (if current_audio_samples s \<ge> 0 then
        (if current_screen_size s \<ge> 0 then
           (let (r, fp, s) = AVI_WriteFrame fp s
            in if r = 0 then (0, fp, s) else copy_samples buf num_samples fp s)
         else (0, fp, s))
      else if current_screen_size s < - 1 \<or> current_audio_samples s < - 1 then (0, fp, s)
      else copy_samples buf num_samples fp s)"

subsection \<open>\<^verbatim>\<open>AVI_WriteIndex\<close> and \<^verbatim>\<open>AVI_CloseFile\<close>\<close>

text \<open>
  The body of the \<^verbatim>\<open>for\<close> loop of \<^verbatim>\<open>AVI_WriteIndex\<close>, over the entries
  \<^verbatim>\<open>frame_indexes[0]\<close> to \<^verbatim>\<open>frame_indexes[frames_written - 1]\<close> in turn, with the running
  \<^verbatim>\<open>offset\<close>. With \<^verbatim>\<open>SOUND\<close> defined the \<^verbatim>\<open>01wb\<close> entry is written for every frame.
\<close>

fun AVI_WriteIndex_loop :: "ULONG list \<Rightarrow> int \<Rightarrow> FILE \<Rightarrow> FILE" where
  "AVI_WriteIndex_loop [] offset fp = fp"
| "AVI_WriteIndex_loop (index # rest) offset fp =
     (let is_keyframe = index_is_keyframe index;
          fp = fputs (cstr ''00dc'') fp;
          fp = fputl (word_of_int is_keyframe) fp;
          fp = fputl (word_of_int offset) fp;
          size = index_video_size index;
          fp = fputl (word_of_int size) fp;
          offset = offset + (size + 8 + c_rem size 2);
          fp = fputs (cstr ''01wb'') fp;
          fp = fputl 0x10 fp;
          fp = fputl (word_of_int offset) fp;
          size = index_audio_size index;
          fp = fputl (word_of_int size) fp;
          offset = offset + (size + 8 + c_rem size 2)
      in AVI_WriteIndex_loop rest offset fp)"

definition AVI_WriteIndex :: "FILE \<Rightarrow> 'c statics \<Rightarrow> int \<times> FILE" where
  "AVI_WriteIndex fp s =
     (if frames_written s = 0 then (0, fp)
      else
       (let chunk_size = ftell fp;
            offset = 4;
            index_size = int (frames_written s) * 16 * 2;
            fp = fputs (cstr ''idx1'') fp;
            fp = fputl (word_of_int index_size) fp;
            fp = AVI_WriteIndex_loop (take (frames_written s) (mem_idx (frame_indexes s)))
                   offset fp;
            chunk_size = ftell fp - chunk_size
        in (if chunk_size = 8 + index_size then 1 else 0, fp)))"

text \<open>
  \<^verbatim>\<open>int AVI_CloseFile(FILE *fp)\<close>. The statistics line is only logged. \<^verbatim>\<open>free\<close> leaves
  nothing behind the pointer, which the source then sets to \<^verbatim>\<open>NULL\<close>.
\<close>

definition AVI_CloseFile ::
  "environment \<Rightarrow> FILE \<Rightarrow> 'c statics \<Rightarrow> int \<times> FILE \<times> 'c statics" where
  "AVI_CloseFile env fp s =
     (let (result, fp, s) =
            (if current_screen_size s \<ge> 0 \<and> current_audio_samples s \<ge> 0
             then AVI_WriteFrame fp s else (1, fp, s));
          (result, fp, s) =
            (if result > 0 then
               (let s = s\<lparr>size_movi := word_of_int (ftell fp) - size_movi s\<rparr>;
                    (result, fp) = AVI_WriteIndex fp s
                in (result, fp, s))
             else (result, fp, s));
          (result, fp, s) =
            (if result > 0 then
               (let s = s\<lparr>size_riff := word_of_int (ftell fp - 8)\<rparr>
                in AVI_WriteHeader env fp s)
             else (result, fp, s));
          fp = fclose fp;
          s = (if audio_buffer_size s > 0 then s\<lparr>audio_buffer := None\<rparr> else s);
          s = s\<lparr>audio_buffer_size := 0\<rparr>;
          s = s\<lparr>current_audio_samples := - 1\<rparr>;
          s = call_codec_end s;
          s = s\<lparr>video_buffer := None\<rparr>;
          s = s\<lparr>video_buffer_size := 0\<rparr>;
          s = s\<lparr>current_screen_size := - 1\<rparr>;
          s = s\<lparr>frame_indexes := None\<rparr>;
          s = s\<lparr>num_frames_allocated := 0\<rparr>
      in (result, fp, s))"

subsection \<open>The host's calls\<close>

text \<open>
  Between \<^verbatim>\<open>AVI_OpenFile\<close> and \<^verbatim>\<open>AVI_CloseFile\<close> the host calls \<^verbatim>\<open>AVI_AddVideoFrame\<close>
  (with the screen of the moment) and \<^verbatim>\<open>AVI_AddAudioSamples\<close> (with a buffer and a sample
  count) in some order. \<open>AVI_calls\<close> performs a list of such calls one after the other and
  collects what each returned.
\<close>

datatype host_call = AddVideoFrame "UBYTE list" | AddAudioSamples "UBYTE list" int

fun AVI_call :: "host_call \<Rightarrow> FILE \<Rightarrow> 'c statics \<Rightarrow> int \<times> FILE \<times> 'c statics" where
  "AVI_call (AddVideoFrame Screen_atari) fp s = AVI_AddVideoFrame Screen_atari fp s"
| "AVI_call (AddAudioSamples buf num_samples) fp s = AVI_AddAudioSamples buf num_samples fp s"

fun AVI_calls :: "host_call list \<Rightarrow> FILE \<Rightarrow> 'c statics \<Rightarrow> int list \<times> FILE \<times> 'c statics" where
  "AVI_calls [] fp s = ([], fp, s)"
| "AVI_calls (c # cs) fp s =
     (case AVI_call c fp s of
        (r, fp', s') \<Rightarrow> (case AVI_calls cs fp' s' of (rs, fp'', s'') \<Rightarrow> (r # rs, fp'', s'')))"

text \<open>The bytes \<^verbatim>\<open>AVI_WriteFrame\<close> hands to the file, in the order of its writes: the
  \<^verbatim>\<open>00dc\<close> chunk and, with two streams, the \<^verbatim>\<open>01wb\<close> chunk.\<close>

definition AVI_video_chunk :: "'c statics \<Rightarrow> UBYTE list" where
  "AVI_video_chunk s =
     cstr ''00dc'' @ le32 (word_of_int (current_screen_size s))
       @ take (nat (current_screen_size s)) (mem (video_buffer s))
       @ (if c_rem (current_screen_size s) 2 \<noteq> 0 then [0] else [])"

definition AVI_audio_chunk :: "'c statics \<Rightarrow> UBYTE list" where
  "AVI_audio_chunk s =
     (let audio_size = current_audio_samples s * sample_size s
      in cstr ''01wb'' @ le32 (word_of_int audio_size)
           @ take (nat (sample_size s) * nat (current_audio_samples s)) (mem (audio_buffer s))
           @ (if c_rem audio_size 2 \<noteq> 0 then [0] else []))"

definition AVI_frame_bytes :: "'c statics \<Rightarrow> UBYTE list" where
  "AVI_frame_bytes s =
     AVI_video_chunk s @ (if num_streams s = 2 then AVI_audio_chunk s else [])"

text \<open>The values of \<^verbatim>\<open>audio_size\<close> and \<^verbatim>\<open>expected_frame_size\<close> in \<^verbatim>\<open>AVI_WriteFrame\<close>.\<close>

definition frame_audio_size :: "'c statics \<Rightarrow> int" where
  "frame_audio_size s =
     (if num_streams s = 2 then current_audio_samples s * sample_size s else 0)"

definition expected_frame_size :: "'c statics \<Rightarrow> int" where
  "expected_frame_size s =
     8 + current_screen_size s + c_rem (current_screen_size s) 2
       + (if num_streams s = 2
          then 8 + current_audio_samples s * sample_size s
                 + c_rem (current_audio_samples s * sample_size s) 2
          else 0)"

text \<open>The number of bytes by which the file position advances in \<^verbatim>\<open>AVI_WriteFrame\<close>.\<close>

definition frame_growth :: "FILE \<Rightarrow> 'c statics \<Rightarrow> int" where
  "frame_growth fp s = ftell (fputs (AVI_frame_bytes s) fp) - ftell fp"

text \<open>
  A complete pending frame: the video sentinel holds a size the video buffer covers and,
  with two streams, the audio sentinel holds a count the audio buffer covers.
\<close>

definition frame_ready :: "'c statics \<Rightarrow> bool" where
  "frame_ready s \<longleftrightarrow>
     0 \<le> current_screen_size s
     \<and> nat (current_screen_size s) \<le> length (mem (video_buffer s))
     \<and> (num_streams s = 2 \<longrightarrow>
          0 \<le> current_audio_samples s \<and> 0 \<le> sample_size s
          \<and> nat (sample_size s) * nat (current_audio_samples s)
               \<le> length (mem (audio_buffer s)))"

subsection \<open>Reading the index back\<close>

text \<open>
  An entry of the \<^verbatim>\<open>idx1\<close> chunk is a tag and three 32-bit fields: flags, offset and size.
  \<open>idx1_entries\<close> lists the entries the loop of \<^verbatim>\<open>AVI_WriteIndex\<close> emits for the packed words
  it is given, \<open>entry_bytes\<close> is the 16 bytes of one entry, and \<open>read_idx1_entry\<close> reads the
  \<open>k\<close>-th entry from a file image in which the entries start at position \<open>p\<close>.
\<close>

type_synonym idx_entry = "UBYTE list \<times> ULONG \<times> ULONG \<times> ULONG"

fun idx1_entries :: "ULONG list \<Rightarrow> int \<Rightarrow> idx_entry list" where
  "idx1_entries [] offset = []"
| "idx1_entries (index # rest) offset =
     (let vsize = index_video_size index;
          asize = index_audio_size index;
          offset2 = offset + (vsize + 8 + c_rem vsize 2)
      in (cstr ''00dc'', word_of_int (index_is_keyframe index), word_of_int offset,
          word_of_int vsize)
         # (cstr ''01wb'', 0x10, word_of_int offset2, word_of_int asize)
         # idx1_entries rest (offset2 + (asize + 8 + c_rem asize 2)))"

fun entry_bytes :: "idx_entry \<Rightarrow> UBYTE list" where
  "entry_bytes (tag, flags, offset, sz) = tag @ le32 flags @ le32 offset @ le32 sz"

definition read_idx1_entry :: "UBYTE list \<Rightarrow> nat \<Rightarrow> nat \<Rightarrow> idx_entry" where
  "read_idx1_entry bs p k =
     (take 4 (drop (p + 16 * k) bs), read_le32 bs (p + 16 * k + 4),
      read_le32 bs (p + 16 * k + 8), read_le32 bs (p + 16 * k + 12))"

text \<open>The bytes \<^verbatim>\<open>AVI_WriteIndex\<close> hands to the file when at least one frame is recorded.\<close>

definition idx1_chunk :: "'c statics \<Rightarrow> UBYTE list" where
  "idx1_chunk s =
     cstr ''idx1'' @ le32 (word_of_int (int (frames_written s) * 16 * 2))
       @ concat (map entry_bytes
                   (idx1_entries (take (frames_written s) (mem_idx (frame_indexes s))) 4))"


subsection \<open>The index array during a session\<close>

text \<open>
  \<open>index_room\<close>: the index array is allocated, \<^verbatim>\<open>num_frames_allocated\<close> is its length and the
  entry for the next frame lies inside it. \<open>stored_indexes\<close> lists the packed words of the
  frames written so far, \<^verbatim>\<open>frame_indexes[0]\<close> to \<^verbatim>\<open>frame_indexes[frames_written - 1]\<close>, and
  \<open>index_state\<close> collects the statics that the index and the keyframe flag depend on.
\<close>

definition index_room :: "'c statics \<Rightarrow> bool" where
  "index_room s \<longleftrightarrow>
     (case frame_indexes s of
        None \<Rightarrow> False
      | Some fi \<Rightarrow> int (length fi) = num_frames_allocated s
                   \<and> int (frames_written s) < num_frames_allocated s)"

definition stored_indexes :: "'c statics \<Rightarrow> ULONG list" where
  "stored_indexes s = take (frames_written s) (mem_idx (frame_indexes s))"

definition index_state ::
  "'c statics \<Rightarrow> ULONG list option \<times> nat \<times> int \<times> bool \<times> 'c VIDEO_CODEC_t option" where
  "index_state s =
     (frame_indexes s, frames_written s, num_frames_allocated s, current_is_keyframe s,
      video_codec s)"

text \<open>
  \<open>keyframes_only\<close>: a session of a codec without interframes in which the flag
  \<^verbatim>\<open>current_is_keyframe\<close> is set and every packed word stored so far reads back as a keyframe.
  \<open>first_is_keyframe\<close>: the first frame is, or will be, stored as a keyframe.
  \<open>idx1_keyframes\<close>: every packed word stored so far reads back as a keyframe, and in the
  \<^verbatim>\<open>idx1\<close> chunk \<^verbatim>\<open>AVI_WriteIndex\<close> writes, whose entries start 8 bytes in, the entry of every
  frame's video chunk has the tag \<^verbatim>\<open>00dc\<close> and the flags \<^verbatim>\<open>0x10\<close>.
\<close>

definition keyframes_only :: "'c statics \<Rightarrow> bool" where
  "keyframes_only s \<longleftrightarrow>
     index_room s \<and> current_is_keyframe s
     \<and> list_all (\<lambda>w. index_is_keyframe w = 0x10) (stored_indexes s)
     \<and> (case video_codec s of None \<Rightarrow> False | Some c \<Rightarrow> \<not> uses_interframes c)"

definition first_is_keyframe :: "'c statics \<Rightarrow> bool" where
  "first_is_keyframe s \<longleftrightarrow>
     index_room s
     \<and> (if frames_written s = 0 then current_is_keyframe s
        else index_is_keyframe (stored_indexes s ! 0) = 0x10)"

definition idx1_keyframes :: "'c statics \<Rightarrow> bool" where
  "idx1_keyframes s \<longleftrightarrow>
     (\<forall>k < frames_written s.
        index_is_keyframe (stored_indexes s ! k) = 0x10
        \<and> fst (read_idx1_entry (idx1_chunk s) 8 (2 * k)) = cstr ''00dc''
        \<and> fst (snd (read_idx1_entry (idx1_chunk s) 8 (2 * k))) = 0x10)"

text \<open>The length of a chunk in the \<^verbatim>\<open>movi\<close> list: eight bytes of tag and size, the data and
  the padding to an even length, as \<^verbatim>\<open>AVI_WriteIndex\<close> computes it.\<close>

definition padded_chunk :: "int \<Rightarrow> int" where
  "padded_chunk sz = sz + 8 + c_rem sz 2"

section \<open>Concrete collaborators for worked examples\<close>

text \<open>
  A PAL machine with one POKEY, 8-bit sound at 44100 Hz, the standard 336 by 240 window
  of a 384 pixel wide screen, a grey-scale palette, and a file system that opens every
  name on a seekable medium of \<open>cap\<close> bytes.
\<close>

definition demo_env :: "bool \<Rightarrow> nat \<Rightarrow> bool \<Rightarrow> environment" where
  "demo_env sound cap sk =
     \<lparr>snd_16bit = False, POKEYSND_num_pokeys = 1, POKEYSND_playback_freq = 44100,
      tv_mode_PAL = True, Atari800_FPS_PAL = 50, Atari800_FPS_NTSC = 60,
      Sound_enabled = sound, Screen_WIDTH = 384,
      Screen_visible_x1 = 24, Screen_visible_x2 = 360,
      Screen_visible_y1 = 0, Screen_visible_y2 = 240,
      Colours_table = (\<lambda>i. int i * 65793),
      Colours_GetR = of_nat, Colours_GetG = of_nat, Colours_GetB = of_nat,
      files = (\<lambda>name. Some (cap, sk))\<rparr>"

text \<open>
  A WAV recording of three 8-bit samples on a medium with room, and a file on a medium
  that cannot seek (a pipe) which holds the 44 bytes of a header.
\<close>

definition wav_demo_calls :: "(UBYTE list option \<times> nat) list" where
  "wav_demo_calls = [(Some [1, 2, 3], 3)]"

definition wav_demo_open :: "FILE option \<times> unit statics" where
  "wav_demo_open = WAV_OpenFile (demo_env True 100 True) ''a.wav'' (initial_statics ())"

definition wav_demo_written :: "FILE option \<times> unit statics" where
  "wav_demo_written =
     WAV_WriteSamples_calls wav_demo_calls (fst wav_demo_open) (snd wav_demo_open)"

definition wav_demo_close :: "int \<times> FILE option" where
  "wav_demo_close = WAV_CloseFile (fst wav_demo_written) (snd wav_demo_written)"

definition wav_pipe :: FILE where
  "wav_pipe =
     \<lparr>contents = WAV_header (demo_env True 100 False), fpos = 44, capacity = 100,
      seekable = False, is_open = True\<rparr>"

text \<open>
  A codec for worked examples. Its private data counts the calls of its hooks: \<^verbatim>\<open>init\<close>
  resets the count, \<^verbatim>\<open>frame\<close> adds one and \<^verbatim>\<open>end\<close> adds a thousand. A frame is the first
  three bytes of the screen followed by the keyframe request.
\<close>

definition demo_codec :: "bool \<Rightarrow> nat VIDEO_CODEC_t" where
  "demo_codec ifr =
     \<lparr>codec_id = ''demo'', codec_description = ''three bytes and a flag'',
      fourcc = cstr ''DEMO'', avi_compression = cstr ''demo'', uses_interframes = ifr,
      codec_init = (\<lambda>width height left top cd. (width * height, 0)),
      codec_frame = (\<lambda>source keyframe buf bufsize cd.
                       (4, take 3 source @ [if keyframe then 1 else 0] @ drop 4 buf, cd + 1)),
      codec_end = (\<lambda>cd. (1, cd + 1000))\<rparr>"

text \<open>An AVI session opened on a seekable medium of 100000 bytes, with or without sound,
  and the file and statics it starts from.\<close>

definition avi_demo_open :: "bool \<Rightarrow> bool \<Rightarrow> FILE option \<times> nat statics" where
  "avi_demo_open sound ifr =
     AVI_OpenFile (demo_env sound 100000 True) (demo_codec ifr) ''a.avi'' (initial_statics 0)"

definition avi_demo_fp :: "bool \<Rightarrow> bool \<Rightarrow> FILE" where
  "avi_demo_fp sound ifr = the (fst (avi_demo_open sound ifr))"

definition avi_demo_statics :: "bool \<Rightarrow> bool \<Rightarrow> nat statics" where
  "avi_demo_statics sound ifr = snd (avi_demo_open sound ifr)"

definition demo_screen :: "UBYTE list" where
  "demo_screen = replicate 92160 7"

text \<open>The example session after a list of host calls: what the calls returned, the file
  and the statics.\<close>

definition avi_demo_results :: "bool \<Rightarrow> bool \<Rightarrow> host_call list \<Rightarrow> int list" where
  "avi_demo_results sound ifr calls =
     fst (AVI_calls calls (avi_demo_fp sound ifr) (avi_demo_statics sound ifr))"

definition avi_demo_file :: "bool \<Rightarrow> bool \<Rightarrow> host_call list \<Rightarrow> FILE" where
  "avi_demo_file sound ifr calls =
     fst (snd (AVI_calls calls (avi_demo_fp sound ifr) (avi_demo_statics sound ifr)))"

definition avi_demo_after :: "bool \<Rightarrow> bool \<Rightarrow> host_call list \<Rightarrow> nat statics" where
  "avi_demo_after sound ifr calls =
     snd (snd (AVI_calls calls (avi_demo_fp sound ifr) (avi_demo_statics sound ifr)))"

text \<open>A batch of 2000 samples, more than the audio buffer of the example session holds.\<close>

definition demo_big_batch :: "UBYTE list" where
  "demo_big_batch = replicate 2000 0"

text \<open>
  A long video-only recording just below the size limit: the counter stands 16 bytes
  below \<^verbatim>\<open>MAX_RECORDING_SIZE\<close>, and a frame of 10 bytes is pending. The file is as long as the
  counter says, less the 8 bytes counted for the index header.
\<close>

definition near_limit_file :: FILE where
  "near_limit_file =
     \<lparr>contents = replicate 4293918696 0, fpos = 4293918696, capacity = 4294967296,
      seekable = True, is_open = True\<rparr>"

definition near_limit_statics :: "nat statics" where
  "near_limit_statics =
     (initial_statics 0)
       \<lparr>byteswritten := 0xffeffff0, frames_written := 3, num_streams := 1,
        num_frames_allocated := 1000, frame_indexes := Some (replicate 1000 0),
        video_codec := Some (demo_codec False),
        video_buffer_size := 16, video_buffer := Some (replicate 16 7),
        current_screen_size := 10, current_is_keyframe := True\<rparr>"

text \<open>The calls that leave one complete frame pending in the example session: a video
  frame and two audio samples.\<close>

definition demo_frame_calls :: "host_call list" where
  "demo_frame_calls = [AddVideoFrame demo_screen, AddAudioSamples [1, 2] 2]"


text \<open>Closing the example session after a list of host calls.\<close>

definition avi_demo_close :: "bool \<Rightarrow> bool \<Rightarrow> host_call list \<Rightarrow> int \<times> FILE \<times> nat statics" where
  "avi_demo_close sound ifr calls =
     AVI_CloseFile (demo_env sound 100000 True) (avi_demo_file sound ifr calls)
       (avi_demo_after sound ifr calls)"

text \<open>Three video frames in a row, the calls of a recording without sound.\<close>

definition demo_video_calls :: "host_call list" where
  "demo_video_calls =
     [AddVideoFrame demo_screen, AddVideoFrame demo_screen, AddVideoFrame demo_screen]"

section \<open>The packed index word\<close>

lemma uint_pack_base:
  assumes "0 \<le> v" "v \<le> 262143" "0 \<le> a" "a \<le> 8191"
  shows "uint (word_of_int (v + 262144 * a) :: ULONG) = v + 262144 * a"
proof -
  have "v + 262144 * a < 2 ^ 32" using assms by simp
  moreover have "0 \<le> v + 262144 * a" using assms by simp
  ultimately have "(v + 262144 * a) mod 2 ^ LENGTH(32) = v + 262144 * a"
    by simp
  then show ?thesis
    by (simp only: uint_word_of_int)
qed

lemma and_vmask_int: "(y::int) AND 262143 = y mod 262144"
proof -
  have "(262143::int) = mask 18" by (simp add: mask_eq_exp_minus_1)
  then have "y AND 262143 = take_bit 18 y" by (simp only: take_bit_eq_mask)
  then show ?thesis by (simp add: take_bit_eq_mod)
qed

lemma and_amask_int: "((y::int) AND 2147221504) div 262144 = (y div 262144) mod 8192"
proof -
  have "(2147221504::int) = push_bit 18 (mask 13)" by (simp add: mask_eq_exp_minus_1)
  then have "(y AND 2147221504) = push_bit 18 (take_bit 13 (drop_bit 18 y))"
    by (auto simp add: bit_eq_iff bit_simps)
  then show ?thesis
    by (simp add: push_bit_eq_mult take_bit_eq_mod drop_bit_eq_div)
qed

lemma and_kmask_int: "((y::int) AND 2147483648 = 0) = even (y div 2147483648)"
proof -
  have "(y AND 2 ^ 31 = 0) = (\<not> bit y 31)" by (rule and_exp_eq_0_iff_not_bit)
  then show ?thesis by (simp add: bit_iff_odd)
qed

lemma or_kmask_int:
  assumes "0 \<le> y" "y < 2147483648"
  shows "(y::int) OR 2147483648 = y + 2147483648"
proof -
  have "even (y div 2147483648)" using assms by simp
  then have "y AND 2147483648 = 0" by (simp only: and_kmask_int)
  then show ?thesis
    by (simp add: disjunctive_add_eq_or)
qed

lemma uint_pack:
  assumes "0 \<le> v" "v \<le> 262143" "0 \<le> a" "a \<le> 8191"
  shows "uint (pack_frame_index v a k) = v + 262144 * (a + 8192 * (if k then 1 else 0))"
proof -
  have b: "0 \<le> v + 262144 * a" "v + 262144 * a < 2147483648" using assms by simp_all
  show ?thesis
    unfolding pack_frame_index_def Let_def AUDIO_BITSHIFT_def KEYFRAME_BITMASK_def
    using or_kmask_int[OF b] uint_pack_base[OF assms]
    by (simp add: uint_or del: of_int_add of_int_mult)
qed

lemma div_mod_offset:
  assumes "0 \<le> v" "v < n"
  shows "(v + n * c) mod n = (v::int)" "(v + n * c) div n = c"
  using assms by simp_all

lemma unpack_pack:
  assumes "0 \<le> v" "v \<le> 262143" "0 \<le> a" "a \<le> 8191"
  shows "index_video_size (pack_frame_index v a k) = v"
    and "index_audio_size (pack_frame_index v a k) = a"
    and "index_is_keyframe (pack_frame_index v a k) = (if k then 0x10 else 0)"
    and "(pack_frame_index v a k AND KEYFRAME_BITMASK \<noteq> 0) = k"
proof -
  let ?x = "pack_frame_index v a k"
  let ?c = "a + 8192 * (if k then 1 else 0 :: int)"
  note u = uint_pack[OF assms, of k]
  have v: "v < 262144" using assms by simp
  have d: "uint ?x div 262144 = ?c"
    unfolding u using div_mod_offset(2)[OF assms(1) v] .
  have m: "uint ?x mod 262144 = v"
    unfolding u using div_mod_offset(1)[OF assms(1) v] .
  have "index_video_size ?x = uint ?x mod 262144"
    by (simp add: index_video_size_def VIDEO_BITMASK_def uint_and and_vmask_int)
  with m show "index_video_size ?x = v" by simp
  have "index_audio_size ?x = (uint ?x div 262144) mod 8192"
    by (simp add: index_audio_size_def AUDIO_BITMASK_def AUDIO_BITSHIFT_def uint_div uint_and
        and_amask_int)
  also have "\<dots> = a" unfolding d using assms by simp
  finally show "index_audio_size ?x = a" .
  have "uint ?x div 2147483648 = (uint ?x div 262144) div 8192"
    by (simp add: div_mult2_eq[symmetric])
  also have "\<dots> = (if k then 1 else 0)" unfolding d using assms by simp
  finally have e: "uint ?x div 2147483648 = (if k then 1 else 0)" .
  have "(?x AND KEYFRAME_BITMASK = 0) = (uint (?x AND KEYFRAME_BITMASK) = 0)"
    by (simp add: uint_0_iff)
  also have "\<dots> = even (uint ?x div 2147483648)"
    by (simp add: KEYFRAME_BITMASK_def uint_and and_kmask_int)
  also have "\<dots> = (\<not> k)" unfolding e by simp
  finally have f: "(?x AND KEYFRAME_BITMASK = 0) = (\<not> k)" .
  then show "index_is_keyframe ?x = (if k then 0x10 else 0)"
    by (simp add: index_is_keyframe_def)
  from f show "(?x AND KEYFRAME_BITMASK \<noteq> 0) = k" by simp
qed

text \<open>
  Claim C2. For a video chunk size \<open>v\<close> with \<open>0 \<le> v \<le> 262143\<close>, an audio chunk size \<open>a\<close> with
  \<open>0 \<le> a \<le> 8191\<close> and any keyframe flag, the word that \<^verbatim>\<open>AVI_WriteFrame\<close> packs is read back
  by \<^verbatim>\<open>AVI_WriteIndex\<close> as exactly \<open>v\<close>, \<open>a\<close> and the flag (written as \<open>0x10\<close> in the index when
  set); the video size sits in bits 0 to 17, the audio size in bits 18 to 30 and the keyframe
  flag in bit 31, so the packed word is \<open>v + 2^18 * a + 2^31 * flag\<close>.
\<close>

theorem C2_pack_unpack_roundtrip:
  assumes "0 \<le> v" and "v \<le> 262143" and "0 \<le> a" and "a \<le> 8191"
  shows "index_video_size (pack_frame_index v a k) = v
       \<and> index_audio_size (pack_frame_index v a k) = a
       \<and> index_is_keyframe (pack_frame_index v a k) = (if k then 0x10 else 0)
       \<and> ((pack_frame_index v a k AND KEYFRAME_BITMASK \<noteq> 0) = k)
       \<and> uint (pack_frame_index v a k) = v + 2 ^ 18 * a + 2 ^ 31 * (if k then 1 else 0)"
  using unpack_pack[OF assms, of k] uint_pack[OF assms, of k] by simp

theorem C2_pack_unpack_roundtrip_witness:
  "(0::int) \<le> 30000 \<and> (30000::int) \<le> 262143 \<and> (0::int) \<le> 1470 \<and> (1470::int) \<le> 8191
   \<and> index_video_size (pack_frame_index 30000 1470 True) = 30000
   \<and> index_audio_size (pack_frame_index 30000 1470 True) = 1470
   \<and> index_is_keyframe (pack_frame_index 30000 1470 True) = 0x10
   \<and> uint (pack_frame_index 30000 1470 True) = 2532865328"
  using C2_pack_unpack_roundtrip[of 30000 1470 True] by simp


section \<open>Facts about the byte sink\<close>

lemma store_byte_inside:
  "p \<le> length bs \<Longrightarrow> store_byte bs p b = take p bs @ b # drop (Suc p) bs"
  by (auto simp: store_byte_def upd_conv_take_nth_drop id_take_nth_drop)

lemma fputc_room:
  assumes "fpos fp < capacity fp"
  shows "fputc c fp = fp\<lparr>contents := store_byte (contents fp) (fpos fp) c, fpos := Suc (fpos fp)\<rparr>"
  using assms by (simp add: fputc_def putc_def)

lemma fputc_full: "\<not> fpos fp < capacity fp \<Longrightarrow> fputc c fp = fp"
  by (simp add: fputc_def putc_def)

lemma fputc_fixed [simp]:
  "capacity (fputc c fp) = capacity fp" "seekable (fputc c fp) = seekable fp"
  "is_open (fputc c fp) = is_open fp"
  by (simp_all add: fputc_def putc_def)

lemma fputs_fixed [simp]:
  "capacity (fputs bs fp) = capacity fp" "seekable (fputs bs fp) = seekable fp"
  "is_open (fputs bs fp) = is_open fp"
  unfolding fputs_def by (induction bs arbitrary: fp; simp)+

lemma fputs_Nil [simp]: "fputs [] fp = fp"
  by (simp add: fputs_def)

lemma fputs_Cons: "fputs (b # bs) fp = fputs bs (fputc b fp)"
  by (simp add: fputs_def)

lemma fputs_append: "fputs (as @ bs) fp = fputs bs (fputs as fp)"
  by (simp add: fputs_def)

text \<open>A write that fits replaces or extends the data at the position indicator.\<close>

lemma fputs_room:
  assumes "fpos fp + length bs \<le> capacity fp" and "fpos fp \<le> length (contents fp)"
  shows "fputs bs fp =
           fp\<lparr>contents := take (fpos fp) (contents fp) @ bs
                             @ drop (fpos fp + length bs) (contents fp),
               fpos := fpos fp + length bs\<rparr>"
  using assms
proof (induction bs arbitrary: fp)
  case Nil
  then show ?case by simp
next
  case (Cons b bs)
  define p where "p = fpos fp"
  define c where "c = contents fp"
  define c1 where "c1 = take p c @ b # drop (Suc p) c"
  let ?fp = "fputc b fp"
  have lt: "fpos fp < capacity fp" using Cons.prems by simp
  have pc: "p \<le> length c" using Cons.prems by (simp add: p_def c_def)
  have e: "?fp = fp\<lparr>contents := c1, fpos := Suc p\<rparr>"
    using Cons.prems by (simp add: fputc_room[OF lt] store_byte_inside p_def c_def c1_def)
  have l1: "length (take p c) = p" using pc by simp
  have t: "take (Suc p) c1 = take p c @ [b]"
    unfolding c1_def using l1 by (simp add: take_append)
  have d: "drop (Suc p + length bs) c1 = drop (p + length (b # bs)) c"
    unfolding c1_def using l1 by (simp add: drop_append add.commute)
  have "fpos ?fp + length bs \<le> capacity ?fp" "fpos ?fp \<le> length (contents ?fp)"
    using Cons.prems pc by (simp_all add: e p_def c1_def)
  from Cons.IH[OF this]
  have "fputs bs ?fp = ?fp\<lparr>contents := take (Suc p) c1 @ bs @ drop (Suc p + length bs) c1,
                             fpos := Suc p + length bs\<rparr>"
    by (simp add: e)
  then show ?case
    unfolding t d by (simp add: fputs_Cons e p_def c_def)
qed

text \<open>Writes never move the position indicator backwards, and never past the capacity
  once it is within it.\<close>

lemma fpos_fputc_mono: "fpos fp \<le> fpos (fputc c fp)"
  by (simp add: fputc_def putc_def)

lemma fpos_fputs_mono: "fpos fp \<le> fpos (fputs bs fp)"
proof (induction bs arbitrary: fp)
  case Nil
  then show ?case by simp
next
  case (Cons b bs)
  have "fpos fp \<le> fpos (fputc b fp)" by (rule fpos_fputc_mono)
  also have "\<dots> \<le> fpos (fputs bs (fputc b fp))" by (rule Cons.IH)
  finally show ?case by (simp add: fputs_Cons)
qed

lemma fpos_fputs:
  "fpos (fputs bs fp) = (if fpos fp \<le> capacity fp
      then min (fpos fp + length bs) (capacity fp) else fpos fp)"
proof (induction bs arbitrary: fp)
  case Nil
  then show ?case by simp
next
  case (Cons b bs)
  show ?case
  proof (cases "fpos fp < capacity fp")
    case True
    then show ?thesis
      by (simp add: fputs_Cons Cons.IH fputc_room)
  next
    case False
    then show ?thesis
      by (simp add: fputs_Cons Cons.IH fputc_full)
  qed
qed

lemma fputw_fputs: "fputw x fp = fputs (le16 x) fp"
  by (simp add: fputw_def le16_def fputs_def)

lemma fputl_fputs: "fputl x fp = fputs (le32 x) fp"
  by (simp add: fputl_def le32_def fputs_def)

lemma fputl_fixed [simp]:
  "capacity (fputl x fp) = capacity fp" "seekable (fputl x fp) = seekable fp"
  "is_open (fputl x fp) = is_open fp"
  by (simp_all add: fputl_fputs)

lemma fputw_fixed [simp]:
  "capacity (fputw x fp) = capacity fp" "seekable (fputw x fp) = seekable fp"
  "is_open (fputw x fp) = is_open fp"
  by (simp_all add: fputw_fputs)

lemma length_le32 [simp]: "length (le32 x) = 4"
  by (simp add: le32_def)

lemma length_le16 [simp]: "length (le16 x) = 2"
  by (simp add: le16_def)

lemma length_cstr [simp]: "length (cstr s) = length s"
  by (simp add: cstr_def)

text \<open>\<^const>\<open>read_le32\<close> inverts \<^const>\<open>le32\<close>, wherever the four bytes sit.\<close>

lemma le32_inverse:
  "(ucast (ucast (x AND 0xff :: ULONG) :: UBYTE) :: ULONG)
     OR push_bit 8 (ucast (ucast (drop_bit 8 x AND 0xff :: ULONG) :: UBYTE) :: ULONG)
     OR push_bit 16 (ucast (ucast (drop_bit 16 x AND 0xff :: ULONG) :: UBYTE) :: ULONG)
     OR push_bit 24 (ucast (ucast (drop_bit 24 x AND 0xff :: ULONG) :: UBYTE) :: ULONG) = x"
  (is "?lhs = x")
proof (rule bit_word_eqI)
  fix n
  assume "n < LENGTH(32)"
  have m: "(0xff :: ULONG) = mask 8" by (simp add: mask_eq_exp_minus_1)
  consider "n < 8" | "8 \<le> n" "n < 16" | "16 \<le> n" "n < 24" | "24 \<le> n" "n < 32"
    using \<open>n < LENGTH(32)\<close> by fastforce
  then show "bit ?lhs n = bit x n"
    unfolding m by cases (auto simp add: bit_simps)
qed

lemma read_le32_at:
  assumes "length pre = p"
  shows "read_le32 (pre @ le32 x @ post) p = x"
proof -
  have "read_le32 (pre @ le32 x @ post) p = read_le32 (le32 x @ post) 0"
    using assms by (simp add: read_le32_def nth_append numeral_2_eq_2 numeral_3_eq_3)
  also have "\<dots> = x"
    using le32_inverse[of x] by (simp add: read_le32_def le32_def numeral_2_eq_2 numeral_3_eq_3)
  finally show ?thesis .
qed

lemma read_le32_prefix:
  assumes "p + 4 \<le> length pre"
  shows "read_le32 (pre @ post) p = read_le32 pre p"
  using assms by (simp add: read_le32_def nth_append)


section \<open>The WAV writer: header patch-up on close\<close>



lemma fputs_at_end:
  assumes "fpos fp = length (contents fp)"
  shows "fpos (fputs bs fp) = length (contents (fputs bs fp))"
  using assms
proof (induction bs arbitrary: fp)
  case Nil
  then show ?case by simp
next
  case (Cons b bs)
  have "fpos (fputc b fp) = length (contents (fputc b fp))"
    using Cons.prems by (simp add: fputc_def putc_def store_byte_def)
  from Cons.IH[OF this] show ?case by (simp add: fputs_Cons)
qed

lemma fputs_within:
  assumes "fpos fp \<le> capacity fp"
  shows "fpos (fputs bs fp) \<le> capacity fp"
  using assms by (simp add: fpos_fputs)

lemma fputs_append_end:
  assumes "fpos fp = length (contents fp)" "fpos fp + length bs \<le> capacity fp"
  shows "fputs bs fp = fp\<lparr>contents := contents fp @ bs, fpos := fpos fp + length bs\<rparr>"
  using fputs_room[of fp bs] assms by simp

text \<open>\<^verbatim>\<open>WAV_OpenFile\<close> is one write of the 44 header bytes to the empty file.\<close>

lemma length_WAV_header [simp]: "length (WAV_header env) = 44"
  by (simp add: WAV_header_def)

lemma WAV_OpenFile_eq:
  "WAV_OpenFile env name s0 =
     (case files env name of
        None \<Rightarrow> (None, s0)
      | Some (cap, sk) \<Rightarrow>
          (let fp = fputs (WAV_header env)
                      \<lparr>contents = [], fpos = 0, capacity = cap, seekable = sk, is_open = True\<rparr>;
               s = s0\<lparr>sample_size := (if snd_16bit env then 2 else 1), frames_written := 0,
                      fps := (if tv_mode_PAL env then Atari800_FPS_PAL env
                              else Atari800_FPS_NTSC env),
                      description := ''WAV''\<rparr>
           in if \<not> sk \<or> fpos fp \<noteq> 44 then (None, s) else (Some fp, s\<lparr>byteswritten := 0\<rparr>)))"
  by (simp add: WAV_OpenFile_def fopen_wb_def WAV_header_def fputl_fputs fputw_fputs fputs_append
      Let_def ftell_def split: option.splits)

lemma WAV_OpenFile_Some:
  assumes "WAV_OpenFile env name s0 = (Some fp, s)"
  shows "fpos fp = 44" "length (contents fp) = 44" "44 \<le> capacity fp" "byteswritten s = 0"
    "sample_size s = (if snd_16bit env then 2 else 1)" "seekable fp"
proof -
  obtain cap sk where f: "files env name = Some (cap, sk)"
    using assms by (auto simp: WAV_OpenFile_eq split: option.splits)
  define f0 where "f0 = \<lparr>contents = [], fpos = 0, capacity = cap, seekable = sk, is_open = True\<rparr>"
  have a: "fp = fputs (WAV_header env) f0" "fpos fp = 44" "sk"
    using assms unfolding WAV_OpenFile_eq f f0_def
    by (simp_all add: Let_def split: if_splits)
  show "seekable fp" using a(1,3) by (simp add: f0_def)
  have e: "fpos f0 = length (contents f0)" by (simp add: f0_def)
  show "fpos fp = 44" by fact
  with fputs_at_end[OF e, of "WAV_header env"] a show "length (contents fp) = 44" by simp
  have "fpos f0 \<le> capacity f0" by (simp add: f0_def)
  from fputs_within[OF this, of "WAV_header env"] a show "44 \<le> capacity fp"
    by simp
  show "byteswritten s = 0" using assms unfolding WAV_OpenFile_eq f
    by (auto simp add: Let_def split: if_splits)
  show "sample_size s = (if snd_16bit env then 2 else 1)" using assms unfolding WAV_OpenFile_eq f
    by (auto simp add: Let_def split: if_splits)
qed

text \<open>The session opens whenever the medium can hold the header.\<close>

lemma WAV_OpenFile_succeeds:
  assumes "files env name = Some (cap, sk)" and "44 \<le> cap" and "sk"
  shows "fst (WAV_OpenFile env name s0) \<noteq> None"
    and "capacity (the (fst (WAV_OpenFile env name s0))) = cap"
    and "seekable (the (fst (WAV_OpenFile env name s0))) = sk"
  using assms by (simp_all add: WAV_OpenFile_eq Let_def fpos_fputs)

lemma fwrite_room:
  assumes "fpos fp = length (contents fp)" and "fpos fp + sz * n \<le> capacity fp"
    and "sz * n \<le> length ptr" and "0 < sz"
  shows "fwrite ptr sz n fp =
           (n, fp\<lparr>contents := contents fp @ take (sz * n) ptr, fpos := fpos fp + sz * n\<rparr>)"
proof -
  have l: "length (take (sz * n) ptr) = sz * n" using assms by simp
  have "fputs (take (sz * n) ptr) fp =
          fp\<lparr>contents := contents fp @ take (sz * n) ptr, fpos := fpos fp + sz * n\<rparr>"
    using fputs_append_end[of fp "take (sz * n) ptr"] assms l by simp
  then show ?thesis
    using assms by (simp add: fwrite_def fputs_def[symmetric] Let_def)
qed

lemma word_of_nat_odd: "((of_nat n :: ULONG) AND 1 \<noteq> 0) = odd n"
  by (simp add: and_one_eq mod_2_eq_odd word_of_nat_eq_0_iff flip: of_nat_mod)

text \<open>What one call does when the medium has room: the samples are appended and counted.\<close>

lemma WAV_WriteSamples_room:
  assumes "fpos f = length (contents f)"
    and "fpos f + n * nat (sample_size s) \<le> capacity f"
    and "n * nat (sample_size s) \<le> length b" and "0 < sample_size s"
  shows "\<exists>r s'. WAV_WriteSamples (Some b) n (Some f) s =
           (r, Some (f\<lparr>contents := contents f @ take (n * nat (sample_size s)) b,
                       fpos := fpos f + n * nat (sample_size s)\<rparr>), s')
         \<and> byteswritten s' = byteswritten s + of_nat (n * nat (sample_size s))
         \<and> sample_size s' = sample_size s"
proof (cases "n = 0")
  case True
  then show ?thesis by (simp add: WAV_WriteSamples_def)
next
  case False
  have w: "fwritele b (nat (sample_size s)) n f =
     (n, f\<lparr>contents := contents f @ take (nat (sample_size s) * n) b,
           fpos := fpos f + nat (sample_size s) * n\<rparr>)"
    unfolding fwritele_def using assms by (intro fwrite_room) (simp_all add: mult.commute)
  have c: "int n * sample_size s = int (n * nat (sample_size s))" using assms by simp
  show ?thesis
    using False by (simp add: WAV_WriteSamples_def w Let_def mult.commute c del: of_nat_mult)
qed

lemma WAV_calls_room:
  assumes "fpos f = length (contents f)"
    and "fpos f + pcm_bytes (sample_size s) calls \<le> capacity f"
    and "buffers_hold (sample_size s) calls" and "0 < sample_size s"
  shows "\<exists>f' s'. WAV_WriteSamples_calls calls (Some f) s = (Some f', s')
           \<and> length (contents f') = length (contents f) + pcm_bytes (sample_size s) calls
           \<and> fpos f' = length (contents f')
           \<and> take (length (contents f)) (contents f') = contents f
           \<and> capacity f' = capacity f \<and> seekable f' = seekable f
           \<and> byteswritten s' = byteswritten s + of_nat (pcm_bytes (sample_size s) calls)"
  using assms
proof (induction calls arbitrary: f s)
  case Nil
  then show ?case by simp
next
  case (Cons c calls)
  obtain buf n where c: "c = (buf, n)" by (cases c)
  show ?case
  proof (cases buf)
    case None
    have "WAV_WriteSamples None n (Some f) s = (0, Some f, s)"
      by (simp add: WAV_WriteSamples_def)
    with Cons.IH[of f s] Cons.prems show ?thesis
      by (simp add: c None)
  next
    case (Some b)
    let ?k = "n * nat (sample_size s)"
    let ?f1 = "f\<lparr>contents := contents f @ take ?k b, fpos := fpos f + ?k\<rparr>"
    have k: "?k \<le> length b" "fpos f + ?k \<le> capacity f"
      using Cons.prems by (simp_all add: c Some)
    from WAV_WriteSamples_room[OF Cons.prems(1) k(2) k(1) Cons.prems(4)]
    obtain r s1 where s1: "WAV_WriteSamples (Some b) n (Some f) s = (r, Some ?f1, s1)"
      "byteswritten s1 = byteswritten s + of_nat ?k" "sample_size s1 = sample_size s"
      by blast
    have p: "fpos ?f1 = length (contents ?f1)"
      "fpos ?f1 + pcm_bytes (sample_size s1) calls \<le> capacity ?f1"
      "buffers_hold (sample_size s1) calls" "0 < sample_size s1"
      using Cons.prems k by (simp_all add: c Some s1)
    from Cons.IH[OF p] obtain f' s' where
      r: "WAV_WriteSamples_calls calls (Some ?f1) s1 = (Some f', s')"
        "length (contents f') = length (contents ?f1) + pcm_bytes (sample_size s1) calls"
        "fpos f' = length (contents f')"
        "take (length (contents ?f1)) (contents f') = contents ?f1"
        "capacity f' = capacity ?f1" "seekable f' = seekable ?f1"
        "byteswritten s' = byteswritten s1 + of_nat (pcm_bytes (sample_size s1) calls)"
      by blast
    have "take (length (contents f)) (contents f') = take (length (contents f)) (take (length (contents ?f1)) (contents f'))"
      by (simp add: min_def)
    also have "\<dots> = contents f" unfolding r(4) by simp
    finally have t: "take (length (contents f)) (contents f') = contents f" .
    show ?thesis
      using r k t by (simp add: c Some s1)
  qed
qed


text \<open>Patching a 32-bit field of the header: seek, then \<^verbatim>\<open>fputl\<close>.\<close>

lemma fputl_patch:
  assumes "p + 4 \<le> length (contents f)" and "p + 4 \<le> capacity f"
  shows "fputl x (f\<lparr>fpos := p\<rparr>) =
           f\<lparr>contents := take p (contents f) @ le32 x @ drop (p + 4) (contents f),
             fpos := p + 4\<rparr>"
  using fputs_room[of "f\<lparr>fpos := p\<rparr>" "le32 x"] assms by (simp add: fputl_fputs)

lemma read_patched_same:
  assumes "p + 4 \<le> length c"
  shows "read_le32 (take p c @ le32 x @ drop (p + 4) c) p = x"
  using assms by (intro read_le32_at) simp

lemma read_patched_other:
  assumes "q + 4 \<le> p" and "p + 4 \<le> length c"
  shows "read_le32 (take p c @ le32 x @ drop (p + 4) c) q = read_le32 c q"
proof -
  have "read_le32 (take p c @ le32 x @ drop (p + 4) c) q = read_le32 (take p c) q"
    using assms by (intro read_le32_prefix) simp
  also have "\<dots> = read_le32 c q"
    using assms by (simp add: read_le32_def)
  finally show ?thesis .
qed

lemma length_patched:
  assumes "p + 4 \<le> length c"
  shows "length (take p c @ le32 x @ drop (p + 4) c) = length c"
  using assms by simp

text \<open>\<^verbatim>\<open>WAV_CloseFile\<close> on a file that ends at its position indicator.\<close>

lemma WAV_CloseFile_TRUE:
  assumes ok: "WAV_CloseFile (Some f) s = (TRUE, Some g)"
    and e: "fpos f = length (contents f)" and l: "44 \<le> length (contents f)"
    and cap: "fpos f \<le> capacity f"
  shows "read_le32 (contents g) 4 = byteswritten s + 36 + (if byteswritten s AND 1 \<noteq> 0 then 1 else 0)"
    and "read_le32 (contents g) 40 = byteswritten s"
    and "length (contents g) = length (contents f) + (if byteswritten s AND 1 \<noteq> 0 then 1 else 0)"
    and "\<not> is_open g"
proof -
  define al :: ULONG where "al = (if byteswritten s AND 1 \<noteq> 0 then 1 else 0)"
  define f1 where "f1 = (if byteswritten s AND 1 \<noteq> 0 then fputc 0 f else f)"
  have sk: "seekable f"
    using ok by (auto simp: WAV_CloseFile_def fseek_set_def putc_def Let_def TRUE_def FALSE_def EOF_def
        split: if_splits)
  have room: "byteswritten s AND 1 \<noteq> 0 \<Longrightarrow> fpos f < capacity f"
    using ok by (auto simp: WAV_CloseFile_def fseek_set_def putc_def Let_def TRUE_def FALSE_def EOF_def
        split: if_splits)
  have f1: "contents f1 = contents f @ (if byteswritten s AND 1 \<noteq> 0 then [0] else [])"
    "seekable f1" "44 \<le> capacity f1"
    using room e l sk cap by (auto simp: f1_def fputc_room store_byte_def)
  define c1 where "c1 = contents f1"
  define c2 where "c2 = take 4 c1 @ le32 (byteswritten s + 36 + al) @ drop (4 + 4) c1"
  define f2 where "f2 = f1\<lparr>contents := c2, fpos := 4 + 4\<rparr>"
  define c3 where "c3 = take 40 c2 @ le32 (byteswritten s) @ drop (40 + 4) c2"
  have lc1: "44 \<le> length c1" using f1 l by (simp add: c1_def)
  have lc2: "length c2 = length c1" unfolding c2_def using lc1 by (intro length_patched) simp
  have p1: "fputl (byteswritten s + 36 + al) (f1\<lparr>fpos := 4\<rparr>) = f2"
    unfolding f2_def c2_def c1_def using lc1 f1(3) by (intro fputl_patch) (simp_all add: c1_def)
  have p2: "fputl (byteswritten s) (f2\<lparr>fpos := 40\<rparr>) = f2\<lparr>contents := c3, fpos := 40 + 4\<rparr>"
    unfolding c3_def using lc1 lc2 f1(3)
    by (subst fputl_patch) (simp_all add: f2_def)
  have g: "g = fclose (f2\<lparr>contents := c3, fpos := 40 + 4\<rparr>)"
  proof (cases "byteswritten s AND 1 \<noteq> 0")
    case True
    then have "putc 0 f = (0, f1)"
      using room by (simp add: f1_def fputc_def putc_def)
    with ok True f1(2) p1 p2 show ?thesis
      by (simp add: WAV_CloseFile_def Let_def fseek_set_def TRUE_def FALSE_def EOF_def al_def f2_def)
  next
    case False
    then have "f1 = f" by (simp add: f1_def)
    with ok False sk p1 p2 show ?thesis
      by (simp add: WAV_CloseFile_def Let_def fseek_set_def TRUE_def FALSE_def EOF_def al_def f2_def)
  qed
  have cg: "contents g = c3" by (simp add: g fclose_def)
  show "read_le32 (contents g) 40 = byteswritten s"
    unfolding cg c3_def using lc1 lc2 by (intro read_patched_same) simp
  have "read_le32 c3 4 = read_le32 c2 4"
    unfolding c3_def using lc1 lc2 by (intro read_patched_other) simp_all
  also have "\<dots> = byteswritten s + 36 + al"
    unfolding c2_def using lc1 by (intro read_patched_same) simp
  finally show "read_le32 (contents g) 4 = byteswritten s + 36 + (if byteswritten s AND 1 \<noteq> 0 then 1 else 0)"
    by (simp add: cg al_def)
  have "length c3 = length c2" unfolding c3_def using lc1 lc2 by (intro length_patched) simp
  then show "length (contents g) = length (contents f) + (if byteswritten s AND 1 \<noteq> 0 then 1 else 0)"
    using lc2 f1(1) by (simp add: cg c1_def)
  show "\<not> is_open g" by (simp add: g fclose_def)
qed

lemma WAV_CloseFile_succeeds:
  assumes "seekable f" and "fpos f < capacity f"
  shows "fst (WAV_CloseFile (Some f) s) = TRUE" and "snd (WAV_CloseFile (Some f) s) \<noteq> None"
  using assms
  by (simp_all add: WAV_CloseFile_def Let_def putc_def fseek_set_def TRUE_def FALSE_def EOF_def
      split: prod.splits)


lemma pair_SomeI: "fst p \<noteq> None \<Longrightarrow> p = (Some (the (fst p)), snd p)"
  by (cases p) auto

text \<open>
  Claim C6. A WAV session: \<^verbatim>\<open>WAV_OpenFile\<close> returned a file (so its 44-byte header is
  written), the \<^verbatim>\<open>WAV_WriteSamples\<close> calls handed over \<open>data_bytes\<close> bytes of PCM data which
  the medium had room for, and \<^verbatim>\<open>WAV_CloseFile\<close> returned \<^verbatim>\<open>TRUE\<close>. Then the closed file
  holds the 32-bit little-endian value \<open>data_bytes + 36 + pad\<close> at offset 4 and \<open>data_bytes\<close>
  at offset 40, with \<open>pad = data_bytes mod 2\<close>, and is \<open>44 + data_bytes + pad\<close> bytes long.
  The two fields are 32-bit words: for sizes beyond 32 bits they hold the values modulo
  \<open>2^32\<close>.
\<close>

theorem C6_WAV_header_after_close:
  assumes "WAV_OpenFile env szFileName s0 = (Some fp, s)"
    and "buffers_hold (sample_size s) calls"
    and "44 + pcm_bytes (sample_size s) calls \<le> capacity fp"
    and "WAV_WriteSamples_calls calls (Some fp) s = (fp', s')"
    and "WAV_CloseFile fp' s' = (TRUE, Some f)"
  shows "read_le32 (contents f) 4 =
           of_nat (pcm_bytes (sample_size s) calls + 36 + pcm_bytes (sample_size s) calls mod 2)
       \<and> read_le32 (contents f) 40 = of_nat (pcm_bytes (sample_size s) calls)
       \<and> length (contents f) =
           44 + pcm_bytes (sample_size s) calls + pcm_bytes (sample_size s) calls mod 2"
proof -
  let ?D = "pcm_bytes (sample_size s) calls"
  note o = WAV_OpenFile_Some[OF assms(1)]
  have pos: "0 < sample_size s" using o(5) by simp
  have e: "fpos fp = length (contents fp)" using o by simp
  have r: "fpos fp + ?D \<le> capacity fp" using assms(3) o by simp
  from WAV_calls_room[OF e r assms(2) pos] assms(4) obtain f' where
    f': "fp' = Some f'" "length (contents f') = length (contents fp) + ?D"
      "fpos f' = length (contents f')" "byteswritten s' = byteswritten s + of_nat ?D"
      "capacity f' = capacity fp"
    by auto
  have b: "byteswritten s' = of_nat ?D" using f'(4) o(4) by simp
  have l: "44 \<le> length (contents f')" using f'(2) o by simp
  have c: "WAV_CloseFile (Some f') s' = (TRUE, Some f)" using assms(5) f'(1) by simp
  have cp: "fpos f' \<le> capacity f'" using f'(2,3,5) r e by simp
  note k = WAV_CloseFile_TRUE[OF c f'(3) l cp]
  have al: "(if byteswritten s' AND 1 \<noteq> 0 then 1 else 0) = (of_nat (?D mod 2) :: ULONG)"
    unfolding b word_of_nat_odd by (simp add: mod_2_eq_odd)
  have al': "(if byteswritten s' AND 1 \<noteq> 0 then 1 else 0) = ?D mod 2"
    unfolding b word_of_nat_odd by (simp add: mod_2_eq_odd)
  show ?thesis
    using k(1,2,3) unfolding al al' by (simp add: b f'(2) o(2))
qed

theorem C6_WAV_header_after_close_witness:
  "fst wav_demo_open \<noteq> None
   \<and> buffers_hold (sample_size (snd wav_demo_open)) wav_demo_calls
   \<and> 44 + pcm_bytes (sample_size (snd wav_demo_open)) wav_demo_calls
        \<le> capacity (the (fst wav_demo_open))
   \<and> fst wav_demo_close = TRUE \<and> snd wav_demo_close \<noteq> None
   \<and> read_le32 (contents (the (snd wav_demo_close))) 4 = 40
   \<and> read_le32 (contents (the (snd wav_demo_close))) 40 = 3
   \<and> length (contents (the (snd wav_demo_close))) = 48"
proof -
  let ?fp = "the (fst wav_demo_open)" and ?s = "snd wav_demo_open"
  have fs: "files (demo_env True 100 True) ''a.wav'' = Some (100, True)"
    by (simp add: demo_env_def)
  note os = WAV_OpenFile_succeeds[OF fs _ TrueI, of "initial_statics ()", folded wav_demo_open_def]
  have 1: "fst wav_demo_open \<noteq> None" using os(1) by simp
  have o: "WAV_OpenFile (demo_env True 100 True) ''a.wav'' (initial_statics ()) = (Some ?fp, ?s)"
    using pair_SomeI[OF 1] by (simp add: wav_demo_open_def)
  note op = WAV_OpenFile_Some[OF o]
  have ss: "sample_size ?s = 1" using op(5) by (simp add: demo_env_def)
  have d: "pcm_bytes (sample_size ?s) wav_demo_calls = 3"
    by (simp add: ss wav_demo_calls_def)
  have 2: "buffers_hold (sample_size ?s) wav_demo_calls"
    by (simp add: ss wav_demo_calls_def)
  have 3: "44 + pcm_bytes (sample_size ?s) wav_demo_calls \<le> capacity ?fp"
    using os(2) by (simp add: d)
  have w: "WAV_WriteSamples_calls wav_demo_calls (Some ?fp) ?s
             = (fst wav_demo_written, snd wav_demo_written)"
    using 1 by (simp add: wav_demo_written_def)
  have e: "fpos ?fp = length (contents ?fp)" using op by simp
  have r: "fpos ?fp + pcm_bytes (sample_size ?s) wav_demo_calls \<le> capacity ?fp"
    using 3 op(1) by simp
  have p: "0 < sample_size ?s" by (simp add: ss)
  from WAV_calls_room[OF e r 2 p] obtain f' s' where
    f': "WAV_WriteSamples_calls wav_demo_calls (Some ?fp) ?s = (Some f', s')"
      "fpos f' = length (contents f')"
      "length (contents f') = length (contents ?fp) + pcm_bytes (sample_size ?s) wav_demo_calls"
      "capacity f' = capacity ?fp" "seekable f' = seekable ?fp"
    by blast
  have "wav_demo_written = (Some f', s')"
    using f'(1) 1 by (simp add: wav_demo_written_def)
  then have fw: "fst wav_demo_written = Some f'" by (metis fst_conv)
  have "seekable f'" "fpos f' < capacity f'"
    using f' os(2,3) op(2) d by simp_all
  from WAV_CloseFile_succeeds[OF this, of "snd wav_demo_written"]
  have 4: "fst wav_demo_close = TRUE" and 5: "snd wav_demo_close \<noteq> None"
    by (simp_all add: wav_demo_close_def fw)
  have c: "WAV_CloseFile (fst wav_demo_written) (snd wav_demo_written)
             = (TRUE, Some (the (snd wav_demo_close)))"
    using 4 5 by (cases wav_demo_close) (auto simp: wav_demo_close_def)
  from C6_WAV_header_after_close[OF o 2 3 w c] 1 2 3 4 5 show ?thesis
    unfolding d by simp
qed

text \<open>
  Claim C9. \<^verbatim>\<open>WAV_CloseFile\<close> with a null file pointer writes nothing (there is no file)
  and returns \<^verbatim>\<open>TRUE\<close>. It returns \<^verbatim>\<open>FALSE\<close> exactly when a file is supplied and either
  the padding byte is due and its \<^verbatim>\<open>putc\<close> returns \<^verbatim>\<open>EOF\<close>, or a seek fails, which is the
  case when the medium is not seekable.
\<close>

theorem C9_WAV_CloseFile_NULL:
  "WAV_CloseFile None s = (TRUE, None)
   \<and> (fst (WAV_CloseFile fp s) \<noteq> TRUE \<longrightarrow>
         (\<exists>f. fp = Some f \<and>
            ((byteswritten s AND 1 \<noteq> 0 \<and> fst (putc 0 f) = EOF) \<or> fst (fseek_set f 4) \<noteq> 0)))
   \<and> ((\<exists>f. fp = Some f \<and>
            ((byteswritten s AND 1 \<noteq> 0 \<and> fst (putc 0 f) = EOF) \<or> fst (fseek_set f 4) \<noteq> 0))
         \<longrightarrow> fst (WAV_CloseFile fp s) = FALSE)"
  by (auto simp: WAV_CloseFile_def Let_def fseek_set_def putc_def TRUE_def FALSE_def EOF_def
      split: option.splits prod.splits if_splits)

theorem C9_WAV_CloseFile_NULL_witness:
  "fst (WAV_CloseFile (Some wav_pipe) (initial_statics ())) \<noteq> TRUE
   \<and> fst (fseek_set wav_pipe 4) \<noteq> 0
   \<and> WAV_CloseFile None (initial_statics ()) = (TRUE, None)"
proof -
  have 3: "fst (fseek_set wav_pipe 4) \<noteq> 0"
    by (simp add: fseek_set_def wav_pipe_def)
  from C9_WAV_CloseFile_NULL[of "initial_statics () :: unit statics" "Some wav_pipe"] 3
  show ?thesis by (auto simp: TRUE_def FALSE_def)
qed

section \<open>The AVI writer: one frame flush\<close>

lemma fwrite_file: "snd (fwrite ptr sz n fp) = fputs (take (sz * n) ptr) fp"
  by (simp add: fwrite_def fputs_def Let_def)

lemma fputc_fputs: "fputc c fp = fputs [c] fp"
  by (simp add: fputs_def)

lemma write_frame_chunks_eq:
  "write_frame_chunks fp s =
     (frame_audio_size s, expected_frame_size s, fputs (AVI_frame_bytes s) fp,
      if num_streams s = 2
      then s\<lparr>samples_written := samples_written s + word_of_int (current_audio_samples s)\<rparr>
      else s)"
  by (simp add: write_frame_chunks_def AVI_frame_bytes_def AVI_video_chunk_def AVI_audio_chunk_def
      frame_audio_size_def expected_frame_size_def
      Let_def fwritele_def fwrite_file fputl_fputs fputc_fputs fputs_append)

lemma store_frame_index_fields [simp]:
  "frames_written (store_frame_index a s) = frames_written s + 1"
  "current_screen_size (store_frame_index a s) = current_screen_size s"
  "current_audio_samples (store_frame_index a s) = current_audio_samples s"
  "current_is_keyframe (store_frame_index a s) = current_is_keyframe s"
  "num_streams (store_frame_index a s) = num_streams s"
  "sample_size (store_frame_index a s) = sample_size s"
  "audio_buffer (store_frame_index a s) = audio_buffer s"
  "audio_buffer_size (store_frame_index a s) = audio_buffer_size s"
  "video_buffer (store_frame_index a s) = video_buffer s"
  "video_buffer_size (store_frame_index a s) = video_buffer_size s"
  "video_codec (store_frame_index a s) = video_codec s"
  "codec_data (store_frame_index a s) = codec_data s"
  "size_movi (store_frame_index a s) = size_movi s"
  "size_riff (store_frame_index a s) = size_riff s"
  "byteswritten (store_frame_index a s) = byteswritten s"
  "samples_written (store_frame_index a s) = samples_written s"
  "fps (store_frame_index a s) = fps s"
  "keyframe_interval (store_frame_index a s) = keyframe_interval s"
  "keyframe_residual (store_frame_index a s) = keyframe_residual s"
  "smallest_video_frame (store_frame_index a s) = smallest_video_frame s"
  "largest_video_frame (store_frame_index a s) = largest_video_frame s"
  "total_video_size (store_frame_index a s) = total_video_size s"
  by (simp_all add: store_frame_index_def Let_def)

lemma update_statistics_fields [simp]:
  "frames_written (update_statistics s) = frames_written s"
  "frame_indexes (update_statistics s) = frame_indexes s"
  "num_frames_allocated (update_statistics s) = num_frames_allocated s"
  "current_screen_size (update_statistics s) = current_screen_size s"
  "current_audio_samples (update_statistics s) = current_audio_samples s"
  "current_is_keyframe (update_statistics s) = current_is_keyframe s"
  "num_streams (update_statistics s) = num_streams s"
  "sample_size (update_statistics s) = sample_size s"
  "audio_buffer (update_statistics s) = audio_buffer s"
  "audio_buffer_size (update_statistics s) = audio_buffer_size s"
  "video_buffer (update_statistics s) = video_buffer s"
  "video_buffer_size (update_statistics s) = video_buffer_size s"
  "video_codec (update_statistics s) = video_codec s"
  "codec_data (update_statistics s) = codec_data s"
  "size_movi (update_statistics s) = size_movi s"
  "size_riff (update_statistics s) = size_riff s"
  "byteswritten (update_statistics s) = byteswritten s"
  "samples_written (update_statistics s) = samples_written s"
  "fps (update_statistics s) = fps s"
  "keyframe_interval (update_statistics s) = keyframe_interval s"
  "keyframe_residual (update_statistics s) = keyframe_residual s"
  by (simp_all add: update_statistics_def Let_def)

lemma next_keyframe_fields [simp]:
  "frames_written (next_keyframe s) = frames_written s"
  "frame_indexes (next_keyframe s) = frame_indexes s"
  "num_frames_allocated (next_keyframe s) = num_frames_allocated s"
  "current_screen_size (next_keyframe s) = current_screen_size s"
  "current_audio_samples (next_keyframe s) = current_audio_samples s"
  "num_streams (next_keyframe s) = num_streams s"
  "sample_size (next_keyframe s) = sample_size s"
  "audio_buffer (next_keyframe s) = audio_buffer s"
  "audio_buffer_size (next_keyframe s) = audio_buffer_size s"
  "video_buffer (next_keyframe s) = video_buffer s"
  "video_buffer_size (next_keyframe s) = video_buffer_size s"
  "video_codec (next_keyframe s) = video_codec s"
  "codec_data (next_keyframe s) = codec_data s"
  "size_movi (next_keyframe s) = size_movi s"
  "size_riff (next_keyframe s) = size_riff s"
  "byteswritten (next_keyframe s) = byteswritten s"
  "samples_written (next_keyframe s) = samples_written s"
  "fps (next_keyframe s) = fps s"
  "keyframe_interval (next_keyframe s) = keyframe_interval s"
  by (simp_all add: next_keyframe_def Let_def)

lemma next_keyframe_no_interframes:
  "video_codec s = Some c \<Longrightarrow> \<not> uses_interframes c \<Longrightarrow> current_is_keyframe (next_keyframe s)"
  by (simp add: next_keyframe_def)

text \<open>\<^verbatim>\<open>AVI_WriteFrame\<close> in one piece: the file after it, the statics after it, its result.\<close>

lemma AVI_WriteFrame_file:
  "fst (snd (AVI_WriteFrame fp s)) = fputs (AVI_frame_bytes s) fp"
  by (simp add: AVI_WriteFrame_def write_frame_chunks_eq Let_def)

lemma AVI_WriteFrame_fields [simp]:
  "frames_written (snd (snd (AVI_WriteFrame fp s))) = frames_written s + 1"
  "current_screen_size (snd (snd (AVI_WriteFrame fp s))) = - 1"
  "current_audio_samples (snd (snd (AVI_WriteFrame fp s))) = - 1"
  "num_streams (snd (snd (AVI_WriteFrame fp s))) = num_streams s"
  "sample_size (snd (snd (AVI_WriteFrame fp s))) = sample_size s"
  "audio_buffer (snd (snd (AVI_WriteFrame fp s))) = audio_buffer s"
  "audio_buffer_size (snd (snd (AVI_WriteFrame fp s))) = audio_buffer_size s"
  "video_buffer (snd (snd (AVI_WriteFrame fp s))) = video_buffer s"
  "video_buffer_size (snd (snd (AVI_WriteFrame fp s))) = video_buffer_size s"
  "video_codec (snd (snd (AVI_WriteFrame fp s))) = video_codec s"
  "codec_data (snd (snd (AVI_WriteFrame fp s))) = codec_data s"
  "size_movi (snd (snd (AVI_WriteFrame fp s))) = size_movi s"
  "size_riff (snd (snd (AVI_WriteFrame fp s))) = size_riff s"
  "fps (snd (snd (AVI_WriteFrame fp s))) = fps s"
  "keyframe_interval (snd (snd (AVI_WriteFrame fp s))) = keyframe_interval s"
  by (simp_all add: AVI_WriteFrame_def write_frame_chunks_eq Let_def)

lemma AVI_WriteFrame_byteswritten:
  "byteswritten (snd (snd (AVI_WriteFrame fp s)))
     = byteswritten s + word_of_int (frame_growth fp s + 32)"
  by (simp add: AVI_WriteFrame_def write_frame_chunks_eq Let_def frame_growth_def)

lemma AVI_WriteFrame_result:
  "fst (AVI_WriteFrame fp s) =
     (if byteswritten s + word_of_int (frame_growth fp s + 32) > MAX_RECORDING_SIZE then 0
      else if frame_growth fp s = expected_frame_size s then 1 else 0)"
  by (simp add: AVI_WriteFrame_def write_frame_chunks_eq Let_def frame_growth_def)

lemma AVI_WriteFrame_index:
  "frame_indexes (snd (snd (AVI_WriteFrame fp s))) =
     frame_indexes (store_frame_index (frame_audio_size s) s)"
  "num_frames_allocated (snd (snd (AVI_WriteFrame fp s))) =
     num_frames_allocated (store_frame_index (frame_audio_size s) s)"
  by (simp_all add: AVI_WriteFrame_def write_frame_chunks_eq Let_def store_frame_index_def)

lemma AVI_WriteFrame_keyframe:
  "video_codec s = Some c \<Longrightarrow> \<not> uses_interframes c \<Longrightarrow>
     current_is_keyframe (snd (snd (AVI_WriteFrame fp s)))"
  by (simp add: AVI_WriteFrame_def write_frame_chunks_eq Let_def next_keyframe_no_interframes)


section \<open>The AVI writer: header and session start\<close>

lemma put_palette_fputs_aux:
  "fold (\<lambda>i fp. fputc 0 (fputc (Colours_GetR env i)
                     (fputc (Colours_GetG env i) (fputc (Colours_GetB env i) fp)))) xs fp
   = fputs (concat (map (\<lambda>i. [Colours_GetB env i, Colours_GetG env i, Colours_GetR env i, 0]) xs)) fp"
  by (induction xs arbitrary: fp) (simp_all add: fputs_def)

lemma put_palette_fputs: "put_palette env fp = fputs (palette_bytes env) fp"
  unfolding put_palette_def palette_bytes_def by (rule put_palette_fputs_aux)

lemma length_palette_aux:
  "length (concat (map (\<lambda>i. [f i, g i, h i, (0::UBYTE)]) xs)) = 4 * length xs"
  by (induction xs) simp_all

lemma length_palette_bytes [simp]: "length (palette_bytes env) = 1024"
  unfolding palette_bytes_def by (simp add: length_palette_aux)

lemma put_audio_strl_fputs: "put_audio_strl env s fp = fputs (audio_strl_bytes env s) fp"
  by (simp add: put_audio_strl_def audio_strl_bytes_def Let_def fputl_fputs fputw_fputs
      fputc_fputs fputs_append)

lemma length_audio_strl_bytes [simp]: "length (audio_strl_bytes env s) = 122"
  by (simp add: audio_strl_bytes_def)

text \<open>\<^verbatim>\<open>AVI_WriteHeader\<close> is a seek to 0 and one write of the header bytes.\<close>

lemma AVI_WriteHeader_eq:
  "AVI_WriteHeader env fp s =
     (let fp1 = fputs (AVI_header_prefix env s) (snd (fseek_set fp 0));
          fp2 = fputs (cstr ''movi'') fp1
      in (if ftell fp2 = 12 + 8 + AVI_list_size s + 12 then 1 else 0, fp2,
          s\<lparr>size_movi := word_of_int (ftell fp1)\<rparr>))"
  by (simp add: AVI_WriteHeader_def AVI_header_prefix_def AVI_list_size_def Let_def
      fputl_fputs fputw_fputs fputs_Cons fputs_append fwrite_file put_palette_fputs
      put_audio_strl_fputs)

lemma length_AVI_header_prefix:
  assumes "4 \<le> length (codec_bytes fourcc s)" "4 \<le> length (codec_bytes avi_compression s)"
  shows "int (length (AVI_header_prefix env s)) = 12 + 8 + AVI_list_size s + 8"
  using assms by (simp add: AVI_header_prefix_def AVI_list_size_def Let_def)

lemma length_AVI_header_prefix_le:
  "int (length (AVI_header_prefix env s)) \<le> 12 + 8 + AVI_list_size s + 8"
  by (simp add: AVI_header_prefix_def AVI_list_size_def Let_def)



lemma reset_session_fields:
  "frames_written (reset_session env s) = 0"
  "current_screen_size (reset_session env s) = - 1"
  "current_is_keyframe (reset_session env s)"
  "frame_indexes (reset_session env s) = Some (replicate 1000 0)"
  "num_frames_allocated (reset_session env s) = 1000"
  "size_riff (reset_session env s) = 0"
  "size_movi (reset_session env s) = 0"
  "video_codec (reset_session env s) = video_codec s"
  "requested_video_codec (reset_session env s) = requested_video_codec s"
  "codec_data (reset_session env s) = codec_data s"
  "fps (reset_session env s) = (if tv_mode_PAL env then Atari800_FPS_PAL env else Atari800_FPS_NTSC env)"
  by (simp_all add: reset_session_def set_video_margins_def Let_def FRAME_INDEX_ALLOC_SIZE_def)

lemma select_codec_fields:
  "frames_written (select_codec best s) = frames_written s"
  "current_screen_size (select_codec best s) = current_screen_size s"
  "current_is_keyframe (select_codec best s) = current_is_keyframe s"
  "frame_indexes (select_codec best s) = frame_indexes s"
  "num_frames_allocated (select_codec best s) = num_frames_allocated s"
  "size_riff (select_codec best s) = size_riff s"
  "size_movi (select_codec best s) = size_movi s"
  "codec_data (select_codec best s) = codec_data s"
  "fps (select_codec best s) = fps s"
  "video_codec (select_codec best s) =
     (if video_codec s = None
      then (if requested_video_codec s = None then Some best else requested_video_codec s)
      else video_codec s)"
  by (simp_all add: select_codec_def)

lemma select_codec_Some: "video_codec (select_codec best s) \<noteq> None"
  by (simp add: select_codec_def)

lemma setup_audio_fields:
  "frames_written (setup_audio env s) = frames_written s"
  "current_screen_size (setup_audio env s) = current_screen_size s"
  "current_audio_samples (setup_audio env s) = - 1"
  "current_is_keyframe (setup_audio env s) = current_is_keyframe s"
  "frame_indexes (setup_audio env s) = frame_indexes s"
  "num_frames_allocated (setup_audio env s) = num_frames_allocated s"
  "size_riff (setup_audio env s) = size_riff s"
  "size_movi (setup_audio env s) = size_movi s"
  "codec_data (setup_audio env s) = codec_data s"
  "video_codec (setup_audio env s) = video_codec s"
  "video_buffer (setup_audio env s) = video_buffer s"
  "video_buffer_size (setup_audio env s) = video_buffer_size s"
  "fps (setup_audio env s) = fps s"
  "num_streams (setup_audio env s) = (if Sound_enabled env then 2 else 1)"
  "sample_size (setup_audio env s) = (if Sound_enabled env then (if snd_16bit env then 2 else 1) else 0)"
  "audio_buffer_size (setup_audio env s) =
     (if Sound_enabled env
      then c_trunc (of_int (POKEYSND_playback_freq env * POKEYSND_num_pokeys env
                      * (if snd_16bit env then 2 else 1)) / fps s) + 1024
      else 0)"
  "audio_buffer (setup_audio env s) =
     (if Sound_enabled env then Some (replicate (nat (audio_buffer_size (setup_audio env s))) 0)
      else None)"
  by (simp_all add: setup_audio_def Let_def)


lemma fseek0_fresh:
  "snd (fseek_set \<lparr>contents = [], fpos = 0, capacity = cap, seekable = sk, is_open = True\<rparr> 0)
     = \<lparr>contents = [], fpos = 0, capacity = cap, seekable = sk, is_open = True\<rparr>"
  by (simp add: fseek_set_def)



lemma init_codec_fields:
  "frames_written (init_codec s) = frames_written s"
  "current_screen_size (init_codec s) = current_screen_size s"
  "current_audio_samples (init_codec s) = current_audio_samples s"
  "current_is_keyframe (init_codec s) = current_is_keyframe s"
  "frame_indexes (init_codec s) = frame_indexes s"
  "num_frames_allocated (init_codec s) = num_frames_allocated s"
  "size_riff (init_codec s) = size_riff s"
  "size_movi (init_codec s) = size_movi s"
  "video_codec (init_codec s) = video_codec s"
  "fps (init_codec s) = fps s"
  by (simp_all add: init_codec_def Let_def case_prod_beta)

lemma AVI_prepare_fields:
  "frames_written (AVI_prepare env best s0) = 0"
  "current_screen_size (AVI_prepare env best s0) = - 1"
  "current_audio_samples (AVI_prepare env best s0) = - 1"
  "current_is_keyframe (AVI_prepare env best s0)"
  "frame_indexes (AVI_prepare env best s0) = Some (replicate 1000 0)"
  "num_frames_allocated (AVI_prepare env best s0) = 1000"
  "size_riff (AVI_prepare env best s0) = 0"
  "size_movi (AVI_prepare env best s0) = 0"
  "num_streams (AVI_prepare env best s0) = (if Sound_enabled env then 2 else 1)"
  "sample_size (AVI_prepare env best s0) =
     (if Sound_enabled env then (if snd_16bit env then 2 else 1) else 0)"
  "video_codec (AVI_prepare env best s0) =
       (if video_codec s0 = None
        then (if requested_video_codec s0 = None then Some best else requested_video_codec s0)
        else video_codec s0)"
  "video_buffer (AVI_prepare env best s0) =
     Some (replicate (nat (video_buffer_size (AVI_prepare env best s0))) 0)"
  "audio_buffer (AVI_prepare env best s0) =
     (if Sound_enabled env
      then Some (replicate (nat (audio_buffer_size (AVI_prepare env best s0))) 0) else None)"
  "fps (AVI_prepare env best s0) =
     (if tv_mode_PAL env then Atari800_FPS_PAL env else Atari800_FPS_NTSC env)"
  by (simp_all add: AVI_prepare_def Let_def reset_session_fields select_codec_fields
      setup_audio_fields init_codec_fields)

lemma AVI_prepare_audio_buffer_size:
  "audio_buffer_size (AVI_prepare env best s0) =
     (if Sound_enabled env
      then c_trunc (of_int (POKEYSND_playback_freq env * POKEYSND_num_pokeys env
                      * (if snd_16bit env then 2 else 1))
                    / (if tv_mode_PAL env then Atari800_FPS_PAL env else Atari800_FPS_NTSC env))
           + 1024
      else 0)"
  by (simp add: AVI_prepare_def Let_def reset_session_fields select_codec_fields
      setup_audio_fields init_codec_fields)

lemma AVI_prepare_video_buffer_size:
  "video_buffer_size (AVI_prepare env best s0) =
     video_buffer_size (init_codec (select_codec best (reset_session env s0)))"
  by (simp add: AVI_prepare_def Let_def setup_audio_fields)


text \<open>What a successful \<^verbatim>\<open>AVI_OpenFile\<close> leaves behind.\<close>

lemma AVI_OpenFile_SomeE:
  assumes "AVI_OpenFile env best name s0 = (Some fp, s)"
  obtains cap sk where "files env name = Some (cap, sk)"
    and "0 \<le> video_buffer_size (AVI_prepare env best s0)"
    and "fp = fputs (cstr ''movi'') (fputs (AVI_header_prefix env (AVI_prepare env best s0))
               \<lparr>contents = [], fpos = 0, capacity = cap, seekable = sk, is_open = True\<rparr>)"
    and "ftell fp = 12 + 8 + AVI_list_size (AVI_prepare env best s0) + 12"
    and "s = (AVI_prepare env best s0)
               \<lparr>size_movi := word_of_int (ftell (fputs (AVI_header_prefix env (AVI_prepare env best s0))
                   \<lparr>contents = [], fpos = 0, capacity = cap, seekable = sk, is_open = True\<rparr>)),
                byteswritten := word_of_int (ftell fp + 8),
                total_video_size := 0, smallest_video_frame := 0xffffffff,
                largest_video_frame := 0\<rparr>"
proof -
  obtain cap sk where f: "files env name = Some (cap, sk)"
    using assms by (auto simp: AVI_OpenFile_def fopen_wb_def split: option.splits)
  define f0 where "f0 = \<lparr>contents = [], fpos = 0, capacity = cap, seekable = sk, is_open = True\<rparr>"
  define s3 where "s3 = init_codec (select_codec best (reset_session env s0))"
  define P where "P = AVI_prepare env best s0"
  have P: "P = setup_audio env (s3\<lparr>video_buffer := Some (replicate (nat (video_buffer_size s3)) 0)\<rparr>)"
    by (simp add: P_def s3_def AVI_prepare_def Let_def)
  have vb: "video_buffer_size P = video_buffer_size s3"
    by (simp add: P setup_audio_fields)
  have 1: "AVI_OpenFile env best name s0 =
      (if video_buffer_size s3 < 0 then (None, s3)
       else (case AVI_WriteHeader env f0 P of
               (ok, fp, s) \<Rightarrow>
                 if ok = 0 then (None, call_codec_end s)
                 else (Some fp, s\<lparr>byteswritten := word_of_int (ftell fp + 8),
                         total_video_size := 0, smallest_video_frame := 0xffffffff,
                         largest_video_frame := 0\<rparr>)))"
    unfolding AVI_OpenFile_def fopen_wb_def f P s3_def f0_def
    by (simp add: Let_def split del: if_split cong del: if_weak_cong)
  have nb: "\<not> video_buffer_size s3 < 0"
    using assms unfolding 1 by (auto split: if_splits)
  define fp1 where "fp1 = fputs (AVI_header_prefix env P) f0"
  have h: "AVI_WriteHeader env f0 P =
     (if ftell (fputs (cstr ''movi'') fp1) = 12 + 8 + AVI_list_size P + 12 then 1 else 0,
      fputs (cstr ''movi'') fp1, P\<lparr>size_movi := word_of_int (ftell fp1)\<rparr>)"
    by (simp add: AVI_WriteHeader_eq Let_def fp1_def f0_def fseek0_fresh)
  have 2: "ftell (fputs (cstr ''movi'') fp1) = 12 + 8 + AVI_list_size P + 12"
    "fp = fputs (cstr ''movi'') fp1"
    "s = P\<lparr>size_movi := word_of_int (ftell fp1), byteswritten := word_of_int (ftell fp + 8),
            total_video_size := 0, smallest_video_frame := 0xffffffff, largest_video_frame := 0\<rparr>"
    using assms nb unfolding 1 h by (auto split: if_splits)
  show thesis
    using that[OF f] nb 2 unfolding vb[symmetric] fp1_def f0_def P_def by simp
qed

lemma AVI_OpenFile_Some:
  assumes "AVI_OpenFile env best name s0 = (Some fp, s)"
  shows "frames_written s = 0" "current_screen_size s = - 1" "current_audio_samples s = - 1"
    "current_is_keyframe s" "frame_indexes s = Some (replicate 1000 0)"
    "num_frames_allocated s = 1000"
    "num_streams s = (if Sound_enabled env then 2 else 1)"
    "sample_size s = (if Sound_enabled env then (if snd_16bit env then 2 else 1) else 0)"
    "video_codec s =
       (if video_codec s0 = None
        then (if requested_video_codec s0 = None then Some best else requested_video_codec s0)
        else video_codec s0)"
    "0 \<le> video_buffer_size s"
    "video_buffer s = Some (replicate (nat (video_buffer_size s)) 0)"
    "audio_buffer s = (if Sound_enabled env then Some (replicate (nat (audio_buffer_size s)) 0) else None)"
    "audio_buffer_size s = audio_buffer_size (AVI_prepare env best s0)"
    "video_buffer_size s = video_buffer_size (AVI_prepare env best s0)"
    "int (fpos fp) = 12 + 8 + AVI_list_size s + 12"
    "length (contents fp) = fpos fp" "fpos fp \<le> capacity fp"
    "size_movi s = word_of_int (12 + 8 + AVI_list_size s + 8)"
    "byteswritten s = word_of_int (12 + 8 + AVI_list_size s + 12 + 8)"
    "seekable fp"
proof -
  define P where "P = AVI_prepare env best s0"
  from assms obtain cap sk where f: "files env name = Some (cap, sk)"
    and a: "0 \<le> video_buffer_size P"
      "fp = fputs (cstr ''movi'') (fputs (AVI_header_prefix env P)
               \<lparr>contents = [], fpos = 0, capacity = cap, seekable = sk, is_open = True\<rparr>)"
      "ftell fp = 12 + 8 + AVI_list_size P + 12"
      "s = P\<lparr>size_movi := word_of_int (ftell (fputs (AVI_header_prefix env P)
                   \<lparr>contents = [], fpos = 0, capacity = cap, seekable = sk, is_open = True\<rparr>)),
                byteswritten := word_of_int (ftell fp + 8),
                total_video_size := 0, smallest_video_frame := 0xffffffff,
                largest_video_frame := 0\<rparr>"
    unfolding P_def by (rule AVI_OpenFile_SomeE)
  define f0 where "f0 = \<lparr>contents = [], fpos = 0, capacity = cap, seekable = sk, is_open = True\<rparr>"
  define fp1 where "fp1 = fputs (AVI_header_prefix env P) f0"
  note a = a[folded f0_def, folded fp1_def]
  have l: "AVI_list_size s = AVI_list_size P" by (simp add: a(4) AVI_list_size_def)
  show "frames_written s = 0" "current_screen_size s = - 1" "current_audio_samples s = - 1"
    "current_is_keyframe s" "frame_indexes s = Some (replicate 1000 0)"
    "num_frames_allocated s = 1000"
    "num_streams s = (if Sound_enabled env then 2 else 1)"
    "sample_size s = (if Sound_enabled env then (if snd_16bit env then 2 else 1) else 0)"
    by (simp_all add: a(4) P_def AVI_prepare_fields)
  show "video_codec s =
       (if video_codec s0 = None
        then (if requested_video_codec s0 = None then Some best else requested_video_codec s0)
        else video_codec s0)"
    by (simp add: a(4) P_def AVI_prepare_fields)
  show "0 \<le> video_buffer_size s" using a(1) by (simp add: a(4))
  show "video_buffer s = Some (replicate (nat (video_buffer_size s)) 0)"
    by (simp add: a(4) P_def AVI_prepare_fields)
  show "audio_buffer s = (if Sound_enabled env then Some (replicate (nat (audio_buffer_size s)) 0) else None)"
    by (simp add: a(4) P_def AVI_prepare_fields)
  show "audio_buffer_size s = audio_buffer_size (AVI_prepare env best s0)"
    by (simp add: a(4) P_def)
  show "video_buffer_size s = video_buffer_size (AVI_prepare env best s0)"
    by (simp add: a(4) P_def)
  have "0 \<le> AVI_list_size P" by (simp add: AVI_list_size_def)
  then show sk: "seekable fp"
    using a(3) by (simp add: ftell_def split: if_splits)
  then have sk1: "seekable fp1" by (simp add: a(2))
  show p: "int (fpos fp) = 12 + 8 + AVI_list_size s + 12"
    using a(3) sk by (simp add: ftell_def l)
  have e0: "fpos f0 = length (contents f0)" by (simp add: f0_def)
  have e1: "fpos fp1 = length (contents fp1)" unfolding fp1_def by (rule fputs_at_end[OF e0])
  show "length (contents fp) = fpos fp" unfolding a(2) using fputs_at_end[OF e1] by simp
  have c0: "fpos f0 \<le> capacity f0" by (simp add: f0_def)
  have c1: "fpos fp1 \<le> capacity fp1" unfolding fp1_def using fputs_within[OF c0] by simp
  show "fpos fp \<le> capacity fp" unfolding a(2) using fputs_within[OF c1] by simp
  have "fpos fp = min (fpos fp1 + 4) (capacity fp1)"
    unfolding a(2) using c1 by (simp add: fpos_fputs)
  moreover have "fpos fp1 \<le> length (AVI_header_prefix env P)"
    unfolding fp1_def by (simp add: fpos_fputs f0_def)
  moreover have "int (length (AVI_header_prefix env P)) \<le> 12 + 8 + AVI_list_size P + 8"
    by (rule length_AVI_header_prefix_le)
  ultimately have "int (fpos fp1) = 12 + 8 + AVI_list_size P + 8"
    using p l by (simp add: min_def split: if_splits)
  moreover have "size_movi s = word_of_int (int (fpos fp1))"
    using sk1 by (simp add: a(4) ftell_def)
  ultimately show "size_movi s = word_of_int (12 + 8 + AVI_list_size s + 8)"
    unfolding l by simp
  have "byteswritten s = word_of_int (ftell fp + 8)"
    by (simp add: a(4))
  then show "byteswritten s = word_of_int (12 + 8 + AVI_list_size s + 12 + 8)"
    unfolding l a(3) by simp
qed



lemma AVI_OpenFile_succeeds:
  assumes f: "files env name = Some (cap, sk)"
    and vb: "0 \<le> video_buffer_size (AVI_prepare env best s0)"
    and cb: "4 \<le> length (codec_bytes fourcc (AVI_prepare env best s0))"
            "4 \<le> length (codec_bytes avi_compression (AVI_prepare env best s0))"
    and cap: "12 + 8 + AVI_list_size (AVI_prepare env best s0) + 12 \<le> int cap"
    and sk: "sk"
  shows "fst (AVI_OpenFile env best name s0) \<noteq> None"
    and "capacity (the (fst (AVI_OpenFile env best name s0))) = cap"
    and "seekable (the (fst (AVI_OpenFile env best name s0))) = sk"
proof -
  define f0 where "f0 = \<lparr>contents = [], fpos = 0, capacity = cap, seekable = sk, is_open = True\<rparr>"
  define s3 where "s3 = init_codec (select_codec best (reset_session env s0))"
  define P where "P = AVI_prepare env best s0"
  have P: "P = setup_audio env (s3\<lparr>video_buffer := Some (replicate (nat (video_buffer_size s3)) 0)\<rparr>)"
    by (simp add: P_def s3_def AVI_prepare_def Let_def)
  have vb3: "video_buffer_size P = video_buffer_size s3"
    by (simp add: P setup_audio_fields)
  have 1: "AVI_OpenFile env best name s0 =
      (if video_buffer_size s3 < 0 then (None, s3)
       else (case AVI_WriteHeader env f0 P of
               (ok, fp, s) \<Rightarrow>
                 if ok = 0 then (None, call_codec_end s)
                 else (Some fp, s\<lparr>byteswritten := word_of_int (ftell fp + 8),
                         total_video_size := 0, smallest_video_frame := 0xffffffff,
                         largest_video_frame := 0\<rparr>)))"
    unfolding AVI_OpenFile_def fopen_wb_def f P s3_def f0_def
    by (simp add: Let_def split del: if_split cong del: if_weak_cong)
  define fp1 where "fp1 = fputs (AVI_header_prefix env P) f0"
  have h: "AVI_WriteHeader env f0 P =
     (if ftell (fputs (cstr ''movi'') fp1) = 12 + 8 + AVI_list_size P + 12 then 1 else 0,
      fputs (cstr ''movi'') fp1, P\<lparr>size_movi := word_of_int (ftell fp1)\<rparr>)"
    by (simp add: AVI_WriteHeader_eq Let_def fp1_def f0_def fseek0_fresh)
  have lp: "int (length (AVI_header_prefix env P)) = 12 + 8 + AVI_list_size P + 8"
    using cb unfolding P_def by (rule length_AVI_header_prefix)
  have "fpos (fputs (cstr ''movi'') fp1) = length (AVI_header_prefix env P) + 4"
    using cap lp unfolding fp1_def f0_def P_def[symmetric] by (simp add: fpos_fputs)
  then have t: "ftell (fputs (cstr ''movi'') fp1) = 12 + 8 + AVI_list_size P + 12"
    using lp sk by (simp add: ftell_def fp1_def f0_def)
  have 2: "AVI_OpenFile env best name s0 =
     (Some (fputs (cstr ''movi'') fp1),
      P\<lparr>size_movi := word_of_int (ftell fp1),
        byteswritten := word_of_int (ftell (fputs (cstr ''movi'') fp1) + 8),
        total_video_size := 0, smallest_video_frame := 0xffffffff, largest_video_frame := 0\<rparr>)"
    unfolding 1 h using vb t by (simp add: vb3[symmetric] P_def[symmetric])
  show "fst (AVI_OpenFile env best name s0) \<noteq> None" by (simp add: 2)
  show "capacity (the (fst (AVI_OpenFile env best name s0))) = cap"
    by (simp add: 2 fp1_def f0_def)
  show "seekable (the (fst (AVI_OpenFile env best name s0))) = sk"
    by (simp add: 2 fp1_def f0_def)
qed


section \<open>The AVI writer: the two entry points of the host\<close>


lemma encode_frame_fields:
  "fst (snd (encode_frame scr fp s)) = fp"
  "frames_written (snd (snd (encode_frame scr fp s))) = frames_written s"
  "frame_indexes (snd (snd (encode_frame scr fp s))) = frame_indexes s"
  "num_frames_allocated (snd (snd (encode_frame scr fp s))) = num_frames_allocated s"
  "current_audio_samples (snd (snd (encode_frame scr fp s))) = current_audio_samples s"
  "current_is_keyframe (snd (snd (encode_frame scr fp s))) = current_is_keyframe s"
  "num_streams (snd (snd (encode_frame scr fp s))) = num_streams s"
  "sample_size (snd (snd (encode_frame scr fp s))) = sample_size s"
  "audio_buffer (snd (snd (encode_frame scr fp s))) = audio_buffer s"
  "audio_buffer_size (snd (snd (encode_frame scr fp s))) = audio_buffer_size s"
  "video_codec (snd (snd (encode_frame scr fp s))) = video_codec s"
  "byteswritten (snd (snd (encode_frame scr fp s))) = byteswritten s"
  "size_movi (snd (snd (encode_frame scr fp s))) = size_movi s"
  by (simp_all add: encode_frame_def Let_def case_prod_beta split: option.splits)

lemma encode_frame_result:
  assumes "video_codec s = Some c"
  shows "current_screen_size (snd (snd (encode_frame scr fp s)))
           = fst (codec_frame c scr (current_is_keyframe s) (mem (video_buffer s))
                    (video_buffer_size s) (codec_data s))"
    and "fst (encode_frame scr fp s) = (if 0 \<le> current_screen_size (snd (snd (encode_frame scr fp s))) then 1 else 0)"
  using assms by (simp_all add: encode_frame_def Let_def case_prod_beta)

text \<open>The cases of \<^verbatim>\<open>AVI_AddVideoFrame\<close>.\<close>

lemma AVI_AddVideoFrame_idle:
  assumes "current_screen_size s = - 1" and "- 1 \<le> current_audio_samples s"
  shows "AVI_AddVideoFrame scr fp s = encode_frame scr fp s"
  using assms by (simp add: AVI_AddVideoFrame_def)

lemma AVI_AddVideoFrame_flushes:
  assumes "0 \<le> current_screen_size s" and "num_streams s = 1 \<or> 0 < current_audio_samples s"
  shows "AVI_AddVideoFrame scr fp s =
           (if fst (AVI_WriteFrame fp s) = 0 then AVI_WriteFrame fp s
            else encode_frame scr (fst (snd (AVI_WriteFrame fp s))) (snd (snd (AVI_WriteFrame fp s))))"
  using assms by (auto simp add: AVI_AddVideoFrame_def case_prod_beta Let_def prod_eq_iff)

lemma AVI_AddVideoFrame_out_of_phase:
  assumes "0 \<le> current_screen_size s" and "num_streams s \<noteq> 1" and "current_audio_samples s \<le> 0"
  shows "AVI_AddVideoFrame scr fp s = (0, fp, s)"
  using assms by (simp add: AVI_AddVideoFrame_def)

lemma AVI_AddVideoFrame_poisoned:
  assumes "current_screen_size s < - 1 \<or> (current_screen_size s < 0 \<and> current_audio_samples s < - 1)"
  shows "AVI_AddVideoFrame scr fp s = (0, fp, s)"
  using assms by (auto simp add: AVI_AddVideoFrame_def)

text \<open>The tail of \<^verbatim>\<open>AVI_AddAudioSamples\<close>, from the size check on, and its cases.\<close>

lemma AVI_AddAudioSamples_idle:
  assumes "current_audio_samples s = - 1" and "- 1 \<le> current_screen_size s"
  shows "AVI_AddAudioSamples buf n fp s = copy_samples buf n fp s"
  using assms by (simp add: AVI_AddAudioSamples_def copy_samples_def Let_def)

lemma AVI_AddAudioSamples_flushes:
  assumes "0 \<le> current_audio_samples s" and "0 \<le> current_screen_size s"
  shows "AVI_AddAudioSamples buf n fp s =
           (if fst (AVI_WriteFrame fp s) = 0 then AVI_WriteFrame fp s
            else copy_samples buf n (fst (snd (AVI_WriteFrame fp s))) (snd (snd (AVI_WriteFrame fp s))))"
  using assms by (auto simp add: AVI_AddAudioSamples_def copy_samples_def case_prod_beta Let_def prod_eq_iff)

lemma AVI_AddAudioSamples_out_of_phase:
  assumes "0 \<le> current_audio_samples s" and "current_screen_size s < 0"
  shows "AVI_AddAudioSamples buf n fp s = (0, fp, s)"
  using assms by (simp add: AVI_AddAudioSamples_def Let_def)

lemma AVI_AddAudioSamples_poisoned:
  assumes "current_audio_samples s < - 1 \<or> (current_audio_samples s < 0 \<and> current_screen_size s < - 1)"
  shows "AVI_AddAudioSamples buf n fp s = (0, fp, s)"
  using assms by (auto simp add: AVI_AddAudioSamples_def Let_def)



lemma int_mul_fits:
  assumes "INT_MIN \<le> a * b" and "a * b \<le> INT_MAX"
  shows "int_mul a b = a * b"
  using assms unfolding int_mul_def sint_sbintrunc' INT_MIN_def INT_MAX_def
  by (intro signed_take_bit_int_eq_self) simp_all

lemma copy_samples_fits:
  assumes "n * sample_size s \<le> audio_buffer_size s"
    and "INT_MIN \<le> n * sample_size s" and "n * sample_size s \<le> INT_MAX"
  shows "copy_samples buf n fp s =
           (1, fp, s\<lparr>current_audio_samples := n,
                      audio_buffer := map_option (\<lambda>ab. take (nat (n * sample_size s)) buf
                                                    @ drop (nat (n * sample_size s)) ab)
                                        (audio_buffer s)\<rparr>)"
  using assms by (simp add: copy_samples_def Let_def int_mul_fits)

lemma copy_samples_too_big:
  assumes "n * sample_size s > audio_buffer_size s"
    and "INT_MIN \<le> audio_buffer_size s" and "n * sample_size s \<le> INT_MAX"
  shows "copy_samples buf n fp s = (0, fp, s\<lparr>current_audio_samples := - 2\<rparr>)"
proof -
  have "int_mul n (sample_size s) = n * sample_size s"
    using assms by (intro int_mul_fits) simp_all
  then show ?thesis
    using assms(1) by (simp add: copy_samples_def Let_def)
qed

text \<open>
  A count whose product with the sample size does not fit 32 bits: \<open>0x40000001\<close> samples of
  two bytes give the size \<open>-2147483646\<close>, which no buffer size is below, and the call goes on
  to the copy.
\<close>

lemma int_mul_wraps: "int_mul 0x40000001 2 = - 2147483646"
  by (simp add: int_mul_def)

lemma copy_samples_wrapped:
  assumes "sample_size s = 2" and "0 \<le> audio_buffer_size s"
  shows "fst (copy_samples buf 0x40000001 fp s) = 1"
    and "current_audio_samples (snd (snd (copy_samples buf 0x40000001 fp s))) = 0x40000001"
  using assms by (simp_all add: copy_samples_def Let_def int_mul_wraps)

lemma AVI_calls_snoc:
  "AVI_calls (cs @ [c]) fp s =
     (fst (AVI_calls cs fp s)
        @ [fst (AVI_call c (fst (snd (AVI_calls cs fp s))) (snd (snd (AVI_calls cs fp s))))],
      snd (AVI_call c (fst (snd (AVI_calls cs fp s))) (snd (snd (AVI_calls cs fp s)))))"
  by (induction cs arbitrary: fp s) (simp_all add: case_prod_beta)

lemma AVI_calls_single:
  "AVI_calls [c] fp s = ([fst (AVI_call c fp s)], snd (AVI_call c fp s))"
  by (simp add: case_prod_beta)

lemma AVI_calls_Cons:
  "AVI_calls (c # cs) fp s =
     (fst (AVI_call c fp s)
        # fst (AVI_calls cs (fst (snd (AVI_call c fp s))) (snd (snd (AVI_call c fp s)))),
      snd (AVI_calls cs (fst (snd (AVI_call c fp s))) (snd (snd (AVI_call c fp s)))))"
  by (simp add: case_prod_beta)

declare AVI_calls.simps(2) [simp del]



text \<open>Once the audio sentinel is in the error range, a two-stream session refuses every
  call and changes nothing.\<close>

lemma poisoned_call:
  assumes "num_streams t = 2" and "current_audio_samples t < - 1"
  shows "AVI_call c fp t = (0, fp, t)"
proof (cases c)
  case (AddVideoFrame scr)
  show ?thesis
  proof (cases "0 \<le> current_screen_size t")
    case True
    then show ?thesis
      using assms by (simp add: AddVideoFrame AVI_AddVideoFrame_out_of_phase)
  next
    case False
    then show ?thesis
      using assms by (simp add: AddVideoFrame AVI_AddVideoFrame_poisoned)
  qed
next
  case (AddAudioSamples buf n)
  then show ?thesis
    using assms by (simp add: AVI_AddAudioSamples_poisoned)
qed

lemma poisoned_calls:
  assumes "num_streams t = 2" and "current_audio_samples t < - 1"
  shows "AVI_calls cs fp t = (replicate (length cs) 0, fp, t)"
  by (induction cs) (simp_all add: AVI_calls_Cons poisoned_call[OF assms])


section \<open>The AVI writer: the size counter\<close>


lemma frame_growth_bounds:
  "0 \<le> frame_growth fp s" "frame_growth fp s \<le> int (length (AVI_frame_bytes s))"
  by (auto simp: frame_growth_def ftell_def fpos_fputs min_def)

lemma length_AVI_chunks:
  "length (AVI_video_chunk s) \<le> 9 + nat (current_screen_size s)"
  "length (AVI_audio_chunk s) \<le> 9 + nat (sample_size s) * nat (current_audio_samples s)"
  by (auto simp add: AVI_video_chunk_def AVI_audio_chunk_def Let_def min_def)

lemma length_AVI_frame_bytes:
  "length (AVI_frame_bytes s)
     \<le> 9 + nat (current_screen_size s)
        + (if num_streams s = 2
           then 9 + nat (sample_size s) * nat (current_audio_samples s) else 0)"
  using length_AVI_chunks[of s] by (simp add: AVI_frame_bytes_def)

lemma AVI_WriteFrame_success_bound:
  "fst (AVI_WriteFrame fp s) \<noteq> 0 \<Longrightarrow>
     byteswritten (snd (snd (AVI_WriteFrame fp s))) \<le> MAX_RECORDING_SIZE"
  by (simp add: AVI_WriteFrame_result AVI_WriteFrame_byteswritten not_less split: if_splits)

lemma AVI_call_success_bound:
  assumes "fst (AVI_call c fp s) \<noteq> 0" and "byteswritten s \<le> MAX_RECORDING_SIZE"
  shows "byteswritten (snd (snd (AVI_call c fp s))) \<le> MAX_RECORDING_SIZE"
proof (cases c)
  case (AddVideoFrame scr)
  show ?thesis
    using assms AVI_WriteFrame_success_bound[of fp s]
    by (auto simp: AddVideoFrame AVI_AddVideoFrame_def case_prod_beta encode_frame_fields
        split: if_splits)
next
  case (AddAudioSamples buf n)
  show ?thesis
    using assms AVI_WriteFrame_success_bound[of fp s]
    by (auto simp: AddAudioSamples AVI_AddAudioSamples_def copy_samples_def Let_def
        case_prod_beta split: if_splits)
qed

lemma AVI_calls_success_bound:
  assumes "0 \<notin> set (fst (AVI_calls cs fp s))" and "byteswritten s \<le> MAX_RECORDING_SIZE"
  shows "byteswritten (snd (snd (AVI_calls cs fp s))) \<le> MAX_RECORDING_SIZE"
  using assms
proof (induction cs arbitrary: fp s)
  case Nil
  then show ?case by simp
next
  case (Cons c cs)
  have 1: "fst (AVI_call c fp s) \<noteq> 0"
    and 2: "0 \<notin> set (fst (AVI_calls cs (fst (snd (AVI_call c fp s))) (snd (snd (AVI_call c fp s)))))"
    using Cons.prems(1) by (simp_all add: AVI_calls_Cons)
  from Cons.IH[OF 2 AVI_call_success_bound[OF 1 Cons.prems(2)]]
  show ?case by (simp add: AVI_calls_Cons)
qed

lemma byteswritten_no_wrap:
  assumes "byteswritten s \<le> MAX_RECORDING_SIZE"
    and "0 \<le> current_screen_size s" and "current_screen_size s \<le> 262143"
    and "0 \<le> frame_audio_size s" and "frame_audio_size s \<le> 8191"
    and "0 \<le> sample_size s"
  shows "uint (byteswritten (snd (snd (AVI_WriteFrame fp s))))
           = uint (byteswritten s) + frame_growth fp s + 32"
proof -
  let ?g = "frame_growth fp s"
  have a: "nat (sample_size s) * nat (current_audio_samples s) \<le> 8191" if "num_streams s = 2"
  proof (cases "0 \<le> current_audio_samples s")
    case True
    have "nat (sample_size s) * nat (current_audio_samples s)
            = nat (current_audio_samples s * sample_size s)"
      using True assms(6) by (simp add: nat_mult_distrib mult.commute)
    then show ?thesis using assms(5) that by (simp add: frame_audio_size_def)
  next
    case False
    then show ?thesis by simp
  qed
  have "length (AVI_frame_bytes s) \<le> 270352"
    using length_AVI_frame_bytes[of s] assms(2,3) a by (auto split: if_splits)
  then have g: "?g \<le> 270352"
    using frame_growth_bounds(2)[of fp s] by simp
  have b: "uint (byteswritten s) \<le> 4293918720"
    using assms(1) by (simp add: MAX_RECORDING_SIZE_def word_le_def)
  note g0 = frame_growth_bounds(1)[of fp s]
  have "uint (byteswritten s + word_of_int (?g + 32))
          = (uint (byteswritten s) + (?g + 32) mod 2 ^ LENGTH(32)) mod 2 ^ LENGTH(32)"
    by (simp only: uint_word_ariths uint_word_of_int)
  also have "(?g + 32) mod 2 ^ LENGTH(32) = ?g + 32"
    using g g0 by simp
  also have "(uint (byteswritten s) + (?g + 32)) mod 2 ^ LENGTH(32)
               = uint (byteswritten s) + (?g + 32)"
    using g g0 b by simp
  finally show ?thesis
    by (simp add: AVI_WriteFrame_byteswritten)
qed



lemma c_rem_2_nonneg: "0 \<le> a \<Longrightarrow> c_rem a 2 = a mod 2"
  by (cases "a = 0") (simp_all add: c_rem_def)

lemma c_rem_2_cases: "0 \<le> a \<Longrightarrow> c_rem a 2 = 0 \<or> c_rem a 2 = 1"
  by (simp add: c_rem_2_nonneg) presburger

text \<open>The chunks have their nominal length when the buffers hold what the sentinels
  announce.\<close>

lemma length_AVI_video_chunk:
  assumes "0 \<le> current_screen_size s"
    and "nat (current_screen_size s) \<le> length (mem (video_buffer s))"
  shows "int (length (AVI_video_chunk s))
           = 8 + current_screen_size s + c_rem (current_screen_size s) 2"
  using assms c_rem_2_cases[OF assms(1)]
  by (auto simp add: AVI_video_chunk_def)

lemma length_AVI_audio_chunk:
  assumes "0 \<le> current_audio_samples s" and "0 \<le> sample_size s"
    and "nat (sample_size s) * nat (current_audio_samples s) \<le> length (mem (audio_buffer s))"
  shows "int (length (AVI_audio_chunk s))
           = 8 + current_audio_samples s * sample_size s
               + c_rem (current_audio_samples s * sample_size s) 2"
proof -
  have p: "0 \<le> current_audio_samples s * sample_size s" using assms by simp
  have "int (nat (sample_size s) * nat (current_audio_samples s))
          = current_audio_samples s * sample_size s"
    using assms by simp
  then show ?thesis
    using assms(3) c_rem_2_cases[OF p]
    by (auto simp add: AVI_audio_chunk_def Let_def min_def)
qed

lemma length_AVI_frame_bytes_ready:
  assumes "frame_ready s"
  shows "int (length (AVI_frame_bytes s)) = expected_frame_size s"
  using assms length_AVI_video_chunk[of s] length_AVI_audio_chunk[of s]
  by (simp add: frame_ready_def AVI_frame_bytes_def expected_frame_size_def)

lemma frame_growth_room:
  assumes "frame_ready s" and "int (fpos fp) + expected_frame_size s \<le> int (capacity fp)"
    and "seekable fp"
  shows "frame_growth fp s = expected_frame_size s"
  using assms length_AVI_frame_bytes_ready[OF assms(1)]
  by (simp add: frame_growth_def ftell_def fpos_fputs)


section \<open>The AVI writer: the index chunk\<close>


lemma AVI_WriteIndex_loop_eq:
  "AVI_WriteIndex_loop fi offset fp = fputs (concat (map entry_bytes (idx1_entries fi offset))) fp"
  by (induction fi arbitrary: offset fp)
     (simp_all add: Let_def fputl_fputs fputs_append)

lemma length_idx1_entries [simp]: "length (idx1_entries fi offset) = 2 * length fi"
  by (induction fi arbitrary: offset) (simp_all add: Let_def)

lemma length_entries_bytes:
  "\<forall>e \<in> set es. length (fst e) = 4 \<Longrightarrow> length (concat (map entry_bytes es)) = 16 * length es"
  by (induction es) auto

lemma idx1_entries_tags: "\<forall>e \<in> set (idx1_entries fi offset). length (fst e) = 4"
  by (induction fi arbitrary: offset) (simp_all add: Let_def)

lemma length_idx1_bytes [simp]:
  "length (concat (map entry_bytes (idx1_entries fi offset))) = 32 * length fi"
  using length_entries_bytes[OF idx1_entries_tags, of fi offset] by simp

lemma AVI_WriteIndex_eq:
  "AVI_WriteIndex fp s =
     (if frames_written s = 0 then (0, fp)
      else (if ftell (fputs (idx1_chunk s) fp) - ftell fp
                 = 8 + int (frames_written s) * 16 * 2 then 1 else 0,
            fputs (idx1_chunk s) fp))"
  by (simp add: AVI_WriteIndex_def idx1_chunk_def Let_def AVI_WriteIndex_loop_eq fputl_fputs
      fputs_append)

lemma length_idx1_chunk:
  assumes "frames_written s \<le> length (mem_idx (frame_indexes s))"
  shows "length (idx1_chunk s) = 8 + 32 * frames_written s"
  using assms by (simp add: idx1_chunk_def min_def)

text \<open>Reading an entry back from a file image that contains the entries.\<close>

lemma read_entry_head:
  assumes "length tag = 4" and "length pre = p"
  shows "read_idx1_entry (pre @ entry_bytes (tag, fl, off, sz) @ post) p 0 = (tag, fl, off, sz)"
proof -
  have p: "p = length pre" using assms(2) by simp
  have 1: "take 4 (drop p (pre @ tag @ le32 fl @ le32 off @ le32 sz @ post)) = tag"
    unfolding p using assms(1) by simp
  have 2: "read_le32 (pre @ tag @ le32 fl @ le32 off @ le32 sz @ post) (p + 4) = fl"
    using read_le32_at[of "pre @ tag" "p + 4" fl "le32 off @ le32 sz @ post"] assms(1)
    unfolding p by simp
  have 3: "read_le32 (pre @ tag @ le32 fl @ le32 off @ le32 sz @ post) (p + 8) = off"
    using read_le32_at[of "pre @ tag @ le32 fl" "p + 8" off "le32 sz @ post"] assms(1)
    unfolding p by simp
  have 4: "read_le32 (pre @ tag @ le32 fl @ le32 off @ le32 sz @ post) (p + 12) = sz"
    using read_le32_at[of "pre @ tag @ le32 fl @ le32 off" "p + 12" sz post] assms(1)
    unfolding p by simp
  show ?thesis
    unfolding read_idx1_entry_def entry_bytes.simps append_assoc mult_0_right add_0_right
    by (simp only: 1 2 3 4)
qed

lemma length_entry_bytes: "length (fst e) = 4 \<Longrightarrow> length (entry_bytes e) = 16"
  by (cases e) simp

lemma read_idx1_entry_nth:
  assumes "\<forall>e \<in> set es. length (fst e) = 4" and "length pre = p" and "k < length es"
  shows "read_idx1_entry (pre @ concat (map entry_bytes es) @ post) p k = es ! k"
  using assms
proof (induction es arbitrary: pre p k)
  case Nil
  then show ?case by simp
next
  case (Cons e es)
  obtain tag fl off sz where e: "e = (tag, fl, off, sz)" by (cases e)
  have t: "length tag = 4" using Cons.prems(1) by (simp add: e)
  show ?case
  proof (cases k)
    case 0
    show ?thesis
      using read_entry_head[OF t Cons.prems(2), of fl off sz "concat (map entry_bytes es) @ post"]
      by (simp add: 0 e)
  next
    case (Suc j)
    have a: "\<forall>e \<in> set es. length (fst e) = 4" using Cons.prems(1) by simp
    have b: "length (pre @ entry_bytes e) = p + 16"
      using Cons.prems(2) t by (simp add: e)
    have c: "j < length es" using Cons.prems(3) Suc by simp
    have "read_idx1_entry ((pre @ entry_bytes e) @ concat (map entry_bytes es) @ post) (p + 16) j
            = es ! j"
      by (rule Cons.IH[OF a b c])
    moreover have "read_idx1_entry bs (p + 16) j = read_idx1_entry bs p (Suc j)" for bs
      by (simp add: read_idx1_entry_def add.assoc add.left_commute)
    ultimately show ?thesis
      by (simp add: Suc)
  qed
qed



lemma AVI_WriteIndex_room:
  assumes "0 < frames_written s" and "frames_written s \<le> length (mem_idx (frame_indexes s))"
    and "fpos fp + (8 + 32 * frames_written s) \<le> capacity fp" and "seekable fp"
  shows "AVI_WriteIndex fp s = (1, fputs (idx1_chunk s) fp)"
  using assms by (simp add: AVI_WriteIndex_eq ftell_def fpos_fputs length_idx1_chunk)

lemma AVI_WriteHeader_room:
  assumes "seekable fp"
    and "4 \<le> length (codec_bytes fourcc s)" "4 \<le> length (codec_bytes avi_compression s)"
    and "12 + 8 + AVI_list_size s + 12 \<le> int (capacity fp)"
  shows "fst (AVI_WriteHeader env fp s) = 1"
    and "fst (snd (AVI_WriteHeader env fp s))
           = fputs (AVI_header_prefix env s @ cstr ''movi'') (fp\<lparr>fpos := 0\<rparr>)"
proof -
  note l = length_AVI_header_prefix[OF assms(2,3), of env]
  have "int (fpos (fputs (cstr ''movi'') (fputs (AVI_header_prefix env s) (fp\<lparr>fpos := 0\<rparr>))))
          = 12 + 8 + AVI_list_size s + 12"
    using assms(4) l by (simp add: fpos_fputs)
  then show "fst (AVI_WriteHeader env fp s) = 1"
    using assms(1) by (simp add: AVI_WriteHeader_eq Let_def fseek_set_def ftell_def)
  show "fst (snd (AVI_WriteHeader env fp s))
           = fputs (AVI_header_prefix env s @ cstr ''movi'') (fp\<lparr>fpos := 0\<rparr>)"
    using assms(1) by (simp add: AVI_WriteHeader_eq Let_def fseek_set_def fputs_append)
qed

lemma AVI_WriteFrame_room:
  assumes "frame_ready s" and "int (fpos fp) + expected_frame_size s \<le> int (capacity fp)"
    and "byteswritten s + word_of_int (expected_frame_size s + 32) \<le> MAX_RECORDING_SIZE"
    and "seekable fp"
  shows "fst (AVI_WriteFrame fp s) = 1"
  using assms frame_growth_room[OF assms(1,2,4)]
  by (simp add: AVI_WriteFrame_result not_less[symmetric])

text \<open>\<^verbatim>\<open>AVI_CloseFile\<close> when nothing was recorded and no complete frame is pending.\<close>

lemma call_codec_end_fields:
  "video_buffer (call_codec_end s) = video_buffer s"
  "audio_buffer (call_codec_end s) = audio_buffer s"
  "frame_indexes (call_codec_end s) = frame_indexes s"
  "size_riff (call_codec_end s) = size_riff s"
  "video_codec s = Some c \<Longrightarrow> codec_data (call_codec_end s) = snd (codec_end c (codec_data s))"
  by (simp_all add: call_codec_end_def split: option.splits)

lemma AVI_CloseFile_nothing:
  assumes "frames_written s = 0"
    and "\<not> (0 \<le> current_screen_size s \<and> 0 \<le> current_audio_samples s)"
  shows "AVI_CloseFile env fp s =
     (0, fclose fp,
      (call_codec_end
         ((if audio_buffer_size s > 0
           then s\<lparr>size_movi := word_of_int (ftell fp) - size_movi s, audio_buffer := None\<rparr>
           else s\<lparr>size_movi := word_of_int (ftell fp) - size_movi s\<rparr>)
            \<lparr>audio_buffer_size := 0, current_audio_samples := - 1\<rparr>))
        \<lparr>video_buffer := None, video_buffer_size := 0, current_screen_size := - 1,
         frame_indexes := None, num_frames_allocated := 0\<rparr>)"
proof -
  have n: "(0 \<le> current_screen_size s \<and> 0 \<le> current_audio_samples s) = False"
    using assms(2) by blast
  show ?thesis
    unfolding AVI_CloseFile_def n
    using assms(1) by (cases "0 < audio_buffer_size s") (simp_all add: AVI_WriteIndex_eq Let_def)
qed



lemma store_frame_index_length:
  "length (mem_idx (frame_indexes s)) \<le> length (mem_idx (frame_indexes (store_frame_index a s)))"
  by (cases "frame_indexes s") (simp_all add: store_frame_index_def Let_def mem_idx_def)

lemma AVI_WriteFrame_index_length:
  "length (mem_idx (frame_indexes s))
     \<le> length (mem_idx (frame_indexes (snd (snd (AVI_WriteFrame fp s)))))"
  by (simp add: AVI_WriteFrame_index store_frame_index_length)

lemma AVI_CloseFile_flush:
  assumes "0 \<le> current_screen_size s" "0 \<le> current_audio_samples s"
    and "fst (AVI_WriteFrame fp s) = 1"
    and "fp1 = fst (snd (AVI_WriteFrame fp s))"
    and "s1 = (snd (snd (AVI_WriteFrame fp s)))\<lparr>size_movi := word_of_int (ftell fp1) - size_movi s\<rparr>"
    and "AVI_WriteIndex fp1 s1 = (1, fp2)"
  shows "fst (AVI_CloseFile env fp s)
           = fst (AVI_WriteHeader env fp2 (s1\<lparr>size_riff := word_of_int (ftell fp2 - 8)\<rparr>))"
  using assms by (simp add: AVI_CloseFile_def Let_def split_beta)



text \<open>The offsets \<^verbatim>\<open>AVI_WriteIndex\<close> writes: the loop adds the padded length of a video chunk
  and of an audio chunk for every frame, whatever \<^verbatim>\<open>num_streams\<close> is.\<close>

lemma idx1_entries_offsets:
  assumes "k < length fi"
  shows "fst (snd (snd (idx1_entries fi offset ! (2 * k))))
           = word_of_int (offset + (\<Sum>i<k. padded_chunk (index_video_size (fi ! i))
                                            + padded_chunk (index_audio_size (fi ! i))))"
    and "fst (snd (snd (idx1_entries fi offset ! (2 * k + 1))))
           = word_of_int (offset + (\<Sum>i<k. padded_chunk (index_video_size (fi ! i))
                                            + padded_chunk (index_audio_size (fi ! i)))
                          + padded_chunk (index_video_size (fi ! k)))"
  using assms
proof (induction fi arbitrary: k offset)
  case Nil
  case 1 then show ?case by simp
  case 2 then show ?case by simp
next
  case (Cons w fi)
  case 1
  show ?case
  proof (cases k)
    case 0
    then show ?thesis by (simp add: Let_def)
  next
    case (Suc j)
    then have j: "j < length fi" using 1 by simp
    show ?thesis
      using Cons.IH(1)[OF j] 
      by (simp add: Suc Let_def sum.lessThan_Suc_shift padded_chunk_def algebra_simps
          del: sum.lessThan_Suc)
  qed
  case 2
  show ?case
  proof (cases k)
    case 0
    then show ?thesis by (simp add: Let_def padded_chunk_def)
  next
    case (Suc j)
    then have j: "j < length fi" using 2 by simp
    show ?thesis
      using Cons.IH(2)[OF j]
      by (simp add: Suc Let_def sum.lessThan_Suc_shift padded_chunk_def algebra_simps
          del: sum.lessThan_Suc)
  qed
qed

lemma AVI_CloseFile_no_flush:
  assumes "\<not> (0 \<le> current_screen_size s \<and> 0 \<le> current_audio_samples s)"
    and "s1 = s\<lparr>size_movi := word_of_int (ftell fp) - size_movi s\<rparr>"
    and "AVI_WriteIndex fp s1 = (1, fp2)"
  shows "fst (AVI_CloseFile env fp s)
           = fst (AVI_WriteHeader env fp2 (s1\<lparr>size_riff := word_of_int (ftell fp2 - 8)\<rparr>))"
    and "fst (snd (AVI_CloseFile env fp s))
           = fclose (fst (snd (AVI_WriteHeader env fp2
                                 (s1\<lparr>size_riff := word_of_int (ftell fp2 - 8)\<rparr>))))"
proof -
  have n: "(0 \<le> current_screen_size s \<and> 0 \<le> current_audio_samples s) = False"
    using assms(1) by blast
  show "fst (AVI_CloseFile env fp s)
           = fst (AVI_WriteHeader env fp2 (s1\<lparr>size_riff := word_of_int (ftell fp2 - 8)\<rparr>))"
    unfolding AVI_CloseFile_def n using assms(3)[unfolded assms(2)]
    by (simp add: Let_def split_beta assms(2))
  show "fst (snd (AVI_CloseFile env fp s))
           = fclose (fst (snd (AVI_WriteHeader env fp2
                                 (s1\<lparr>size_riff := word_of_int (ftell fp2 - 8)\<rparr>))))"
    unfolding AVI_CloseFile_def n using assms(3)[unfolded assms(2)]
    by (simp add: Let_def split_beta assms(2))
qed


section \<open>The AVI writer: the index array and the keyframe flag\<close>


lemma index_is_keyframe_pack:
  "index_is_keyframe (pack_frame_index v a True) = 0x10"
proof -
  have "bit ((w OR KEYFRAME_BITMASK) AND KEYFRAME_BITMASK) 31" for w :: ULONG
    by (simp add: KEYFRAME_BITMASK_def bit_simps)
  then have "(w OR KEYFRAME_BITMASK) AND KEYFRAME_BITMASK \<noteq> 0" for w :: ULONG
    by (auto simp add: bit_eq_iff intro: exI[of _ 31])
  then show ?thesis
    by (simp add: index_is_keyframe_def pack_frame_index_def Let_def)
qed

lemma index_state_eqD:
  assumes "index_state s = index_state t"
  shows "index_room s = index_room t" "stored_indexes s = stored_indexes t"
    "current_is_keyframe s = current_is_keyframe t" "video_codec s = video_codec t"
    "frames_written s = frames_written t" "frame_indexes s = frame_indexes t"
  using assms by (simp_all add: index_state_def index_room_def stored_indexes_def split: option.splits)

lemma store_frame_index_stored:
  assumes "index_room s"
  shows "index_room (store_frame_index a s)"
    and "stored_indexes (store_frame_index a s)
           = stored_indexes s @ [pack_frame_index (current_screen_size s) a (current_is_keyframe s)]"
proof -
  from assms obtain fi where fi: "frame_indexes s = Some fi"
    "int (length fi) = num_frames_allocated s" "int (frames_written s) < num_frames_allocated s"
    by (auto simp add: index_room_def split: option.splits)
  then have l: "frames_written s < length fi" by linarith
  show "index_room (store_frame_index a s)"
    using fi l by (simp add: index_room_def store_frame_index_def Let_def FRAME_INDEX_ALLOC_SIZE_def)
  have "take (Suc (frames_written s)) (fi[frames_written s := w]) = take (frames_written s) fi @ [w]"
    for w
    using l by (simp add: take_Suc_conv_app_nth)
  then show "stored_indexes (store_frame_index a s)
           = stored_indexes s @ [pack_frame_index (current_screen_size s) a (current_is_keyframe s)]"
    using fi l by (simp add: stored_indexes_def store_frame_index_def Let_def mem_idx_def)
qed

lemma AVI_WriteFrame_stored:
  assumes "index_room s"
  shows "index_room (snd (snd (AVI_WriteFrame fp s)))"
    and "stored_indexes (snd (snd (AVI_WriteFrame fp s)))
           = stored_indexes s @ [pack_frame_index (current_screen_size s) (frame_audio_size s)
                                   (current_is_keyframe s)]"
proof -
  have "index_state (snd (snd (AVI_WriteFrame fp s)))
          = (frame_indexes (store_frame_index (frame_audio_size s) s), frames_written s + 1,
             num_frames_allocated (store_frame_index (frame_audio_size s) s),
             current_is_keyframe (snd (snd (AVI_WriteFrame fp s))), video_codec s)"
    by (simp add: index_state_def AVI_WriteFrame_index)
  then have r: "index_room (snd (snd (AVI_WriteFrame fp s)))
                  = index_room (store_frame_index (frame_audio_size s) s)"
    "stored_indexes (snd (snd (AVI_WriteFrame fp s)))
                  = stored_indexes (store_frame_index (frame_audio_size s) s)"
    by (simp_all add: index_state_def index_room_def stored_indexes_def split: option.splits)
  show "index_room (snd (snd (AVI_WriteFrame fp s)))"
    unfolding r by (rule store_frame_index_stored(1)[OF assms])
  show "stored_indexes (snd (snd (AVI_WriteFrame fp s)))
           = stored_indexes s @ [pack_frame_index (current_screen_size s) (frame_audio_size s)
                                   (current_is_keyframe s)]"
    unfolding r by (rule store_frame_index_stored(2)[OF assms])
qed

lemma encode_frame_index: "index_state (snd (snd (encode_frame scr fp s))) = index_state s"
  by (simp add: index_state_def encode_frame_fields)

lemma copy_samples_index: "index_state (snd (snd (copy_samples buf n fp s))) = index_state s"
  by (simp add: index_state_def copy_samples_def Let_def)

lemma AVI_call_index:
  "index_state (snd (snd (AVI_call c fp s))) = index_state s
   \<or> index_state (snd (snd (AVI_call c fp s))) = index_state (snd (snd (AVI_WriteFrame fp s)))"
proof (cases c)
  case (AddVideoFrame scr)
  show ?thesis
    unfolding AddVideoFrame AVI_call.simps AVI_AddVideoFrame_def
    by (simp add: case_prod_beta encode_frame_index)
next
  case (AddAudioSamples buf n)
  show ?thesis
    unfolding AddAudioSamples AVI_call.simps AVI_AddAudioSamples_def
    by (simp add: case_prod_beta copy_samples_index)
qed



lemma length_stored_indexes:
  "index_room s \<Longrightarrow> length (stored_indexes s) = frames_written s"
  by (auto simp add: index_room_def stored_indexes_def mem_idx_def split: option.splits)

lemma keyframes_only_cong:
  assumes "index_state s = index_state t"
  shows "keyframes_only s = keyframes_only t"
  unfolding keyframes_only_def index_state_eqD(1-4)[OF assms] ..

lemma first_is_keyframe_cong:
  assumes "index_state s = index_state t"
  shows "first_is_keyframe s = first_is_keyframe t"
  unfolding first_is_keyframe_def index_state_eqD(1-5)[OF assms] ..

lemma keyframes_only_WriteFrame:
  assumes "keyframes_only s"
  shows "keyframes_only (snd (snd (AVI_WriteFrame fp s)))"
proof -
  from assms obtain c where c: "video_codec s = Some c" "\<not> uses_interframes c"
    and r: "index_room s" and k: "current_is_keyframe s"
    and a: "list_all (\<lambda>w. index_is_keyframe w = 0x10) (stored_indexes s)"
    by (auto simp add: keyframes_only_def split: option.splits)
  show ?thesis
    using AVI_WriteFrame_stored[OF r, of fp] AVI_WriteFrame_keyframe[OF c, of fp] a c k
    by (simp add: keyframes_only_def index_is_keyframe_pack)
qed

lemma first_is_keyframe_WriteFrame:
  assumes "first_is_keyframe s"
  shows "first_is_keyframe (snd (snd (AVI_WriteFrame fp s)))"
proof -
  from assms have r: "index_room s" by (simp add: first_is_keyframe_def)
  note l = length_stored_indexes[OF r]
  show ?thesis
    using AVI_WriteFrame_stored[OF r, of fp] assms l
    by (cases "frames_written s = 0")
      (simp_all add: first_is_keyframe_def index_is_keyframe_pack nth_append)
qed

lemma keyframes_only_call:
  assumes "keyframes_only s"
  shows "keyframes_only (snd (snd (AVI_call c fp s)))"
  using AVI_call_index[of c fp s]
proof
  assume "index_state (snd (snd (AVI_call c fp s))) = index_state s"
  from keyframes_only_cong[OF this] assms show ?thesis by blast
next
  assume "index_state (snd (snd (AVI_call c fp s))) = index_state (snd (snd (AVI_WriteFrame fp s)))"
  from keyframes_only_cong[OF this] keyframes_only_WriteFrame[OF assms, of fp]
  show ?thesis by blast
qed

lemma first_is_keyframe_call:
  assumes "first_is_keyframe s"
  shows "first_is_keyframe (snd (snd (AVI_call c fp s)))"
  using AVI_call_index[of c fp s]
proof
  assume "index_state (snd (snd (AVI_call c fp s))) = index_state s"
  from first_is_keyframe_cong[OF this] assms show ?thesis by blast
next
  assume "index_state (snd (snd (AVI_call c fp s))) = index_state (snd (snd (AVI_WriteFrame fp s)))"
  from first_is_keyframe_cong[OF this] first_is_keyframe_WriteFrame[OF assms, of fp]
  show ?thesis by blast
qed

lemma keyframes_only_calls:
  "keyframes_only s \<Longrightarrow> keyframes_only (snd (snd (AVI_calls calls fp s)))"
  by (induction calls arbitrary: fp s) (simp_all add: AVI_calls_Cons keyframes_only_call)

lemma first_is_keyframe_calls:
  "first_is_keyframe s \<Longrightarrow> first_is_keyframe (snd (snd (AVI_calls calls fp s)))"
  by (induction calls arbitrary: fp s) (simp_all add: AVI_calls_Cons first_is_keyframe_call)

lemma idx1_entries_even:
  "k < length fi \<Longrightarrow>
     fst (idx1_entries fi offset ! (2 * k)) = cstr ''00dc''
     \<and> fst (snd (idx1_entries fi offset ! (2 * k))) = word_of_int (index_is_keyframe (fi ! k))"
proof (induction fi arbitrary: k offset)
  case Nil
  then show ?case by simp
next
  case (Cons w fi)
  show ?case
  proof (cases k)
    case 0
    then show ?thesis by (simp add: Let_def)
  next
    case (Suc j)
    then have "j < length fi" using Cons.prems by simp
    from Cons.IH[OF this] show ?thesis
      by (simp add: Suc Let_def)
  qed
qed

lemma read_idx1_chunk:
  assumes "index_room s" and "k < 2 * frames_written s"
  shows "read_idx1_entry (idx1_chunk s) 8 k = idx1_entries (stored_indexes s) 4 ! k"
proof -
  let ?pre = "cstr ''idx1'' @ le32 (word_of_int (int (frames_written s) * 16 * 2))"
  have e: "idx1_chunk s = ?pre @ concat (map entry_bytes (idx1_entries (stored_indexes s) 4)) @ []"
    by (simp add: idx1_chunk_def stored_indexes_def)
  have l: "length ?pre = 8" by simp
  show ?thesis
    unfolding e
    by (rule read_idx1_entry_nth[OF idx1_entries_tags l])
      (simp add: length_stored_indexes[OF assms(1)] assms(2))
qed

lemma keyframes_only_idx1:
  assumes "keyframes_only s"
  shows "idx1_keyframes s"
proof -
  from assms have r: "index_room s"
    and a: "list_all (\<lambda>w. index_is_keyframe w = 0x10) (stored_indexes s)"
    by (auto simp add: keyframes_only_def)
  note l = length_stored_indexes[OF r]
  have "index_is_keyframe (stored_indexes s ! k) = 0x10
        \<and> fst (read_idx1_entry (idx1_chunk s) 8 (2 * k)) = cstr ''00dc''
        \<and> fst (snd (read_idx1_entry (idx1_chunk s) 8 (2 * k))) = 0x10"
    if k: "k < frames_written s" for k
  proof -
    have 1: "index_is_keyframe (stored_indexes s ! k) = 0x10"
      using a k l by (simp add: list_all_length)
    have 2: "read_idx1_entry (idx1_chunk s) 8 (2 * k) = idx1_entries (stored_indexes s) 4 ! (2 * k)"
      using k by (intro read_idx1_chunk[OF r]) simp
    from idx1_entries_even[of k "stored_indexes s" 4] k l 1 2 show ?thesis by simp
  qed
  then show ?thesis by (simp add: idx1_keyframes_def)
qed

lemma AVI_OpenFile_index_room:
  assumes "AVI_OpenFile env best name s0 = (Some fp, s)"
  shows "index_room s" "stored_indexes s = []"
  using AVI_OpenFile_Some(1,5,6)[OF assms] by (simp_all add: index_room_def stored_indexes_def)


section \<open>The example session\<close>


lemma demo_prepare:
  "video_codec (AVI_prepare (demo_env sound cap sk) (demo_codec ifr) (initial_statics 0))
     = Some (demo_codec ifr)"
  "video_buffer_size (AVI_prepare (demo_env sound cap sk) (demo_codec ifr) (initial_statics 0))
     = 80640"
  "audio_buffer_size (AVI_prepare (demo_env sound cap sk) (demo_codec ifr) (initial_statics 0))
     = (if sound then 1906 else 0)"
  "num_streams (AVI_prepare (demo_env sound cap sk) (demo_codec ifr) (initial_statics 0))
     = (if sound then 2 else 1)"
proof -
  show "video_codec (AVI_prepare (demo_env sound cap sk) (demo_codec ifr) (initial_statics 0))
     = Some (demo_codec ifr)"
    by (simp add: AVI_prepare_fields initial_statics_def)
  show "video_buffer_size (AVI_prepare (demo_env sound cap sk) (demo_codec ifr) (initial_statics 0))
     = 80640"
    by (simp add: AVI_prepare_video_buffer_size init_codec_def select_codec_def reset_session_def
        set_video_margins_def initial_statics_def demo_env_def demo_codec_def Let_def)
  show "audio_buffer_size (AVI_prepare (demo_env sound cap sk) (demo_codec ifr) (initial_statics 0))
     = (if sound then 1906 else 0)"
    by (simp add: AVI_prepare_audio_buffer_size demo_env_def c_trunc_def)
  show "num_streams (AVI_prepare (demo_env sound cap sk) (demo_codec ifr) (initial_statics 0))
     = (if sound then 2 else 1)"
    by (simp add: AVI_prepare_fields demo_env_def)
qed

lemma avi_demo_open_Some:
  "avi_demo_open sound ifr = (Some (avi_demo_fp sound ifr), avi_demo_statics sound ifr)"
  "capacity (avi_demo_fp sound ifr) = 100000"
  "seekable (avi_demo_fp sound ifr)"
proof -
  let ?env = "demo_env sound 100000 True"
  let ?P = "AVI_prepare ?env (demo_codec ifr) (initial_statics 0)"
  have f: "files ?env ''a.avi'' = Some (100000, True)" by (simp add: demo_env_def)
  have vb: "0 \<le> video_buffer_size ?P" by (simp add: demo_prepare)
  have cb: "4 \<le> length (codec_bytes fourcc ?P)" "4 \<le> length (codec_bytes avi_compression ?P)"
    by (simp_all add: codec_bytes_def demo_prepare) (simp_all add: demo_codec_def)
  have cap: "12 + 8 + AVI_list_size ?P + 12 \<le> int 100000"
    by (simp add: AVI_list_size_def)
  note s = AVI_OpenFile_succeeds[OF f vb cb cap TrueI, folded avi_demo_open_def]
  from pair_SomeI[OF s(1)]
  show "avi_demo_open sound ifr = (Some (avi_demo_fp sound ifr), avi_demo_statics sound ifr)"
    by (simp add: avi_demo_fp_def avi_demo_statics_def)
  show "capacity (avi_demo_fp sound ifr) = 100000" using s(2) by (simp add: avi_demo_fp_def)
  show "seekable (avi_demo_fp sound ifr)" using s(3) by (simp add: avi_demo_fp_def)
qed

lemma avi_demo_start:
  "frames_written (avi_demo_statics sound ifr) = 0"
  "current_screen_size (avi_demo_statics sound ifr) = - 1"
  "current_audio_samples (avi_demo_statics sound ifr) = - 1"
  "current_is_keyframe (avi_demo_statics sound ifr)"
  "frame_indexes (avi_demo_statics sound ifr) = Some (replicate 1000 0)"
  "num_frames_allocated (avi_demo_statics sound ifr) = 1000"
  "num_streams (avi_demo_statics sound ifr) = (if sound then 2 else 1)"
  "sample_size (avi_demo_statics sound ifr) = (if sound then 1 else 0)"
  "video_codec (avi_demo_statics sound ifr) = Some (demo_codec ifr)"
  "video_buffer_size (avi_demo_statics sound ifr) = 80640"
  "video_buffer (avi_demo_statics sound ifr) = Some (replicate 80640 0)"
  "audio_buffer_size (avi_demo_statics sound ifr) = (if sound then 1906 else 0)"
  "audio_buffer (avi_demo_statics sound ifr) = (if sound then Some (replicate 1906 0) else None)"
  "fpos (avi_demo_fp sound ifr) = (if sound then 1394 else 1272)"
  "length (contents (avi_demo_fp sound ifr)) = (if sound then 1394 else 1272)"
  "size_movi (avi_demo_statics sound ifr) = (if sound then 1390 else 1268)"
  "byteswritten (avi_demo_statics sound ifr) = (if sound then 1402 else 1280)"
proof -
  let ?env = "demo_env sound 100000 True"
  let ?s = "avi_demo_statics sound ifr"
  note o = AVI_OpenFile_Some[OF avi_demo_open_Some(1)[of sound ifr, unfolded avi_demo_open_def]]
  have E: "\<And>a b c. Sound_enabled (demo_env a b c) = a"
    "\<And>a b c. snd_16bit (demo_env a b c) = False"
    by (simp_all add: demo_env_def)
  show "frames_written ?s = 0" by (rule o)
  show "current_screen_size ?s = - 1" by (rule o)
  show "current_audio_samples ?s = - 1" by (rule o)
  show "current_is_keyframe ?s" by (rule o)
  show "frame_indexes ?s = Some (replicate 1000 0)" by (rule o)
  show "num_frames_allocated ?s = 1000" by (rule o)
  show ns: "num_streams ?s = (if sound then 2 else 1)" using o(7) by (simp add: E)
  show "sample_size ?s = (if sound then 1 else 0)" using o(8) by (simp add: E)
  show "video_codec ?s = Some (demo_codec ifr)" using o(9) by (simp add: initial_statics_def)
  show vb: "video_buffer_size ?s = 80640"
    using o(14) by (simp add: demo_prepare)
  show "video_buffer ?s = Some (replicate 80640 0)" using o(11) by (simp add: vb)
  show ab: "audio_buffer_size ?s = (if sound then 1906 else 0)"
    using o(13) by (simp add: demo_prepare)
  show "audio_buffer ?s = (if sound then Some (replicate 1906 0) else None)"
    using o(12) ab by (cases sound) (simp_all add: E)
  have ls: "AVI_list_size ?s = (if sound then 1362 else 1240)"
    by (simp add: AVI_list_size_def ns)
  show fp: "fpos (avi_demo_fp sound ifr) = (if sound then 1394 else 1272)"
    using o(15) by (simp add: ls split: if_splits)
  show "length (contents (avi_demo_fp sound ifr)) = (if sound then 1394 else 1272)"
    using o(16) fp by simp
  show "size_movi ?s = (if sound then 1390 else 1268)" using o(18) by (simp add: ls)
  show "byteswritten ?s = (if sound then 1402 else 1280)" using o(19) by (simp add: ls)
qed

text \<open>The example session after one video frame.\<close>

lemma avi_demo_one_video:
  "avi_demo_results sound ifr [AddVideoFrame demo_screen] = [1]"
  "avi_demo_file sound ifr [AddVideoFrame demo_screen] = avi_demo_fp sound ifr"
  "current_screen_size (avi_demo_after sound ifr [AddVideoFrame demo_screen]) = 4"
  "current_audio_samples (avi_demo_after sound ifr [AddVideoFrame demo_screen]) = - 1"
  "num_streams (avi_demo_after sound ifr [AddVideoFrame demo_screen]) = (if sound then 2 else 1)"
  "sample_size (avi_demo_after sound ifr [AddVideoFrame demo_screen]) = (if sound then 1 else 0)"
  "audio_buffer_size (avi_demo_after sound ifr [AddVideoFrame demo_screen]) = (if sound then 1906 else 0)"
  "frames_written (avi_demo_after sound ifr [AddVideoFrame demo_screen]) = 0"
  "video_codec (avi_demo_after sound ifr [AddVideoFrame demo_screen]) = Some (demo_codec ifr)"
proof -
  let ?fp = "avi_demo_fp sound ifr" and ?s = "avi_demo_statics sound ifr"
  note st = avi_demo_start[of sound ifr]
  have a: "AVI_AddVideoFrame demo_screen ?fp ?s = encode_frame demo_screen ?fp ?s"
    by (rule AVI_AddVideoFrame_idle) (simp_all add: st)
  have b: "AVI_calls [AddVideoFrame demo_screen] ?fp ?s =
      ([fst (encode_frame demo_screen ?fp ?s)], snd (encode_frame demo_screen ?fp ?s))"
    by (simp add: a AVI_calls_single)
  have c: "current_screen_size (snd (snd (encode_frame demo_screen ?fp ?s))) = 4"
    using encode_frame_result(1)[OF st(9), of demo_screen ?fp] by (simp add: demo_codec_def)
  show "avi_demo_results sound ifr [AddVideoFrame demo_screen] = [1]"
    using encode_frame_result(2)[OF st(9), of demo_screen ?fp] c
    by (simp add: avi_demo_results_def b)
  show "avi_demo_file sound ifr [AddVideoFrame demo_screen] = avi_demo_fp sound ifr"
    by (simp add: avi_demo_file_def b encode_frame_fields)
  show "current_screen_size (avi_demo_after sound ifr [AddVideoFrame demo_screen]) = 4"
    by (simp add: avi_demo_after_def b c)
  show "current_audio_samples (avi_demo_after sound ifr [AddVideoFrame demo_screen]) = - 1"
    "num_streams (avi_demo_after sound ifr [AddVideoFrame demo_screen]) = (if sound then 2 else 1)"
    "sample_size (avi_demo_after sound ifr [AddVideoFrame demo_screen]) = (if sound then 1 else 0)"
    "audio_buffer_size (avi_demo_after sound ifr [AddVideoFrame demo_screen]) = (if sound then 1906 else 0)"
    "frames_written (avi_demo_after sound ifr [AddVideoFrame demo_screen]) = 0"
    "video_codec (avi_demo_after sound ifr [AddVideoFrame demo_screen]) = Some (demo_codec ifr)"
    by (simp_all add: avi_demo_after_def b encode_frame_fields st)
qed



lemma encode_frame_eq:
  assumes "video_codec s = Some c"
  shows "encode_frame scr fp s =
     (let F = codec_frame c scr (current_is_keyframe s) (mem (video_buffer s))
                (video_buffer_size s) (codec_data s)
      in (if 0 \<le> fst F then 1 else 0, fp,
          s\<lparr>video_buffer := map_option (\<lambda>_. fst (snd F)) (video_buffer s),
            codec_data := snd (snd F), current_screen_size := fst F\<rparr>))"
  using assms by (simp add: encode_frame_def Let_def case_prod_beta)

text \<open>The example session with one complete frame pending.\<close>

lemma avi_demo_pending:
  "AVI_calls demo_frame_calls (avi_demo_fp True ifr) (avi_demo_statics True ifr) =
     ([1, 1], avi_demo_fp True ifr,
      (avi_demo_statics True ifr)
        \<lparr>video_buffer := Some (take 3 demo_screen @ [1] @ drop 4 (replicate 80640 0)),
         codec_data := codec_data (avi_demo_statics True ifr) + 1,
         current_screen_size := 4, current_audio_samples := 2,
         audio_buffer := Some ([1, 2] @ drop 2 (replicate 1906 0))\<rparr>)"
proof -
  let ?fp = "avi_demo_fp True ifr" and ?s = "avi_demo_statics True ifr"
  note st = avi_demo_start[of True ifr, simplified]
  let ?s1 = "?s\<lparr>video_buffer := Some (take 3 demo_screen @ [1] @ drop 4 (replicate 80640 0)),
         codec_data := codec_data ?s + 1, current_screen_size := 4\<rparr>"
  have a: "AVI_AddVideoFrame demo_screen ?fp ?s = encode_frame demo_screen ?fp ?s"
    by (rule AVI_AddVideoFrame_idle) (simp_all add: st)
  have b: "encode_frame demo_screen ?fp ?s = (1, ?fp, ?s1)"
    by (simp add: encode_frame_eq[OF st(9)] Let_def demo_codec_def st mem_def)
  have c: "AVI_AddAudioSamples [1, 2] 2 ?fp ?s1 = copy_samples [1, 2] 2 ?fp ?s1"
    by (rule AVI_AddAudioSamples_idle) (simp_all add: st)
  have d: "copy_samples [1, 2] 2 ?fp ?s1 =
      (1, ?fp, ?s1\<lparr>current_audio_samples := 2,
                   audio_buffer := Some ([1, 2] @ drop 2 (replicate 1906 0))\<rparr>)"
    by (simp add: copy_samples_def Let_def st int_mul_fits INT_MIN_def INT_MAX_def)
  show ?thesis
    by (simp only: demo_frame_calls_def AVI_calls_Cons AVI_call.simps AVI_calls.simps(1)
        a b c d fst_conv snd_conv)
qed


lemma avi_demo_pending_fields:
  "avi_demo_results True ifr demo_frame_calls = [1, 1]"
  "avi_demo_file True ifr demo_frame_calls = avi_demo_fp True ifr"
  "current_screen_size (avi_demo_after True ifr demo_frame_calls) = 4"
  "current_audio_samples (avi_demo_after True ifr demo_frame_calls) = 2"
  "num_streams (avi_demo_after True ifr demo_frame_calls) = 2"
  "sample_size (avi_demo_after True ifr demo_frame_calls) = 1"
  "frames_written (avi_demo_after True ifr demo_frame_calls) = 0"
  "byteswritten (avi_demo_after True ifr demo_frame_calls) = 1402"
  "video_codec (avi_demo_after True ifr demo_frame_calls) = Some (demo_codec ifr)"
  "current_is_keyframe (avi_demo_after True ifr demo_frame_calls)"
  "frame_indexes (avi_demo_after True ifr demo_frame_calls) = Some (replicate 1000 0)"
  "num_frames_allocated (avi_demo_after True ifr demo_frame_calls) = 1000"
  "size_movi (avi_demo_after True ifr demo_frame_calls) = 1390"
  "frame_ready (avi_demo_after True ifr demo_frame_calls)"
  "expected_frame_size (avi_demo_after True ifr demo_frame_calls) = 22"
  by (simp_all add: avi_demo_results_def avi_demo_file_def avi_demo_after_def avi_demo_pending
      avi_demo_start frame_ready_def expected_frame_size_def mem_def c_rem_def)


lemma avi_demo_close_pending:
  "fst (avi_demo_close True ifr demo_frame_calls) = 1"
proof -
  let ?env = "demo_env True 100000 True"
  let ?fp = "avi_demo_fp True ifr" and ?s = "avi_demo_after True ifr demo_frame_calls"
  note p = avi_demo_pending_fields[of ifr]
  note st = avi_demo_start[of True ifr, simplified]
  have cap: "capacity ?fp = 100000" by (rule avi_demo_open_Some(2))
  have sk: "seekable ?fp" by (rule avi_demo_open_Some(3))
  have g: "frame_growth ?fp ?s = 22"
    using frame_growth_room[OF p(14), of ?fp] by (simp add: p st cap sk)
  have 1: "fst (AVI_WriteFrame ?fp ?s) = 1"
    by (simp add: AVI_WriteFrame_result g p MAX_RECORDING_SIZE_def)
  define fp1 where "fp1 = fst (snd (AVI_WriteFrame ?fp ?s))"
  define s1 where "s1 = (snd (snd (AVI_WriteFrame ?fp ?s)))
                          \<lparr>size_movi := word_of_int (ftell fp1) - size_movi ?s\<rparr>"
  have fp1: "fpos fp1 = 1416" "capacity fp1 = 100000" "seekable fp1"
    using g by (simp_all add: fp1_def AVI_WriteFrame_file frame_growth_def ftell_def st cap sk)
  have fw: "frames_written s1 = 1" by (simp add: s1_def p)
  have len: "1000 \<le> length (mem_idx (frame_indexes s1))"
    using AVI_WriteFrame_index_length[of ?s ?fp] by (simp add: s1_def p mem_idx_def)
  define fp2 where "fp2 = fputs (idx1_chunk s1) fp1"
  have 2: "AVI_WriteIndex fp1 s1 = (1, fp2)"
    unfolding fp2_def using len by (intro AVI_WriteIndex_room) (simp_all add: fw fp1)
  let ?s2 = "s1\<lparr>size_riff := word_of_int (ftell fp2 - 8)\<rparr>"
  have vc: "video_codec s1 = Some (demo_codec ifr)" by (simp add: s1_def p)
  have 3: "fst (AVI_WriteHeader ?env fp2 ?s2) = 1"
  proof (rule AVI_WriteHeader_room(1))
    show "seekable fp2" by (simp add: fp2_def fp1)
    show "4 \<le> length (codec_bytes fourcc ?s2)" "4 \<le> length (codec_bytes avi_compression ?s2)"
      by (simp_all add: codec_bytes_def vc) (simp_all add: demo_codec_def)
    show "12 + 8 + AVI_list_size ?s2 + 12 \<le> int (capacity fp2)"
      by (simp add: fp2_def fp1 AVI_list_size_def s1_def p)
  qed
  have "fst (AVI_CloseFile ?env ?fp ?s) = fst (AVI_WriteHeader ?env fp2 ?s2)"
    by (rule AVI_CloseFile_flush[OF _ _ 1 fp1_def s1_def 2]) (simp_all add: p)
  then show ?thesis
    unfolding avi_demo_close_def p(2) 3 .
qed




text \<open>One \<^verbatim>\<open>AVI_AddVideoFrame\<close> call of a video-only session of the example codec with a
  frame pending: the pending frame of four bytes goes to the file as a chunk of twelve and
  the next frame is encoded.\<close>

lemma demo_video_flush:
  fixes s :: "nat statics"
  assumes vc: "video_codec s = Some (demo_codec ifr)" and ns: "num_streams s = 1"
    and css: "current_screen_size s = 4" and vb: "video_buffer s = Some b" and lb: "length b = 80640"
    and sk: "seekable fp" and room: "fpos fp + 12 \<le> capacity fp"
    and e: "fpos fp = length (contents fp)"
    and bw: "uint (byteswritten s) \<le> 1000000" and ir: "index_room s"
    and ss: "sample_size s = 0"
  shows "fst (AVI_AddVideoFrame demo_screen fp s) = 1"
    and "fst (snd (AVI_AddVideoFrame demo_screen fp s))
           = fp\<lparr>contents := contents fp @ cstr ''00dc'' @ le32 4 @ take 4 b,
                fpos := fpos fp + 12\<rparr>"
    and "frames_written (snd (snd (AVI_AddVideoFrame demo_screen fp s))) = frames_written s + 1"
    and "video_codec (snd (snd (AVI_AddVideoFrame demo_screen fp s))) = Some (demo_codec ifr)"
    and "num_streams (snd (snd (AVI_AddVideoFrame demo_screen fp s))) = 1"
    and "current_screen_size (snd (snd (AVI_AddVideoFrame demo_screen fp s))) = 4"
    and "video_buffer (snd (snd (AVI_AddVideoFrame demo_screen fp s)))
           = Some (take 3 demo_screen
                   @ [if current_is_keyframe (snd (snd (AVI_AddVideoFrame demo_screen fp s)))
                      then 1 else 0] @ drop 4 b)"
    and "uint (byteswritten (snd (snd (AVI_AddVideoFrame demo_screen fp s))))
           = uint (byteswritten s) + 44"
    and "index_room (snd (snd (AVI_AddVideoFrame demo_screen fp s)))"
    and "stored_indexes (snd (snd (AVI_AddVideoFrame demo_screen fp s)))
           = stored_indexes s @ [pack_frame_index 4 0 (current_is_keyframe s)]"
    and "current_audio_samples (snd (snd (AVI_AddVideoFrame demo_screen fp s))) = - 1"
    and "sample_size (snd (snd (AVI_AddVideoFrame demo_screen fp s))) = 0"
    and "\<not> ifr \<Longrightarrow> current_is_keyframe (snd (snd (AVI_AddVideoFrame demo_screen fp s)))"
proof -
  let ?W = "AVI_WriteFrame fp s"
  let ?r = "AVI_AddVideoFrame demo_screen fp s"
  have fr: "frame_ready s"
    by (simp add: frame_ready_def css vb lb ns mem_def)
  have ex: "expected_frame_size s = 12"
    by (simp add: expected_frame_size_def css ns c_rem_def)
  have fa: "frame_audio_size s = 0" by (simp add: frame_audio_size_def ns)
  have g: "frame_growth fp s = 12"
    using frame_growth_room[OF fr _ sk] room by (simp add: ex)
  have le: "byteswritten s \<le> MAX_RECORDING_SIZE"
    using bw by (simp add: word_le_def MAX_RECORDING_SIZE_def)
  have u: "uint (byteswritten (snd (snd ?W))) = uint (byteswritten s) + 44"
    using byteswritten_no_wrap[OF le, of fp] by (simp add: css fa g ns ss)
  then have "byteswritten (snd (snd ?W)) \<le> MAX_RECORDING_SIZE"
    using bw by (simp add: word_le_def MAX_RECORDING_SIZE_def)
  then have w1: "fst ?W = 1"
    by (simp add: AVI_WriteFrame_result AVI_WriteFrame_byteswritten g ex not_less[symmetric])
  have bytes: "AVI_frame_bytes s = cstr ''00dc'' @ le32 4 @ take 4 b"
    by (simp add: AVI_frame_bytes_def AVI_video_chunk_def ns css vb mem_def c_rem_def)
  have wf: "fst (snd ?W) = fp\<lparr>contents := contents fp @ cstr ''00dc'' @ le32 4 @ take 4 b,
                fpos := fpos fp + 12\<rparr>"
    unfolding AVI_WriteFrame_file bytes
    using fputs_append_end[OF e, of "cstr ''00dc'' @ le32 4 @ take 4 b"] room lb by simp
  have r: "?r = encode_frame demo_screen (fst (snd ?W)) (snd (snd ?W))"
    using AVI_AddVideoFrame_flushes[of s demo_screen fp] w1 by (simp add: css ns)
  have vc': "video_codec (snd (snd ?W)) = Some (demo_codec ifr)" by (simp add: vc)
  note ef = encode_frame_fields[of demo_screen "fst (snd ?W)" "snd (snd ?W)"]
  note er = encode_frame_result[OF vc', of demo_screen "fst (snd ?W)"]
  have c4: "current_screen_size (snd (snd ?r)) = 4"
    unfolding r er(1) by (simp add: demo_codec_def)
  show "fst ?r = 1" unfolding r er(2) using c4[unfolded r] by simp
  show "fst (snd ?r) = fp\<lparr>contents := contents fp @ cstr ''00dc'' @ le32 4 @ take 4 b,
                fpos := fpos fp + 12\<rparr>"
    unfolding r ef(1) by (rule wf)
  show "frames_written (snd (snd ?r)) = frames_written s + 1" unfolding r ef by simp
  show "video_codec (snd (snd ?r)) = Some (demo_codec ifr)" unfolding r ef by (rule vc')
  show "num_streams (snd (snd ?r)) = 1" unfolding r ef by (simp add: ns)
  show "current_screen_size (snd (snd ?r)) = 4" by (rule c4)
  show "video_buffer (snd (snd ?r))
           = Some (take 3 demo_screen @ [if current_is_keyframe (snd (snd ?r)) then 1 else 0]
                   @ drop 4 b)"
    unfolding r encode_frame_eq[OF vc']
    by (simp add: Let_def demo_codec_def vb mem_def)
  show "uint (byteswritten (snd (snd ?r))) = uint (byteswritten s) + 44"
    unfolding r ef by (rule u)
  have ist: "index_state (snd (snd ?r)) = index_state (snd (snd ?W))"
    unfolding r by (rule encode_frame_index)
  show "index_room (snd (snd ?r))"
    unfolding index_state_eqD(1)[OF ist] by (rule AVI_WriteFrame_stored(1)[OF ir])
  show "stored_indexes (snd (snd ?r)) = stored_indexes s @ [pack_frame_index 4 0 (current_is_keyframe s)]"
    unfolding index_state_eqD(2)[OF ist] AVI_WriteFrame_stored(2)[OF ir] by (simp add: css fa)
  show "current_audio_samples (snd (snd ?r)) = - 1" unfolding r ef by simp
  show "sample_size (snd (snd ?r)) = 0" unfolding r ef by (simp add: ss)
  show "current_is_keyframe (snd (snd ?r))" if "\<not> ifr"
    unfolding r ef using AVI_WriteFrame_keyframe[OF vc, of fp] that by (simp add: demo_codec_def)
qed

text \<open>The example session without sound after three video frames: two chunks of twelve
  bytes are in the file behind the header, and the third frame is pending.\<close>

lemma avi_demo_video:
  defines "fp0 \<equiv> avi_demo_fp False False"
    and "fp3 \<equiv> avi_demo_file False False demo_video_calls"
    and "s3 \<equiv> avi_demo_after False False demo_video_calls"
  shows "avi_demo_results False False demo_video_calls = [1, 1, 1]"
    and "contents fp3 = contents fp0 @ (cstr ''00dc'' @ le32 4 @ [7, 7, 7, 1])
                          @ (cstr ''00dc'' @ le32 4 @ [7, 7, 7, 1])"
    and "fpos fp3 = 1296" and "capacity fp3 = 100000" and "seekable fp3"
    and "frames_written s3 = 2" and "num_streams s3 = 1"
    and "index_room s3"
    and "stored_indexes s3 = [pack_frame_index 4 0 True, pack_frame_index 4 0 True]"
    and "current_screen_size s3 = 4" and "current_audio_samples s3 = - 1"
    and "video_codec s3 = Some (demo_codec False)"
proof -
  let ?s = "avi_demo_statics False False"
  note st = avi_demo_start[of False False, simplified]
  have cap: "capacity fp0 = 100000" unfolding fp0_def by (rule avi_demo_open_Some(2))
  have sk: "seekable fp0" unfolding fp0_def by (rule avi_demo_open_Some(3))
  have p0: "fpos fp0 = 1272" "length (contents fp0) = 1272" unfolding fp0_def by (simp_all add: st)
  have ir0: "index_room ?s" "stored_indexes ?s = []"
    by (simp_all add: index_room_def stored_indexes_def st)
  define b1 where "b1 = take 3 demo_screen @ [1] @ drop 4 (replicate 80640 (0 :: UBYTE))"
  define s1 where "s1 = ?s\<lparr>video_buffer := Some b1, codec_data := codec_data ?s + 1,
                            current_screen_size := 4\<rparr>"
  define r2 where "r2 = AVI_AddVideoFrame demo_screen fp0 s1"
  define r3 where "r3 = AVI_AddVideoFrame demo_screen (fst (snd r2)) (snd (snd r2))"
  have a: "AVI_AddVideoFrame demo_screen fp0 ?s = encode_frame demo_screen fp0 ?s"
    by (rule AVI_AddVideoFrame_idle) (simp_all add: st)
  have b: "encode_frame demo_screen fp0 ?s = (1, fp0, s1)"
    by (simp add: encode_frame_eq[OF st(9)] Let_def demo_codec_def st mem_def s1_def b1_def)
  have calls: "AVI_calls demo_video_calls fp0 ?s = ([1, fst r2, fst r3], snd r3)"
    by (simp only: demo_video_calls_def AVI_calls_Cons AVI_calls.simps(1) AVI_call.simps
        a b r2_def r3_def fst_conv snd_conv prod.collapse)
  have lb1: "length b1 = 80640" "take 4 b1 = [7, 7, 7, 1]"
    by (simp_all add: b1_def demo_screen_def numeral_3_eq_3)
  have f1: "video_codec s1 = Some (demo_codec False)" "num_streams s1 = 1"
    "current_screen_size s1 = 4" "video_buffer s1 = Some b1" "sample_size s1 = 0"
    "uint (byteswritten s1) \<le> 1000000" "index_room s1" "stored_indexes s1 = []"
    "current_is_keyframe s1" "frames_written s1 = 0"
    using ir0 by (simp_all add: s1_def st index_room_def stored_indexes_def)
  have bw1: "uint (byteswritten s1) = 1280" by (simp add: s1_def st)
  have e0: "fpos fp0 = length (contents fp0)" "fpos fp0 + 12 \<le> capacity fp0"
    by (simp_all add: p0 cap)
  note d2 = demo_video_flush[OF f1(1,2,3,4) lb1(1) sk e0(2) e0(1) f1(6,7,5), folded r2_def]
  have k2: "current_is_keyframe (snd (snd r2))" by (rule d2(13)) simp
  define b2 where "b2 = take 3 demo_screen @ [1] @ drop 4 b1"
  have b2: "video_buffer (snd (snd r2)) = Some b2" using d2(7) k2 by (simp add: b2_def)
  have lb2: "length b2 = 80640" "take 4 b2 = [7, 7, 7, 1]"
    by (simp_all add: b2_def lb1 demo_screen_def numeral_3_eq_3)
  have f2: "seekable (fst (snd r2))" "fpos (fst (snd r2)) + 12 \<le> capacity (fst (snd r2))"
    "fpos (fst (snd r2)) = length (contents (fst (snd r2)))"
    "uint (byteswritten (snd (snd r2))) \<le> 1000000"
    using bw1 by (simp_all add: d2(2) d2(8) sk cap p0 lb1)
  note d3 = demo_video_flush[OF d2(4,5,6) b2 lb2(1) f2(1,2,3,4) d2(9,12), folded r3_def]
  have e: "avi_demo_results False False demo_video_calls = [1, fst r2, fst r3]"
    "fp3 = fst (snd r3)" "s3 = snd (snd r3)"
    by (simp_all add: avi_demo_results_def fp3_def s3_def avi_demo_file_def avi_demo_after_def
        calls fp0_def[symmetric])
  show "avi_demo_results False False demo_video_calls = [1, 1, 1]"
    by (simp add: e d2(1) d3(1))
  show "contents fp3 = contents fp0 @ (cstr ''00dc'' @ le32 4 @ [7, 7, 7, 1])
                          @ (cstr ''00dc'' @ le32 4 @ [7, 7, 7, 1])"
    by (simp add: e d3(2) d2(2) lb1 lb2)
  show "fpos fp3 = 1296" "capacity fp3 = 100000" "seekable fp3"
    by (simp_all add: e d3(2) d2(2) p0 cap sk)
  show "frames_written s3 = 2" by (simp add: e d3(3) d2(3) f1)
  show "num_streams s3 = 1" by (simp add: e d3(5))
  show "index_room s3" unfolding e by (rule d3(9))
  show "stored_indexes s3 = [pack_frame_index 4 0 True, pack_frame_index 4 0 True]"
    using k2 by (simp add: e d3(10) d2(10) f1)
  show "current_screen_size s3 = 4" by (simp add: e d3(6))
  show "current_audio_samples s3 = - 1" by (simp add: e d3(11))
  show "video_codec s3 = Some (demo_codec False)" by (simp add: e d3(4))
qed





lemma demo_index_word:
  "index_video_size (pack_frame_index 4 0 True) = 4"
  "index_audio_size (pack_frame_index 4 0 True) = 0"
  "index_is_keyframe (pack_frame_index 4 0 True) = 0x10"
  using unpack_pack[of 4 0 True] by simp_all

lemma demo_video_entries:
  "idx1_entries [pack_frame_index 4 0 True, pack_frame_index 4 0 True] 4 =
     [(cstr ''00dc'', 0x10, 4, 4), (cstr ''01wb'', 0x10, 16, 0),
      (cstr ''00dc'', 0x10, 24, 4), (cstr ''01wb'', 0x10, 36, 0)]"
  by (simp add: Let_def demo_index_word c_rem_def)

text \<open>The example session without sound, closed after three video frames.\<close>

lemma avi_demo_video_closed:
  defines "fp0 \<equiv> avi_demo_fp False False"
    and "s3 \<equiv> avi_demo_after False False demo_video_calls"
    and "F \<equiv> avi_demo_close False False demo_video_calls"
  shows "fst F = 1"
    and "\<exists>H. length H = 1268 \<and>
           contents (fst (snd F)) =
             H @ cstr ''movi'' @ (cstr ''00dc'' @ le32 4 @ [7, 7, 7, 1])
               @ (cstr ''00dc'' @ le32 4 @ [7, 7, 7, 1]) @ (cstr ''idx1'' @ le32 64)
               @ concat (map entry_bytes
                   [(cstr ''00dc'', 0x10, 4, 4), (cstr ''01wb'', 0x10, 16, 0),
                    (cstr ''00dc'', 0x10, 24, 4), (cstr ''01wb'', 0x10, 36, 0)]) @ []"
proof -
  let ?env = "demo_env False 100000 True"
  define fp3 where "fp3 = avi_demo_file False False demo_video_calls"
  note v = avi_demo_video[folded fp0_def fp3_def s3_def]
  note st = avi_demo_start[of False False, simplified]
  have p0: "length (contents fp0) = 1272" unfolding fp0_def by (simp add: st)
  define s4 where "s4 = s3\<lparr>size_movi := word_of_int (ftell fp3) - size_movi s3\<rparr>"
  define fp4 where "fp4 = fputs (idx1_chunk s4) fp3"
  have ir: "index_room s3" by (rule v(8))
  have fw: "frames_written s4 = 2" by (simp add: s4_def v)
  have len: "2 \<le> length (mem_idx (frame_indexes s3))"
    using ir v(6) by (auto simp add: index_room_def mem_idx_def split: option.splits)
  have tk: "take (frames_written s4) (mem_idx (frame_indexes s4))
              = [pack_frame_index 4 0 True, pack_frame_index 4 0 True]"
    using v(9) by (simp add: stored_indexes_def s4_def)
  have ic: "idx1_chunk s4 = (cstr ''idx1'' @ le32 64)
              @ concat (map entry_bytes
                   [(cstr ''00dc'', 0x10, 4, 4), (cstr ''01wb'', 0x10, 16, 0),
                    (cstr ''00dc'', 0x10, 24, 4), (cstr ''01wb'', 0x10, 36, 0)])"
    unfolding idx1_chunk_def tk demo_video_entries by (simp add: fw)
  have li: "length (idx1_chunk s4) = 72"
    using length_idx1_chunk[of s4] len by (simp add: s4_def v(6))
  have wi: "AVI_WriteIndex fp3 s4 = (1, fp4)"
    unfolding fp4_def using len
    by (intro AVI_WriteIndex_room) (simp_all add: fw v s4_def)
  have e3: "fpos fp3 = length (contents fp3)" by (simp add: v p0)
  have f4: "fp4 = fp3\<lparr>contents := contents fp3 @ idx1_chunk s4, fpos := fpos fp3 + 72\<rparr>"
    unfolding fp4_def using fputs_append_end[OF e3, of "idx1_chunk s4"] by (simp add: li v)
  let ?s5 = "s4\<lparr>size_riff := word_of_int (ftell fp4 - 8)\<rparr>"
  have vc: "video_codec s4 = Some (demo_codec False)" by (simp add: s4_def v)
  have cb: "4 \<le> length (codec_bytes fourcc ?s5)" "4 \<le> length (codec_bytes avi_compression ?s5)"
    by (simp_all add: codec_bytes_def vc) (simp_all add: demo_codec_def)
  have ls: "AVI_list_size ?s5 = 1240" by (simp add: AVI_list_size_def s4_def v)
  have sk4: "seekable fp4" "capacity fp4 = 100000" by (simp_all add: f4 v)
  have cap: "12 + 8 + AVI_list_size ?s5 + 12 \<le> int (capacity fp4)"
    unfolding ls sk4(2) by simp
  note wh = AVI_WriteHeader_room[OF sk4(1) cb cap, of ?env]
  define H where "H = AVI_header_prefix ?env ?s5"
  have lH: "length H = 1268"
    using length_AVI_header_prefix[OF cb, of ?env] unfolding H_def[symmetric] ls by simp
  have nf: "\<not> (0 \<le> current_screen_size s3 \<and> 0 \<le> current_audio_samples s3)"
    by (simp add: v)
  note cl = AVI_CloseFile_no_flush[OF nf s4_def wi, of ?env]
  have F: "F = AVI_CloseFile ?env fp3 s3"
    by (simp add: F_def avi_demo_close_def fp3_def s3_def)
  show "fst F = 1" unfolding F cl(1) by (rule wh(1))
  have c4: "contents fp4 = contents fp0 @ (cstr ''00dc'' @ le32 4 @ [7, 7, 7, 1])
              @ (cstr ''00dc'' @ le32 4 @ [7, 7, 7, 1]) @ idx1_chunk s4"
    by (simp add: f4 v(2))
  have "fputs (H @ cstr ''movi'') (fp4\<lparr>fpos := 0\<rparr>)
          = fp4\<lparr>contents := (H @ cstr ''movi'') @ drop 1272 (contents fp4), fpos := 1272\<rparr>"
    using fputs_room[of "fp4\<lparr>fpos := 0\<rparr>" "H @ cstr ''movi''"] by (simp add: lH sk4)
  then have "contents (fst (snd F)) = (H @ cstr ''movi'') @ drop 1272 (contents fp4)"
    unfolding F cl(2) wh(2) H_def[symmetric] by (simp add: fclose_def)
  also have "drop 1272 (contents fp4) = (cstr ''00dc'' @ le32 4 @ [7, 7, 7, 1])
              @ (cstr ''00dc'' @ le32 4 @ [7, 7, 7, 1]) @ idx1_chunk s4"
    unfolding c4 using p0 by simp
  finally have "contents (fst (snd F)) =
             H @ cstr ''movi'' @ (cstr ''00dc'' @ le32 4 @ [7, 7, 7, 1])
               @ (cstr ''00dc'' @ le32 4 @ [7, 7, 7, 1]) @ (cstr ''idx1'' @ le32 64)
               @ concat (map entry_bytes
                   [(cstr ''00dc'', 0x10, 4, 4), (cstr ''01wb'', 0x10, 16, 0),
                    (cstr ''00dc'', 0x10, 24, 4), (cstr ''01wb'', 0x10, 36, 0)]) @ []"
    unfolding ic by (simp only: append_assoc append_Nil2)
  with lH show "\<exists>H. length H = 1268 \<and>
           contents (fst (snd F)) =
             H @ cstr ''movi'' @ (cstr ''00dc'' @ le32 4 @ [7, 7, 7, 1])
               @ (cstr ''00dc'' @ le32 4 @ [7, 7, 7, 1]) @ (cstr ''idx1'' @ le32 64)
               @ concat (map entry_bytes
                   [(cstr ''00dc'', 0x10, 4, 4), (cstr ''01wb'', 0x10, 16, 0),
                    (cstr ''00dc'', 0x10, 24, 4), (cstr ''01wb'', 0x10, 36, 0)]) @ []"
    by blast
qed


text \<open>
  Claim C3. In a two-stream session with a pending video frame, \<^verbatim>\<open>AVI_AddVideoFrame\<close>
  tests \<^verbatim>\<open>current_audio_samples > 0\<close>. With a pending audio count of exactly 0 the call
  returns 0 and leaves the file and the statics as they are: the pending frame is not
  flushed. \<^verbatim>\<open>AVI_AddAudioSamples\<close>, whose test is \<^verbatim>\<open>current_audio_samples >= 0\<close>, writes the
  chunks of the same pending frame to the file.
\<close>

theorem C3_zero_audio_count_not_flushed:
  assumes "num_streams s = 2" and "0 \<le> current_screen_size s" and "current_audio_samples s = 0"
  shows "AVI_AddVideoFrame Screen_atari fp s = (0, fp, s)
       \<and> fst (snd (AVI_AddAudioSamples buf n fp s)) = fputs (AVI_frame_bytes s) fp"
proof -
  have "AVI_AddVideoFrame Screen_atari fp s = (0, fp, s)"
    using assms by (intro AVI_AddVideoFrame_out_of_phase) simp_all
  moreover have "fst (snd (AVI_AddAudioSamples buf n fp s)) = fputs (AVI_frame_bytes s) fp"
    using assms
    by (simp add: AVI_AddAudioSamples_flushes AVI_WriteFrame_file copy_samples_def Let_def)
  ultimately show ?thesis by simp
qed

theorem C3_zero_audio_count_not_flushed_witness:
  "num_streams (avi_demo_after True False [AddVideoFrame demo_screen, AddAudioSamples [] 0]) = 2
   \<and> 0 \<le> current_screen_size
            (avi_demo_after True False [AddVideoFrame demo_screen, AddAudioSamples [] 0])
   \<and> current_audio_samples
         (avi_demo_after True False [AddVideoFrame demo_screen, AddAudioSamples [] 0]) = 0
   \<and> avi_demo_results True False [AddVideoFrame demo_screen, AddAudioSamples [] 0] = [1, 1]
   \<and> AVI_AddVideoFrame demo_screen
         (avi_demo_file True False [AddVideoFrame demo_screen, AddAudioSamples [] 0])
         (avi_demo_after True False [AddVideoFrame demo_screen, AddAudioSamples [] 0])
       = (0, avi_demo_file True False [AddVideoFrame demo_screen, AddAudioSamples [] 0],
          avi_demo_after True False [AddVideoFrame demo_screen, AddAudioSamples [] 0])"
proof -
  let ?fp = "avi_demo_fp True False"
  let ?s1 = "avi_demo_after True False [AddVideoFrame demo_screen]"
  let ?cs = "[AddVideoFrame demo_screen, AddAudioSamples [] 0]"
  note v = avi_demo_one_video[of True False, simplified]
  have f1: "fst (snd (AVI_calls [AddVideoFrame demo_screen] ?fp (avi_demo_statics True False))) = ?fp"
    using v(2) by (simp add: avi_demo_file_def)
  have a: "AVI_AddAudioSamples [] 0 ?fp ?s1 = copy_samples [] 0 ?fp ?s1"
    by (rule AVI_AddAudioSamples_idle) (simp_all add: v)
  have b: "copy_samples [] 0 ?fp ?s1 =
      (1, ?fp, ?s1\<lparr>current_audio_samples := 0,
                    audio_buffer := map_option (\<lambda>ab. take (nat (0 * sample_size ?s1)) []
                                      @ drop (nat (0 * sample_size ?s1)) ab) (audio_buffer ?s1)\<rparr>)"
    by (rule copy_samples_fits) (simp_all add: v INT_MIN_def INT_MAX_def)
  have c: "AVI_calls ?cs ?fp (avi_demo_statics True False) =
      ([1, 1], ?fp, ?s1\<lparr>current_audio_samples := 0,
                    audio_buffer := map_option (\<lambda>ab. take (nat (0 * sample_size ?s1)) []
                                      @ drop (nat (0 * sample_size ?s1)) ab) (audio_buffer ?s1)\<rparr>)"
    using AVI_calls_snoc[of "[AddVideoFrame demo_screen]" "AddAudioSamples [] 0" ?fp
        "avi_demo_statics True False"] v(1)
    by (simp add: f1 avi_demo_after_def[symmetric] avi_demo_results_def[symmetric] a b)
  have 1: "num_streams (avi_demo_after True False ?cs) = 2"
    and 2: "0 \<le> current_screen_size (avi_demo_after True False ?cs)"
    and 3: "current_audio_samples (avi_demo_after True False ?cs) = 0"
    and 4: "avi_demo_results True False ?cs = [1, 1]"
    by (simp_all add: avi_demo_after_def[where calls="?cs"] avi_demo_results_def c v)
  from C3_zero_audio_count_not_flushed[OF 1 2 3, of demo_screen
      "avi_demo_file True False ?cs" "[]" 0] 1 2 3 4
  show ?thesis by simp
qed


text \<open>
  Claim C8, as the code has it. In a two-stream session, a call of \<^verbatim>\<open>AVI_AddAudioSamples\<close>
  with \<^verbatim>\<open>num_samples * sample_size\<close> above \<^verbatim>\<open>audio_buffer_size\<close>, the product being one that an
  \<^verbatim>\<open>int\<close> holds, returns 0 and leaves the audio buffer as it is, in every state. When the
  call gets as far as the size check (no audio pending and no error recorded, or a complete
  pending frame whose flush succeeds), it sets \<^verbatim>\<open>current_audio_samples\<close> to \<open>-2\<close>, and from
  then on every \<^verbatim>\<open>AVI_AddVideoFrame\<close> and \<^verbatim>\<open>AVI_AddAudioSamples\<close> call returns 0 and changes
  neither the file nor the statics.
\<close>

theorem C8_oversize_batch_poisons:
  assumes "num_streams s = 2" and "audio_buffer_size s < n * sample_size s"
    and "n * sample_size s \<le> INT_MAX" and "INT_MIN \<le> audio_buffer_size s"
  shows "fst (AVI_AddAudioSamples buf n fp s) = 0
       \<and> audio_buffer (snd (snd (AVI_AddAudioSamples buf n fp s))) = audio_buffer s
       \<and> ((current_audio_samples s = - 1 \<and> - 1 \<le> current_screen_size s)
            \<or> (0 \<le> current_audio_samples s \<and> 0 \<le> current_screen_size s
                \<and> fst (AVI_WriteFrame fp s) \<noteq> 0)
           \<longrightarrow> current_audio_samples (snd (snd (AVI_AddAudioSamples buf n fp s))) = - 2
               \<and> AVI_calls calls (fst (snd (AVI_AddAudioSamples buf n fp s)))
                     (snd (snd (AVI_AddAudioSamples buf n fp s)))
                   = (replicate (length calls) 0, fst (snd (AVI_AddAudioSamples buf n fp s)),
                      snd (snd (AVI_AddAudioSamples buf n fp s))))"
proof -
  let ?r = "AVI_AddAudioSamples buf n fp s"
  let ?w = "AVI_WriteFrame fp s"
  have big: "copy_samples buf n fq s = (0, fq, s\<lparr>current_audio_samples := - 2\<rparr>)" for fq
    by (rule copy_samples_too_big[OF assms(2) assms(4) assms(3)])
  have big': "copy_samples buf n fq (snd (snd ?w))
                = (0, fq, (snd (snd ?w))\<lparr>current_audio_samples := - 2\<rparr>)" for fq
    by (rule copy_samples_too_big) (simp_all add: assms AVI_WriteFrame_fields)
  have 1: "fst ?r = 0"
    by (simp add: AVI_AddAudioSamples_def big big' case_prod_beta Let_def)
  have 2: "audio_buffer (snd (snd ?r)) = audio_buffer s"
    by (simp add: AVI_AddAudioSamples_def big big' case_prod_beta Let_def
        AVI_WriteFrame_fields)
  have 3: "current_audio_samples (snd (snd ?r)) = - 2 \<and> num_streams (snd (snd ?r)) = 2"
    if "(current_audio_samples s = - 1 \<and> - 1 \<le> current_screen_size s)
        \<or> (0 \<le> current_audio_samples s \<and> 0 \<le> current_screen_size s \<and> fst ?w \<noteq> 0)"
    using that
  proof
    assume "current_audio_samples s = - 1 \<and> - 1 \<le> current_screen_size s"
    then show ?thesis
      using assms(1) by (simp add: AVI_AddAudioSamples_idle big)
  next
    assume "0 \<le> current_audio_samples s \<and> 0 \<le> current_screen_size s \<and> fst ?w \<noteq> 0"
    then show ?thesis
      using assms(1)
      by (simp add: AVI_AddAudioSamples_flushes big' AVI_WriteFrame_fields)
  qed
  show ?thesis
    using 1 2 3 poisoned_calls[of "snd (snd ?r)" calls "fst (snd ?r)"] by auto
qed

theorem C8_oversize_batch_poisons_witness:
  "num_streams (avi_demo_statics True False) = 2
   \<and> audio_buffer_size (avi_demo_statics True False)
        < 2000 * sample_size (avi_demo_statics True False)
   \<and> 2000 * sample_size (avi_demo_statics True False) \<le> INT_MAX
   \<and> INT_MIN \<le> audio_buffer_size (avi_demo_statics True False)
   \<and> current_audio_samples (avi_demo_statics True False) = - 1
   \<and> - 1 \<le> current_screen_size (avi_demo_statics True False)
   \<and> fst (AVI_AddAudioSamples demo_big_batch 2000 (avi_demo_fp True False)
             (avi_demo_statics True False)) = 0
   \<and> current_audio_samples
         (snd (snd (AVI_AddAudioSamples demo_big_batch 2000 (avi_demo_fp True False)
                      (avi_demo_statics True False)))) = - 2
   \<and> fst (AVI_calls [AddVideoFrame demo_screen, AddAudioSamples [] 0]
             (fst (snd (AVI_AddAudioSamples demo_big_batch 2000 (avi_demo_fp True False)
                          (avi_demo_statics True False))))
             (snd (snd (AVI_AddAudioSamples demo_big_batch 2000 (avi_demo_fp True False)
                          (avi_demo_statics True False))))) = [0, 0]"
proof -
  note st = avi_demo_start[of True False, simplified]
  have 1: "num_streams (avi_demo_statics True False) = 2" by (simp add: st)
  have 2: "audio_buffer_size (avi_demo_statics True False)
             < 2000 * sample_size (avi_demo_statics True False)" by (simp add: st)
  have 3: "current_audio_samples (avi_demo_statics True False) = - 1"
    "- 1 \<le> current_screen_size (avi_demo_statics True False)" by (simp_all add: st)
  have 4: "2000 * sample_size (avi_demo_statics True False) \<le> INT_MAX"
    by (simp add: st INT_MAX_def)
  have 5: "INT_MIN \<le> audio_buffer_size (avi_demo_statics True False)"
    by (simp add: st INT_MIN_def)
  from C8_oversize_batch_poisons[OF 1 2 4 5, of demo_big_batch "avi_demo_fp True False"
      "[AddVideoFrame demo_screen, AddAudioSamples [] 0]"] 1 2 3 4 5
  show ?thesis by simp
qed

text \<open>
  Claim C8 as stated fails when the call is out of phase: after one accepted batch and no
  video frame, the oversize call is refused by the phase check, \<^verbatim>\<open>current_audio_samples\<close>
  keeps the accepted count, and the next \<^verbatim>\<open>AVI_AddVideoFrame\<close> succeeds.
\<close>

theorem C8_counterexample:
  "num_streams (avi_demo_after True False [AddAudioSamples [1, 2] 2]) = 2
   \<and> audio_buffer_size (avi_demo_after True False [AddAudioSamples [1, 2] 2])
        < 2000 * sample_size (avi_demo_after True False [AddAudioSamples [1, 2] 2])
   \<and> AVI_AddAudioSamples demo_big_batch 2000
         (avi_demo_file True False [AddAudioSamples [1, 2] 2])
         (avi_demo_after True False [AddAudioSamples [1, 2] 2])
       = (0, avi_demo_file True False [AddAudioSamples [1, 2] 2],
          avi_demo_after True False [AddAudioSamples [1, 2] 2])
   \<and> current_audio_samples (avi_demo_after True False [AddAudioSamples [1, 2] 2]) = 2
   \<and> fst (AVI_AddVideoFrame demo_screen
             (avi_demo_file True False [AddAudioSamples [1, 2] 2])
             (avi_demo_after True False [AddAudioSamples [1, 2] 2])) = 1"
proof -
  let ?fp = "avi_demo_fp True False" and ?s = "avi_demo_statics True False"
  let ?cs = "[AddAudioSamples [1, 2] 2]"
  note st = avi_demo_start[of True False, simplified]
  have a: "AVI_AddAudioSamples [1, 2] 2 ?fp ?s = copy_samples [1, 2] 2 ?fp ?s"
    by (rule AVI_AddAudioSamples_idle) (simp_all add: st)
  have b: "copy_samples [1, 2] 2 ?fp ?s =
      (1, ?fp, ?s\<lparr>current_audio_samples := 2,
                   audio_buffer := map_option (\<lambda>ab. take (nat (2 * sample_size ?s)) [1, 2]
                                      @ drop (nat (2 * sample_size ?s)) ab) (audio_buffer ?s)\<rparr>)"
    by (rule copy_samples_fits) (simp_all add: st INT_MIN_def INT_MAX_def)
  have c: "AVI_calls ?cs ?fp ?s =
      ([1], ?fp, ?s\<lparr>current_audio_samples := 2,
                   audio_buffer := map_option (\<lambda>ab. take (nat (2 * sample_size ?s)) [1, 2]
                                      @ drop (nat (2 * sample_size ?s)) ab) (audio_buffer ?s)\<rparr>)"
    by (simp add: AVI_calls_single a b)
  define s1 where "s1 = avi_demo_after True False ?cs"
  define fp1 where "fp1 = avi_demo_file True False ?cs"
  have f: "num_streams s1 = 2" "audio_buffer_size s1 = 1906" "sample_size s1 = 1"
    "current_audio_samples s1 = 2" "current_screen_size s1 = - 1"
    "video_codec s1 = Some (demo_codec False)"
    by (simp_all add: s1_def avi_demo_after_def c st)
  have o: "AVI_AddAudioSamples demo_big_batch 2000 fp1 s1 = (0, fp1, s1)"
    by (rule AVI_AddAudioSamples_out_of_phase) (simp_all add: f)
  have v: "AVI_AddVideoFrame demo_screen fp1 s1 = encode_frame demo_screen fp1 s1"
    by (rule AVI_AddVideoFrame_idle) (simp_all add: f)
  have e: "fst (encode_frame demo_screen fp1 s1) = 1"
    using encode_frame_result[OF f(6), of demo_screen fp1] by (simp add: demo_codec_def)
  show ?thesis
    unfolding s1_def[symmetric] fp1_def[symmetric] using f o v e by simp
qed


text \<open>
  Claim C4, as the code has it. \<^verbatim>\<open>AVI_WriteFrame\<close> adds to \<^verbatim>\<open>byteswritten\<close> after it has
  written the chunks and compares with \<^verbatim>\<open>MAX_RECORDING_SIZE\<close> last. So the counter is within
  the limit after every flush that returns nonzero, and after every run of host calls that
  all return nonzero in a session that started within it; the flush that takes the counter
  above the limit returns 0. For a frame within the limits of the packed index word the
  32-bit counter does not wrap: it grows by exactly the bytes written plus 32.
\<close>

theorem C4_limit_checked_after_write:
  "(fst (AVI_WriteFrame fp s) \<noteq> 0 \<longrightarrow>
      byteswritten (snd (snd (AVI_WriteFrame fp s))) \<le> MAX_RECORDING_SIZE)
   \<and> (byteswritten s \<le> MAX_RECORDING_SIZE \<and> 0 \<notin> set (fst (AVI_calls calls fp s)) \<longrightarrow>
        byteswritten (snd (snd (AVI_calls calls fp s))) \<le> MAX_RECORDING_SIZE)
   \<and> (byteswritten s \<le> MAX_RECORDING_SIZE
        \<and> 0 \<le> current_screen_size s \<and> current_screen_size s \<le> 262143
        \<and> 0 \<le> frame_audio_size s \<and> frame_audio_size s \<le> 8191 \<and> 0 \<le> sample_size s \<longrightarrow>
        uint (byteswritten (snd (snd (AVI_WriteFrame fp s))))
          = uint (byteswritten s) + frame_growth fp s + 32)"
  using AVI_WriteFrame_success_bound[of fp s] AVI_calls_success_bound[of calls fp s]
    byteswritten_no_wrap[of s fp]
  by blast

theorem C4_limit_checked_after_write_witness:
  "fst (AVI_WriteFrame (avi_demo_fp True False) (avi_demo_after True False demo_frame_calls)) \<noteq> 0
   \<and> byteswritten (avi_demo_statics True False) \<le> MAX_RECORDING_SIZE
   \<and> 0 \<notin> set (fst (AVI_calls demo_frame_calls (avi_demo_fp True False)
                        (avi_demo_statics True False)))
   \<and> byteswritten (avi_demo_after True False demo_frame_calls) \<le> MAX_RECORDING_SIZE
   \<and> 0 \<le> current_screen_size (avi_demo_after True False demo_frame_calls)
   \<and> current_screen_size (avi_demo_after True False demo_frame_calls) \<le> 262143
   \<and> 0 \<le> frame_audio_size (avi_demo_after True False demo_frame_calls)
   \<and> frame_audio_size (avi_demo_after True False demo_frame_calls) \<le> 8191
   \<and> 0 \<le> sample_size (avi_demo_after True False demo_frame_calls)
   \<and> byteswritten (snd (snd (AVI_WriteFrame (avi_demo_fp True False)
                                (avi_demo_after True False demo_frame_calls))))
        \<le> MAX_RECORDING_SIZE
   \<and> uint (byteswritten (snd (snd (AVI_WriteFrame (avi_demo_fp True False)
                                      (avi_demo_after True False demo_frame_calls))))) = 1456"
proof -
  let ?fp = "avi_demo_fp True False" and ?s = "avi_demo_after True False demo_frame_calls"
  note p = avi_demo_pending_fields[of False]
  note st = avi_demo_start[of True False, simplified]
  have cap: "capacity ?fp = 100000" by (rule avi_demo_open_Some(2))
  have sk: "seekable ?fp" by (rule avi_demo_open_Some(3))
  have g: "frame_growth ?fp ?s = 22"
    using frame_growth_room[OF p(14), of ?fp] by (simp add: p st cap sk)
  have 1: "fst (AVI_WriteFrame ?fp ?s) \<noteq> 0"
    by (simp add: AVI_WriteFrame_result g p MAX_RECORDING_SIZE_def)
  have 2: "byteswritten (avi_demo_statics True False) \<le> MAX_RECORDING_SIZE"
    by (simp add: st MAX_RECORDING_SIZE_def)
  have 3: "0 \<notin> set (fst (AVI_calls demo_frame_calls ?fp (avi_demo_statics True False)))"
    by (simp add: avi_demo_pending)
  have 4: "byteswritten ?s \<le> MAX_RECORDING_SIZE"
    "0 \<le> current_screen_size ?s" "current_screen_size ?s \<le> 262143"
    "0 \<le> frame_audio_size ?s" "frame_audio_size ?s \<le> 8191" "0 \<le> sample_size ?s"
    by (simp_all add: p frame_audio_size_def MAX_RECORDING_SIZE_def)
  from C4_limit_checked_after_write[of ?fp ?s demo_frame_calls] 1 4
  have "byteswritten (snd (snd (AVI_WriteFrame ?fp ?s))) \<le> MAX_RECORDING_SIZE"
    "uint (byteswritten (snd (snd (AVI_WriteFrame ?fp ?s)))) = uint (byteswritten ?s) + 22 + 32"
    unfolding g by blast+
  then show ?thesis
    using 1 2 3 4 by (simp add: p)
qed

text \<open>
  Claim C4 as stated fails: the flush that crosses the limit leaves \<^verbatim>\<open>byteswritten\<close> above
  \<^verbatim>\<open>MAX_RECORDING_SIZE\<close>, with the chunk already in the file, and only then returns 0.
\<close>

theorem C4_counterexample:
  "byteswritten near_limit_statics \<le> MAX_RECORDING_SIZE
   \<and> fst (AVI_WriteFrame near_limit_file near_limit_statics) = 0
   \<and> byteswritten (snd (snd (AVI_WriteFrame near_limit_file near_limit_statics)))
        = MAX_RECORDING_SIZE + 34
   \<and> \<not> byteswritten (snd (snd (AVI_WriteFrame near_limit_file near_limit_statics)))
          \<le> MAX_RECORDING_SIZE
   \<and> fpos (fst (snd (AVI_WriteFrame near_limit_file near_limit_statics)))
        = fpos near_limit_file + 18"
proof -
  have r: "frame_ready near_limit_statics"
    by (simp add: frame_ready_def near_limit_statics_def initial_statics_def mem_def)
  have e: "expected_frame_size near_limit_statics = 18"
    by (simp add: expected_frame_size_def near_limit_statics_def initial_statics_def c_rem_def)
  have g: "frame_growth near_limit_file near_limit_statics = 18"
    using frame_growth_room[OF r, of near_limit_file] by (simp add: e near_limit_file_def)
  have b: "byteswritten near_limit_statics = 0xffeffff0"
    by (simp add: near_limit_statics_def initial_statics_def)
  have p: "fpos (fst (snd (AVI_WriteFrame near_limit_file near_limit_statics)))
             = fpos near_limit_file + 18"
    using g by (simp add: AVI_WriteFrame_file frame_growth_def ftell_def near_limit_file_def)
  show ?thesis
    using p by (simp add: AVI_WriteFrame_result AVI_WriteFrame_byteswritten g b
        MAX_RECORDING_SIZE_def)
qed


text \<open>
  Claim C10, as the code has it. When \<^verbatim>\<open>frames_written\<close> is 0 and no complete frame is pending
  (the video sentinel or the audio sentinel is negative), \<^verbatim>\<open>AVI_CloseFile\<close> returns 0:
  \<^verbatim>\<open>AVI_WriteIndex\<close> returns 0 and leaves the file as it is, the header is not written again, so
  the bytes of the file are those it held before the call, and the file is closed. The end
  hook of the codec has run on the codec's data, the video buffer and the index array are
  released, and so is the audio buffer when one was allocated.
\<close>

theorem C10_close_without_frames:
  assumes "frames_written s = 0"
    and "\<not> (0 \<le> current_screen_size s \<and> 0 \<le> current_audio_samples s)"
  shows "fst (AVI_CloseFile env fp s) = 0
    \<and> AVI_WriteIndex fp (s\<lparr>size_movi := word_of_int (ftell fp) - size_movi s\<rparr>) = (0, fp)
    \<and> fst (snd (AVI_CloseFile env fp s)) = fclose fp
    \<and> contents (fst (snd (AVI_CloseFile env fp s))) = contents fp
    \<and> \<not> is_open (fst (snd (AVI_CloseFile env fp s)))
    \<and> (\<forall>c. video_codec s = Some c \<longrightarrow>
          codec_data (snd (snd (AVI_CloseFile env fp s))) = snd (codec_end c (codec_data s)))
    \<and> video_buffer (snd (snd (AVI_CloseFile env fp s))) = None
    \<and> frame_indexes (snd (snd (AVI_CloseFile env fp s))) = None
    \<and> (0 < audio_buffer_size s \<longrightarrow> audio_buffer (snd (snd (AVI_CloseFile env fp s))) = None)
    \<and> frames_written (snd (snd (AVI_CloseFile env fp s))) = 0"
proof -
  have i: "AVI_WriteIndex fp (s\<lparr>size_movi := word_of_int (ftell fp) - size_movi s\<rparr>) = (0, fp)"
    using assms(1) by (simp add: AVI_WriteIndex_eq)
  have c: "\<forall>c. video_codec s = Some c \<longrightarrow>
          codec_data (snd (snd (AVI_CloseFile env fp s))) = snd (codec_end c (codec_data s))"
    by (simp add: AVI_CloseFile_nothing[OF assms] call_codec_end_def)
  have a: "0 < audio_buffer_size s \<longrightarrow> audio_buffer (snd (snd (AVI_CloseFile env fp s))) = None"
    by (simp add: AVI_CloseFile_nothing[OF assms] call_codec_end_def split: option.splits)
  have f: "frames_written (snd (snd (AVI_CloseFile env fp s))) = 0"
    using assms(1)
    by (simp add: AVI_CloseFile_nothing[OF assms] call_codec_end_def split: option.splits)
  show ?thesis
    using i c a f by (simp add: AVI_CloseFile_nothing[OF assms] fclose_def)
qed

theorem C10_close_without_frames_witness:
  "frames_written (avi_demo_after True False []) = 0
   \<and> \<not> (0 \<le> current_screen_size (avi_demo_after True False [])
        \<and> 0 \<le> current_audio_samples (avi_demo_after True False []))
   \<and> video_codec (avi_demo_after True False []) = Some (demo_codec False)
   \<and> 0 < audio_buffer_size (avi_demo_after True False [])
   \<and> fst (avi_demo_close True False []) = 0
   \<and> contents (fst (snd (avi_demo_close True False []))) = contents (avi_demo_fp True False)
   \<and> \<not> is_open (fst (snd (avi_demo_close True False [])))
   \<and> codec_data (snd (snd (avi_demo_close True False [])))
        = codec_data (avi_demo_statics True False) + 1000
   \<and> video_buffer (snd (snd (avi_demo_close True False []))) = None
   \<and> frame_indexes (snd (snd (avi_demo_close True False []))) = None
   \<and> audio_buffer (snd (snd (avi_demo_close True False []))) = None"
proof -
  let ?env = "demo_env True 100000 True"
  let ?fp = "avi_demo_fp True False" and ?s = "avi_demo_statics True False"
  note st = avi_demo_start[of True False, simplified]
  have e: "avi_demo_after True False [] = ?s" "avi_demo_file True False [] = ?fp"
    by (simp_all add: avi_demo_after_def avi_demo_file_def)
  have h: "frames_written ?s = 0"
    "\<not> (0 \<le> current_screen_size ?s \<and> 0 \<le> current_audio_samples ?s)"
    "video_codec ?s = Some (demo_codec False)" "0 < audio_buffer_size ?s"
    by (simp_all add: st)
  have d: "snd (codec_end (demo_codec False) (codec_data ?s)) = codec_data ?s + 1000"
    by (simp add: demo_codec_def)
  from C10_close_without_frames[OF h(1,2), of ?env ?fp] h d
  show ?thesis
    unfolding avi_demo_close_def e by (simp add: fclose_def)
qed

text \<open>
  Claim C10 as stated fails when a complete frame is pending: in the example session one
  video frame and one batch of samples have been handed over and nothing has been flushed,
  so \<^verbatim>\<open>frames_written\<close> is 0; \<^verbatim>\<open>AVI_CloseFile\<close> writes the pending frame first, then the
  index and the header, and returns 1.
\<close>

theorem C10_counterexample:
  "frames_written (avi_demo_after True False demo_frame_calls) = 0
   \<and> avi_demo_results True False demo_frame_calls = [1, 1]
   \<and> fst (avi_demo_close True False demo_frame_calls) = 1"
  by (simp add: avi_demo_pending_fields avi_demo_close_pending)


text \<open>
  Claim C5. In a session that \<^verbatim>\<open>AVI_OpenFile\<close> has opened, after any calls of
  \<^verbatim>\<open>AVI_AddVideoFrame\<close> and \<^verbatim>\<open>AVI_AddAudioSamples\<close>: the first frame is a keyframe whatever
  the codec (while no frame is written \<^verbatim>\<open>current_is_keyframe\<close> is set, afterwards the first
  packed word reads back as a keyframe). With a codec whose \<^verbatim>\<open>uses_interframes\<close> is false,
  \<^verbatim>\<open>current_is_keyframe\<close> is set after every call, so at every flush; every packed word
  stored reads back as a keyframe and every \<^verbatim>\<open>00dc\<close> entry of the \<^verbatim>\<open>idx1\<close> chunk carries the
  flags \<^verbatim>\<open>0x10\<close>; and the same holds after the flush of a last pending frame, as
  \<^verbatim>\<open>AVI_CloseFile\<close> does it before it writes the index.
\<close>

theorem C5_keyframes_without_interframes:
  assumes "AVI_OpenFile env best name s0 = (Some fp, s)"
  shows "first_is_keyframe (snd (snd (AVI_calls calls fp s)))
       \<and> ((\<exists>c. video_codec s = Some c \<and> \<not> uses_interframes c) \<longrightarrow>
            (\<forall>n \<le> length calls. current_is_keyframe (snd (snd (AVI_calls (take n calls) fp s))))
            \<and> idx1_keyframes (snd (snd (AVI_calls calls fp s)))
            \<and> current_is_keyframe (snd (snd (AVI_WriteFrame fq (snd (snd (AVI_calls calls fp s))))))
            \<and> idx1_keyframes (snd (snd (AVI_WriteFrame fq (snd (snd (AVI_calls calls fp s))))))
            \<and> (0 < frames_written (snd (snd (AVI_calls calls fp s))) \<longrightarrow>
                  snd (AVI_WriteIndex fq (snd (snd (AVI_calls calls fp s))))
                    = fputs (idx1_chunk (snd (snd (AVI_calls calls fp s)))) fq))"
proof -
  note o = AVI_OpenFile_Some[OF assms]
  note ir = AVI_OpenFile_index_room[OF assms]
  have "first_is_keyframe s"
    by (simp add: first_is_keyframe_def ir o(1) o(4))
  then have 1: "first_is_keyframe (snd (snd (AVI_calls calls fp s)))"
    by (rule first_is_keyframe_calls)
  have 2: "(\<forall>n \<le> length calls. current_is_keyframe (snd (snd (AVI_calls (take n calls) fp s))))
            \<and> idx1_keyframes (snd (snd (AVI_calls calls fp s)))
            \<and> current_is_keyframe (snd (snd (AVI_WriteFrame fq (snd (snd (AVI_calls calls fp s))))))
            \<and> idx1_keyframes (snd (snd (AVI_WriteFrame fq (snd (snd (AVI_calls calls fp s))))))"
    if c: "video_codec s = Some c" "\<not> uses_interframes c" for c
  proof -
    have k: "keyframes_only s"
      by (simp add: keyframes_only_def ir o(4) c)
    have a: "keyframes_only (snd (snd (AVI_calls cs fp s)))" for cs
      using k by (rule keyframes_only_calls)
    have b: "keyframes_only (snd (snd (AVI_WriteFrame fq (snd (snd (AVI_calls calls fp s))))))"
      using a by (rule keyframes_only_WriteFrame)
    have "current_is_keyframe (snd (snd (AVI_calls cs fp s)))" for cs
      using a[of cs] by (simp add: keyframes_only_def)
    moreover have "current_is_keyframe (snd (snd (AVI_WriteFrame fq (snd (snd (AVI_calls calls fp s))))))"
      using b by (simp add: keyframes_only_def)
    ultimately show ?thesis
      using keyframes_only_idx1[OF a[of calls]] keyframes_only_idx1[OF b] by simp
  qed
  have 3: "0 < frames_written t \<longrightarrow> snd (AVI_WriteIndex fq t) = fputs (idx1_chunk t) fq"
    for t :: "'a statics"
    by (simp add: AVI_WriteIndex_eq)
  show ?thesis using 1 2 3 by blast
qed

theorem C5_keyframes_without_interframes_witness:
  "avi_demo_open False False = (Some (avi_demo_fp False False), avi_demo_statics False False)
   \<and> video_codec (avi_demo_statics False False) = Some (demo_codec False)
   \<and> \<not> uses_interframes (demo_codec False)
   \<and> frames_written (avi_demo_after False False demo_video_calls) = 2
   \<and> current_is_keyframe (avi_demo_after False False demo_video_calls)
   \<and> index_is_keyframe (stored_indexes (avi_demo_after False False demo_video_calls) ! 0) = 0x10
   \<and> index_is_keyframe (stored_indexes (avi_demo_after False False demo_video_calls) ! 1) = 0x10
   \<and> fst (read_idx1_entry (idx1_chunk (avi_demo_after False False demo_video_calls)) 8 2)
        = cstr ''00dc''
   \<and> fst (snd (read_idx1_entry (idx1_chunk (avi_demo_after False False demo_video_calls)) 8 2))
        = 0x10"
proof -
  let ?fp = "avi_demo_fp False False" and ?s = "avi_demo_statics False False"
  let ?S = "avi_demo_after False False demo_video_calls"
  note st = avi_demo_start[of False False, simplified]
  note v = avi_demo_video
  have o: "AVI_OpenFile (demo_env False 100000 True) (demo_codec False) ''a.avi'' (initial_statics 0)
             = (Some ?fp, ?s)"
    using avi_demo_open_Some(1)[of False False] by (simp add: avi_demo_open_def)
  have c: "video_codec ?s = Some (demo_codec False)" "\<not> uses_interframes (demo_codec False)"
    by (simp_all add: st demo_codec_def)
  have fw: "frames_written ?S = 2" by (rule v(6))
  have t: "take (length demo_video_calls) demo_video_calls = demo_video_calls" by simp
  from C5_keyframes_without_interframes[OF o, of demo_video_calls ?fp] c
  have f: "first_is_keyframe ?S"
    and k: "\<forall>n \<le> length demo_video_calls.
              current_is_keyframe (snd (snd (AVI_calls (take n demo_video_calls) ?fp ?s)))"
    and i: "idx1_keyframes ?S"
    unfolding avi_demo_after_def by blast+
  from k have 1: "current_is_keyframe ?S"
    unfolding avi_demo_after_def using t by (metis order_refl)
  from f fw have 2: "index_is_keyframe (stored_indexes ?S ! 0) = 0x10"
    by (simp add: first_is_keyframe_def)
  from i fw have 3: "index_is_keyframe (stored_indexes ?S ! 1) = 0x10"
    "fst (read_idx1_entry (idx1_chunk ?S) 8 2) = cstr ''00dc''"
    "fst (snd (read_idx1_entry (idx1_chunk ?S) 8 2)) = 0x10"
    unfolding idx1_keyframes_def by (auto dest: spec[of _ 1])
  show ?thesis
    using avi_demo_open_Some(1)[of False False] c fw 1 2 3 by simp
qed


text \<open>
  Claim C1 fails in a recording without sound. \<^verbatim>\<open>AVI_WriteFrame\<close> writes the \<^verbatim>\<open>01wb\<close> chunk
  only when \<^verbatim>\<open>num_streams\<close> is 2, but the loop of \<^verbatim>\<open>AVI_WriteIndex\<close> writes a \<^verbatim>\<open>01wb\<close> entry
  and adds the eight bytes of an empty audio chunk to \<^verbatim>\<open>offset\<close> for every frame, whatever
  \<^verbatim>\<open>num_streams\<close> is. In the example session without sound, three calls of
  \<^verbatim>\<open>AVI_AddVideoFrame\<close> return 1 and \<^verbatim>\<open>AVI_CloseFile\<close> returns 1. In the closed file the tag
  \<^verbatim>\<open>movi\<close> is at position 1268 and the two video chunks, of twelve bytes each, are at the
  offsets 4 and 16 from it; the \<^verbatim>\<open>idx1\<close> chunk follows at 1296, its entries start at 1304,
  and the entry of the second video chunk gives the offset 24, which is where the data of
  that chunk lies, not its tag. The index has four entries for the two chunks of the file.
\<close>

theorem C1_index_offsets_video_only:
  "num_streams (avi_demo_after False False demo_video_calls) = 1
   \<and> avi_demo_results False False demo_video_calls = [1, 1, 1]
   \<and> frames_written (avi_demo_after False False demo_video_calls) = 2
   \<and> fst (avi_demo_close False False demo_video_calls) = 1
   \<and> length (contents (fst (snd (avi_demo_close False False demo_video_calls)))) = 1368
   \<and> take 4 (drop 1268 (contents (fst (snd (avi_demo_close False False demo_video_calls)))))
        = cstr ''movi''
   \<and> take 4 (drop (1268 + 4) (contents (fst (snd (avi_demo_close False False demo_video_calls)))))
        = cstr ''00dc''
   \<and> take 4 (drop (1268 + 16) (contents (fst (snd (avi_demo_close False False demo_video_calls)))))
        = cstr ''00dc''
   \<and> take 4 (drop (1268 + 24) (contents (fst (snd (avi_demo_close False False demo_video_calls)))))
        = [7, 7, 7, 1]
   \<and> take 4 (drop 1296 (contents (fst (snd (avi_demo_close False False demo_video_calls)))))
        = cstr ''idx1''
   \<and> read_idx1_entry (contents (fst (snd (avi_demo_close False False demo_video_calls)))) 1304 0
        = (cstr ''00dc'', 0x10, 4, 4)
   \<and> read_idx1_entry (contents (fst (snd (avi_demo_close False False demo_video_calls)))) 1304 1
        = (cstr ''01wb'', 0x10, 16, 0)
   \<and> read_idx1_entry (contents (fst (snd (avi_demo_close False False demo_video_calls)))) 1304 2
        = (cstr ''00dc'', 0x10, 24, 4)
   \<and> read_idx1_entry (contents (fst (snd (avi_demo_close False False demo_video_calls)))) 1304 3
        = (cstr ''01wb'', 0x10, 36, 0)"
proof -
  define C where "C = contents (fst (snd (avi_demo_close False False demo_video_calls)))"
  define es :: "idx_entry list" where
    "es = [(cstr ''00dc'', 0x10, 4, 4), (cstr ''01wb'', 0x10, 16, 0),
           (cstr ''00dc'', 0x10, 24, 4), (cstr ''01wb'', 0x10, 36, 0)]"
  note v = avi_demo_video
  from avi_demo_video_closed(2) obtain H where lH: "length H = 1268"
    and c: "C = H @ cstr ''movi'' @ (cstr ''00dc'' @ le32 4 @ [7, 7, 7, 1])
               @ (cstr ''00dc'' @ le32 4 @ [7, 7, 7, 1]) @ (cstr ''idx1'' @ le32 64)
               @ concat (map entry_bytes es) @ []"
    unfolding C_def es_def by blast
  define pre where "pre = H @ cstr ''movi'' @ (cstr ''00dc'' @ le32 4 @ [7, 7, 7, 1])
               @ (cstr ''00dc'' @ le32 4 @ [7, 7, 7, 1]) @ (cstr ''idx1'' @ le32 64)"
  have c': "C = pre @ concat (map entry_bytes es) @ []" by (simp add: c pre_def)
  have lp: "length pre = 1304" by (simp add: pre_def lH)
  have tags: "\<forall>e \<in> set es. length (fst e) = 4" by (simp add: es_def)
  have r: "read_idx1_entry C 1304 k = es ! k" if "k < 4" for k
    unfolding c' using that by (intro read_idx1_entry_nth[OF tags lp]) (simp add: es_def)
  have e: "read_idx1_entry C 1304 0 = (cstr ''00dc'', 0x10, 4, 4)"
    "read_idx1_entry C 1304 1 = (cstr ''01wb'', 0x10, 16, 0)"
    "read_idx1_entry C 1304 2 = (cstr ''00dc'', 0x10, 24, 4)"
    "read_idx1_entry C 1304 3 = (cstr ''01wb'', 0x10, 36, 0)"
    by (simp_all add: r es_def)
  have l: "length C = 1368" by (simp add: c lH es_def)
  have d: "drop 1268 C = cstr ''movi'' @ (cstr ''00dc'' @ le32 4 @ [7, 7, 7, 1])
               @ (cstr ''00dc'' @ le32 4 @ [7, 7, 7, 1]) @ (cstr ''idx1'' @ le32 64)
               @ concat (map entry_bytes es) @ []"
    unfolding c using lH by simp
  have t: "take 4 (drop 1268 C) = cstr ''movi''" unfolding d by simp
  have d4: "drop (1268 + 4) C = drop 4 (drop 1268 C)" by simp
  have d16: "drop (1268 + 16) C = drop 16 (drop 1268 C)" by simp
  have d24: "drop (1268 + 24) C = drop 24 (drop 1268 C)" by simp
  have d28: "drop 1296 C = drop 28 (drop 1268 C)" by simp
  have t4: "take 4 (drop (1268 + 4) C) = cstr ''00dc''" unfolding d4 d by simp
  have t16: "take 4 (drop (1268 + 16) C) = cstr ''00dc''" unfolding d16 d by simp
  have t24: "take 4 (drop (1268 + 24) C) = [7, 7, 7, 1]" unfolding d24 d by simp
  have t28: "take 4 (drop 1296 C) = cstr ''idx1''" unfolding d28 d by simp
  show ?thesis
    unfolding C_def[symmetric]
    using v(1) v(6) v(7) avi_demo_video_closed(1) l t t4 t16 t24 t28 e by simp
qed


end
